(* ===== verification/Prelude.thy ===== *)
theory Prelude
  imports Main "HOL-Library.Word" "HOL-Library.Multiset" "HOL-Library.While_Combinator"
begin

unbundle bit_operations_syntax

text \<open>
  What every component shares: the machine types, the computation type of a Go method (explicit
  state passing with its outcomes), the loop combinators, and the two proof rules the
  components use (Hoare triples with an error postcondition, and reflexive transitive
  relations between the state before and after a method).
\<close>

section \<open>Machine types\<close>

type_synonym u64 = "64 word"
type_synonym u8 = "8 word"
type_synonym bytes = "u8 list"

lemma unat_u64_less: "unat (w :: u64) < 2 ^ 64"
  using unsigned_less [where 'a = nat and 'b = 64, of w] by simp

text \<open>
  A \<open>types.Currency\<close> holds an unsigned 128-bit number of atomic units; the model keeps the
  number. Its arithmetic is not under src/ and is a parameter (theory Externals).
\<close>

type_synonym currency = nat

text \<open>A \<open>time.Time\<close> in UTC: nanoseconds since the Unix epoch.\<close>

type_synonym gotime = int

text \<open>\<open>t.Unix()\<close> and \<open>time.Unix(s, 0)\<close>.\<close>

definition unix_seconds :: "gotime \<Rightarrow> int" where
  "unix_seconds t = t div 1000000000"

definition unix_time :: "int \<Rightarrow> gotime" where
  "unix_time s = s * 1000000000"

lemma unix_seconds_unix_time [simp]: "unix_seconds (unix_time s) = s"
  by (simp add: unix_seconds_def unix_time_def)

section \<open>Outcomes and computations\<close>

text \<open>
  A method returns a value, returns an error, panics, or does not return (a loop without end).
\<close>

datatype ('e, 'a) outcome = Ok 'a | Err 'e | Panic | Hang

type_synonym ('s, 'e, 'a) comp = "'s \<Rightarrow> ('e, 'a) outcome \<times> 's"

definition ret :: "'a \<Rightarrow> ('s, 'e, 'a) comp" where
  "ret a = (\<lambda>s. (Ok a, s))"

definition fail :: "'e \<Rightarrow> ('s, 'e, 'a) comp" where
  "fail e = (\<lambda>s. (Err e, s))"

definition panic :: "('s, 'e, 'a) comp" where
  "panic = (\<lambda>s. (Panic, s))"

definition bnd :: "('s, 'e, 'a) comp \<Rightarrow> ('a \<Rightarrow> ('s, 'e, 'b) comp) \<Rightarrow> ('s, 'e, 'b) comp" where
  "bnd m f = (\<lambda>s. case m s of
      (Ok a, s') \<Rightarrow> f a s'
    | (Err e, s') \<Rightarrow> (Err e, s')
    | (Panic, s') \<Rightarrow> (Panic, s')
    | (Hang, s') \<Rightarrow> (Hang, s'))"

text \<open>\<open>x, err := m()\<close> where the code goes on after an error.\<close>

definition attempt :: "('s, 'e, 'a) comp \<Rightarrow> ('s, 'e, 'e + 'a) comp" where
  "attempt m = (\<lambda>s. case m s of
      (Ok a, s') \<Rightarrow> (Ok (Inr a), s')
    | (Err e, s') \<Rightarrow> (Ok (Inl e), s')
    | (Panic, s') \<Rightarrow> (Panic, s')
    | (Hang, s') \<Rightarrow> (Hang, s'))"

text \<open>\<open>if cond \<open>{\<close> return err \<open>}\<close>\<close>\<close>

definition guard_err :: "bool \<Rightarrow> 'e \<Rightarrow> ('s, 'e, unit) comp" where
  "guard_err b e = (if b then fail e else ret ())"

definition lift_sum :: "'e + 'a \<Rightarrow> ('s, 'e, 'a) comp" where
  "lift_sum r = (case r of Inl e \<Rightarrow> fail e | Inr a \<Rightarrow> ret a)"

definition lift_err :: "'e option \<Rightarrow> ('s, 'e, unit) comp" where
  "lift_err r = (case r of Some e \<Rightarrow> fail e | None \<Rightarrow> ret ())"

text \<open>A call that returns or panics.\<close>

definition lift_panic :: "'a option \<Rightarrow> ('s, 'e, 'a) comp" where
  "lift_panic r = (case r of None \<Rightarrow> panic | Some a \<Rightarrow> ret a)"

definition get_st :: "('s \<Rightarrow> 'a) \<Rightarrow> ('s, 'e, 'a) comp" where
  "get_st f = (\<lambda>s. (Ok (f s), s))"

definition mod_st :: "('s \<Rightarrow> 's) \<Rightarrow> ('s, 'e, unit) comp" where
  "mod_st f = (\<lambda>s. (Ok (), f s))"

lemmas comp_defs = ret_def fail_def panic_def bnd_def attempt_def guard_err_def
  lift_sum_def lift_err_def lift_panic_def get_st_def mod_st_def

lemma bnd_ret [simp]: "bnd (ret a) f = f a"
  by (simp add: bnd_def ret_def)

lemma bnd_fail [simp]: "bnd (fail e) f = fail e"
  by (simp add: bnd_def fail_def)

lemma bnd_panic [simp]: "bnd panic f = panic"
  by (simp add: bnd_def panic_def)

lemma ret_app [simp]: "ret a s = (Ok a, s)"
  by (simp add: ret_def)

lemma fail_app [simp]: "fail e s = (Err e, s)"
  by (simp add: fail_def)

lemma panic_app [simp]: "panic s = (Panic, s)"
  by (simp add: panic_def)

lemma get_st_app [simp]: "get_st f s = (Ok (f s), s)"
  by (simp add: get_st_def)

lemma mod_st_app [simp]: "mod_st f s = (Ok (), f s)"
  by (simp add: mod_st_def)

lemma lift_simps [simp]:
  "lift_sum (Inl e) = fail e" "lift_sum (Inr a) = ret a"
  "lift_err (Some e) = fail e" "lift_err None = ret ()"
  "lift_panic None = panic" "lift_panic (Some a) = ret a"
  "guard_err True e = fail e" "guard_err False e = ret ()"
  by (simp_all add: lift_sum_def lift_err_def lift_panic_def guard_err_def)

text \<open>A computation that returns a value went through every step.\<close>

lemma bnd_Ok_iff:
  "bnd m f s = (Ok b, t) \<longleftrightarrow> (\<exists>a s'. m s = (Ok a, s') \<and> f a s' = (Ok b, t))"
  by (auto simp: bnd_def split: prod.splits outcome.splits)

lemma bnd_Err_iff:
  "bnd m f s = (Err e, t) \<longleftrightarrow>
    m s = (Err e, t) \<or> (\<exists>a s'. m s = (Ok a, s') \<and> f a s' = (Err e, t))"
  by (auto simp: bnd_def split: prod.splits outcome.splits)

lemma bnd_eq_Ok: "m s = (Ok a, s') \<Longrightarrow> bnd m f s = f a s'"
  by (simp add: bnd_def)

lemma bnd_eq_Err: "m s = (Err e, s') \<Longrightarrow> bnd m f s = (Err e, s')"
  by (simp add: bnd_def)

lemma lift_sum_Ok_iff: "lift_sum r s = (Ok a, t) \<longleftrightarrow> r = Inr a \<and> t = s"
  by (auto simp: lift_sum_def split: sum.splits)

lemma lift_err_Ok_iff: "lift_err r s = (Ok a, t) \<longleftrightarrow> r = None \<and> t = s"
  by (auto simp: lift_err_def split: option.splits)

lemma lift_panic_Ok_iff: "lift_panic r s = (Ok a, t) \<longleftrightarrow> r = Some a \<and> t = s"
  by (auto simp: lift_panic_def split: option.splits)

lemma guard_err_Ok_iff: "guard_err b e s = (Ok a, t) \<longleftrightarrow> \<not> b \<and> t = s"
  by (auto simp: guard_err_def)

lemma ret_Ok_iff: "ret x s = (Ok a, t) \<longleftrightarrow> a = x \<and> t = s"
  by auto

lemma fail_Ok_iff: "fail e s = (Ok a, t) \<longleftrightarrow> False"
  by simp

lemmas ok_iffs = bnd_Ok_iff lift_sum_Ok_iff lift_err_Ok_iff lift_panic_Ok_iff
  guard_err_Ok_iff ret_Ok_iff fail_Ok_iff

section \<open>Loops\<close>

text \<open>
  \<open>loop body a\<close> is Go's \<open>for\<close> with loop variables \<open>a\<close>: the body returns \<open>Inl a'\<close> for the
  next iteration and \<open>Inr b\<close> where the loop is left with \<open>b\<close>. A loop that never ends is
  \<open>Hang\<close>.
\<close>

definition loop_step :: "('a \<Rightarrow> ('s, 'e, 'a + 'b) comp) \<Rightarrow>
    ('e, 'a + 'b) outcome \<times> 's \<Rightarrow> ('e, 'a + 'b) outcome \<times> 's" where
  "loop_step body = (\<lambda>(r, s). case r of Ok (Inl a) \<Rightarrow> body a s | _ \<Rightarrow> (r, s))"

definition loop_going :: "('e, 'a + 'b) outcome \<times> 's \<Rightarrow> bool" where
  "loop_going = (\<lambda>(r, s). case r of Ok (Inl _) \<Rightarrow> True | _ \<Rightarrow> False)"

definition loop :: "('a \<Rightarrow> ('s, 'e, 'a + 'b) comp) \<Rightarrow> 'a \<Rightarrow> ('s, 'e, 'b) comp" where
  "loop body a = (\<lambda>s. case while_option loop_going (loop_step body) (Ok (Inl a), s) of
      None \<Rightarrow> (Hang, s)
    | Some (Ok (Inr b), s') \<Rightarrow> (Ok b, s')
    | Some (Ok (Inl _), s') \<Rightarrow> (Hang, s')
    | Some (Err e, s') \<Rightarrow> (Err e, s')
    | Some (Panic, s') \<Rightarrow> (Panic, s')
    | Some (Hang, s') \<Rightarrow> (Hang, s'))"

text \<open>\<open>for _, x := range xs\<close> with loop variables; \<open>Inr b\<close> leaves the loop.\<close>

fun foreach :: "('a \<Rightarrow> 'b \<Rightarrow> ('s, 'e, 'b + 'c) comp) \<Rightarrow> 'a list \<Rightarrow> 'b \<Rightarrow> ('s, 'e, 'b + 'c) comp" where
  "foreach f [] acc = ret (Inl acc)"
| "foreach f (x # xs) acc =
     bnd (f x acc) (\<lambda>r. case r of Inl acc' \<Rightarrow> foreach f xs acc' | Inr c \<Rightarrow> ret (Inr c))"

text \<open>The plain \<open>range\<close> loop.\<close>

fun fold_c :: "('a \<Rightarrow> 'b \<Rightarrow> ('s, 'e, 'b) comp) \<Rightarrow> 'a list \<Rightarrow> 'b \<Rightarrow> ('s, 'e, 'b) comp" where
  "fold_c f [] acc = ret acc"
| "fold_c f (x # xs) acc = bnd (f x acc) (fold_c f xs)"

text \<open>One result per element.\<close>

fun map_c :: "('a \<Rightarrow> ('s, 'e, 'b) comp) \<Rightarrow> 'a list \<Rightarrow> ('s, 'e, 'b list) comp" where
  "map_c f [] = ret []"
| "map_c f (x # xs) = bnd (f x) (\<lambda>y. bnd (map_c f xs) (\<lambda>ys. ret (y # ys)))"

lemma loop_going_simps [simp]:
  "loop_going (Ok (Inl a), s)" "\<not> loop_going (Ok (Inr b), s)" "\<not> loop_going (Err e, s)"
  "\<not> loop_going (Panic, s)" "\<not> loop_going (Hang, s)"
  by (simp_all add: loop_going_def)

lemma loop_step_simps [simp]: "loop_step body (Ok (Inl a), s) = body a s"
  by (simp add: loop_step_def)

lemma while_unfold_Inl:
  "while_option loop_going (loop_step body) (Ok (Inl a), s)
    = while_option loop_going (loop_step body) (body a s)"
  by (subst while_option_unfold) simp

lemma while_option_stopped: "\<not> b x \<Longrightarrow> while_option b c x = Some x"
  by (subst while_option_unfold) simp

lemma loop_Hang_state:
  "while_option loop_going (loop_step body) (Ok (Inl a), s) = None \<Longrightarrow>
    loop body a s = (Hang, s)"
  by (simp add: loop_def)

text \<open>The unfolding of a loop that returns (the state of a loop without end is not observed).\<close>

lemma loop_unfold:
  "loop body a s = (case body a s of
      (Ok (Inl a'), s') \<Rightarrow> (case loop body a' s' of (Hang, _) \<Rightarrow> (Hang, snd (loop body a s)) | r \<Rightarrow> r)
    | (Ok (Inr b), s') \<Rightarrow> (Ok b, s')
    | (Err e, s') \<Rightarrow> (Err e, s')
    | (Panic, s') \<Rightarrow> (Panic, s')
    | (Hang, s') \<Rightarrow> (Hang, s'))"
proof -
  obtain r s' where b: "body a s = (r, s')" by (cases "body a s") auto
  show ?thesis
  proof (cases r)
    case (Ok x)
    then show ?thesis
      using b while_unfold_Inl [of body a s]
      by (cases x; cases "while_option loop_going (loop_step body) (Ok x, s')")
        (auto simp: loop_def while_option_stopped split: prod.splits outcome.splits sum.splits)
  qed (use b while_unfold_Inl [of body a s] in \<open>simp_all add: loop_def while_option_stopped\<close>)
qed

lemma loop_next:
  "body a s = (Ok (Inl a'), s') \<Longrightarrow> fst (loop body a' s') \<noteq> Hang \<Longrightarrow>
    loop body a s = loop body a' s'"
  by (subst loop_unfold) (auto split: prod.splits outcome.splits)

lemma loop_done: "body a s = (Ok (Inr b), s') \<Longrightarrow> loop body a s = (Ok b, s')"
  by (subst loop_unfold) simp

lemma loop_err: "body a s = (Err e, s') \<Longrightarrow> loop body a s = (Err e, s')"
  by (subst loop_unfold) simp

lemma loop_panic: "body a s = (Panic, s') \<Longrightarrow> loop body a s = (Panic, s')"
  by (subst loop_unfold) simp

text \<open>A loop whose body decreases a measure under an invariant returns.\<close>

lemma loop_returns:
  assumes inv: "I a s"
    and step: "\<And>a s a' s'. I a s \<Longrightarrow> body a s = (Ok (Inl a'), s') \<Longrightarrow> I a' s' \<and> mu a' s' < (mu a s :: nat)"
    and nohang: "\<And>a s. I a s \<Longrightarrow> fst (body a s) \<noteq> Hang"
  shows "fst (loop body a s) \<noteq> Hang"
  using inv
proof (induction "mu a s" arbitrary: a s rule: less_induct)
  case less
  obtain r s' where b: "body a s = (r, s')" by (cases "body a s") auto
  show ?case
  proof (cases r)
    case (Ok x)
    show ?thesis
    proof (cases x)
      case (Inl a')
      with b Ok step [OF less.prems] have n: "I a' s'" "mu a' s' < mu a s" by auto
      then have "fst (loop body a' s') \<noteq> Hang" by (intro less.hyps)
      moreover from this have "loop body a s = loop body a' s'"
        using b Ok Inl by (intro loop_next) auto
      ultimately show ?thesis by simp
    next
      case (Inr y)
      with b Ok show ?thesis by (simp add: loop_done)
    qed
  next
    case (Err e)
    with b show ?thesis by (simp add: loop_err)
  next
    case Panic
    with b show ?thesis by (simp add: loop_panic)
  next
    case Hang
    with b nohang [OF less.prems] show ?thesis by simp
  qed
qed

section \<open>What a computation that returns a value establishes\<close>

definition yields :: "('s \<Rightarrow> bool) \<Rightarrow> ('s, 'e, 'a) comp \<Rightarrow> ('a \<Rightarrow> 's \<Rightarrow> bool) \<Rightarrow> bool" where
  "yields P m Q \<longleftrightarrow> (\<forall>s a t. P s \<longrightarrow> m s = (Ok a, t) \<longrightarrow> Q a t)"

lemma yieldsI: "(\<And>s a t. P s \<Longrightarrow> m s = (Ok a, t) \<Longrightarrow> Q a t) \<Longrightarrow> yields P m Q"
  by (simp add: yields_def)

lemma yieldsD: "yields P m Q \<Longrightarrow> P s \<Longrightarrow> m s = (Ok a, t) \<Longrightarrow> Q a t"
  by (simp add: yields_def)

lemma yields_bnd:
  "yields P m R \<Longrightarrow> (\<And>a. yields (R a) (f a) Q) \<Longrightarrow> yields P (bnd m f) Q"
  by (fastforce simp: yields_def bnd_Ok_iff)

text \<open>A loop: an invariant of the loop variables and the state, and a postcondition of the exits.\<close>

lemma loop_yields:
  fixes body :: "'a \<Rightarrow> ('s, 'e, 'a + 'b) comp"
  assumes body: "\<And>a s r t. I a s \<Longrightarrow> body a s = (Ok r, t) \<Longrightarrow>
      (case r of Inl a' \<Rightarrow> I a' t | Inr b \<Rightarrow> Q b t)"
    and start: "I a s" and ret: "loop body a s = (Ok b, t)"
  shows "Q b t"
proof -
  let ?P = "\<lambda>(r, s). case r of Ok (Inl a') \<Rightarrow> I a' s | Ok (Inr b) \<Rightarrow> Q b s | _ \<Rightarrow> True"
  from ret obtain x where w: "while_option loop_going (loop_step body) (Ok (Inl a), s) = Some x"
    by (auto simp: loop_def split: option.splits)
  have "?P x"
  proof (rule while_option_rule [OF _ w])
    fix y :: "('e, 'a + 'b) outcome \<times> 's"
    assume P: "?P y" and g: "loop_going y"
    from g obtain a' s' where y: "y = (Ok (Inl a'), s')"
      by (auto simp: loop_going_def split: prod.splits outcome.splits sum.splits)
    with P have "I a' s'" by simp
    then show "?P (loop_step body y)"
      using body [of a' s'] y
      by (auto split: prod.splits outcome.splits sum.splits)
  qed (use start in simp)
  with w ret show ?thesis
    by (auto simp: loop_def split: prod.splits outcome.splits sum.splits)
qed

lemma fold_c_yields:
  assumes start: "I acc s" and ret: "fold_c f xs acc s = (Ok b, t)"
    and body: "\<And>x acc s acc' t. x \<in> set xs \<Longrightarrow> I acc s \<Longrightarrow> f x acc s = (Ok acc', t) \<Longrightarrow> I acc' t"
  shows "I b t"
  using assms
proof (induction xs arbitrary: acc s)
  case (Cons x xs)
  from Cons.prems(2) obtain acc' s' where "f x acc s = (Ok acc', s')"
    and rest: "fold_c f xs acc' s' = (Ok b, t)"
    by (auto simp: bnd_Ok_iff)
  with Cons.prems(1) Cons.prems(3) [of x] have "I acc' s'" by auto
  then show ?case using rest Cons.prems(3) by (rule Cons.IH) auto
qed simp

text \<open>A property of the value alone, whatever the states are.\<close>

definition oks :: "('a \<Rightarrow> bool) \<Rightarrow> ('s, 'e, 'a) comp \<Rightarrow> bool" where
  "oks P m \<longleftrightarrow> (\<forall>s a t. m s = (Ok a, t) \<longrightarrow> P a)"

lemma oksD: "oks P m \<Longrightarrow> m s = (Ok a, t) \<Longrightarrow> P a"
  unfolding oks_def by blast

lemma oks_ret: "P a \<Longrightarrow> oks P (ret a)"
  by (simp add: oks_def)

lemma oks_fail: "oks P (fail e)" "oks P panic"
  by (simp_all add: oks_def)

lemma oks_bnd: "(\<And>a. oks P (f a)) \<Longrightarrow> oks P (bnd m f)"
  unfolding oks_def bnd_Ok_iff by blast

lemma oks_cases:
  "(b \<Longrightarrow> oks P m) \<Longrightarrow> (\<not> b \<Longrightarrow> oks P n) \<Longrightarrow> oks P (if b then m else n)"
  "(\<And>x. x = v \<Longrightarrow> oks P (f x)) \<Longrightarrow> oks P (let x = v in f x)"
  "(r = None \<Longrightarrow> oks P m) \<Longrightarrow> (\<And>x. r = Some x \<Longrightarrow> oks P (f x)) \<Longrightarrow>
    oks P (case r of None \<Rightarrow> m | Some x \<Rightarrow> f x)"
  "(\<And>x. u = Inl x \<Longrightarrow> oks P (f x)) \<Longrightarrow> (\<And>y. u = Inr y \<Longrightarrow> oks P (g y)) \<Longrightarrow>
    oks P (case u of Inl x \<Rightarrow> f x | Inr y \<Rightarrow> g y)"
  "(l = [] \<Longrightarrow> oks P m) \<Longrightarrow> (\<And>x xs. l = x # xs \<Longrightarrow> oks P (h x xs)) \<Longrightarrow>
    oks P (case l of [] \<Rightarrow> m | x # xs \<Rightarrow> h x xs)"
  "(\<And>x y. p = (x, y) \<Longrightarrow> oks P (k x y)) \<Longrightarrow> oks P (case p of (x, y) \<Rightarrow> k x y)"
  by (simp_all split: option.split sum.split list.split prod.split)

lemmas oks_intros = oks_bnd oks_ret oks_fail oks_cases

section \<open>Computations that return\<close>

text \<open>The outcome is a value, an error or a panic, never a loop without end.\<close>

definition returns :: "('s, 'e, 'a) comp \<Rightarrow> bool" where
  "returns m \<longleftrightarrow> (\<forall>s. fst (m s) \<noteq> Hang)"

lemma returnsD: "returns m \<Longrightarrow> fst (m s) \<noteq> Hang"
  by (simp add: returns_def)

lemma returns_basic: "returns (ret a)" "returns (fail e)" "returns panic" "returns (get_st g)" "returns (mod_st f)"
  "returns (guard_err b e)" "returns (lift_sum r)" "returns (lift_err x)" "returns (lift_panic p)"
  by (simp_all add: returns_def guard_err_def lift_sum_def lift_err_def lift_panic_def split: sum.split option.split)

lemma returns_bnd: "returns m \<Longrightarrow> (\<And>a. returns (f a)) \<Longrightarrow> returns (bnd m f)"
  by (auto simp: returns_def bnd_def split: prod.split outcome.split) (metis fst_conv)

text \<open>The same at one state.\<close>

lemma returns_at: "fst (m s) \<noteq> Hang \<Longrightarrow> (\<And>a s'. m s = (Ok a, s') \<Longrightarrow> fst (f a s') \<noteq> Hang) \<Longrightarrow>
    fst (bnd m f s) \<noteq> Hang"
  by (auto simp: bnd_def split: prod.split outcome.split)

lemma returns_attempt: "returns m \<Longrightarrow> returns (attempt m)"
  by (auto simp: returns_def attempt_def split: prod.split outcome.split) (metis fst_conv)

lemma returns_cases:
  "(b \<Longrightarrow> returns m) \<Longrightarrow> (\<not> b \<Longrightarrow> returns n) \<Longrightarrow> returns (if b then m else n)"
  "(\<And>x. x = v \<Longrightarrow> returns (f x)) \<Longrightarrow> returns (let x = v in f x)"
  "returns m \<Longrightarrow> (\<And>x. returns (f x)) \<Longrightarrow> returns (case r of None \<Rightarrow> m | Some x \<Rightarrow> f x)"
  "(\<And>x. returns (f x)) \<Longrightarrow> (\<And>y. returns (g y)) \<Longrightarrow> returns (case u of Inl x \<Rightarrow> f x | Inr y \<Rightarrow> g y)"
  "returns m \<Longrightarrow> (\<And>x xs. returns (h x xs)) \<Longrightarrow> returns (case l of [] \<Rightarrow> m | x # xs \<Rightarrow> h x xs)"
  "(\<And>x y. returns (k x y)) \<Longrightarrow> returns (case p of (x, y) \<Rightarrow> k x y)"
  by (simp_all split: option.split sum.split list.split prod.split)

lemma returns_foreach: "(\<And>x acc. returns (f x acc)) \<Longrightarrow> returns (foreach f xs acc)"
  by (induction xs arbitrary: acc) (auto intro!: returns_basic returns_bnd split: sum.split)

lemma returns_fold: "(\<And>x acc. returns (f x acc)) \<Longrightarrow> returns (fold_c f xs acc)"
  by (induction xs arbitrary: acc) (auto intro!: returns_basic returns_bnd)

lemma returns_map: "(\<And>x. returns (f x)) \<Longrightarrow> returns (map_c f xs)"
  by (induction xs) (auto intro!: returns_basic returns_bnd)

lemmas returns_intros = returns_basic returns_bnd returns_attempt returns_cases
  returns_foreach returns_fold returns_map

section \<open>Relations between the state before and after a method\<close>

definition evolves :: "('s \<Rightarrow> 's \<Rightarrow> bool) \<Rightarrow> ('s, 'e, 'a) comp \<Rightarrow> bool" where
  "evolves R m \<longleftrightarrow> (\<forall>s. R s (snd (m s)))"

lemma evolvesD: "evolves R m \<Longrightarrow> m s = (r, t) \<Longrightarrow> R s t"
  by (metis evolves_def snd_conv)

lemma evolvesI: "(\<And>s r t. m s = (r, t) \<Longrightarrow> R s t) \<Longrightarrow> evolves R m"
  by (metis evolves_def prod.collapse)

text \<open>
  The interface of such a relation: it is reflexive and transitive. The clients are the
  components whose methods only ever move their state up in it; every combinator keeps it.
\<close>

locale state_order =
  fixes le :: "'s \<Rightarrow> 's \<Rightarrow> bool"
  assumes le_refl: "le s s"
    and le_trans: "le s t \<Longrightarrow> le t u \<Longrightarrow> le s u"
begin

lemma ev_ret: "evolves le (ret a)"
  by (simp add: evolves_def le_refl)

lemma ev_fail: "evolves le (fail e)"
  by (simp add: evolves_def le_refl)

lemma ev_panic: "evolves le panic"
  by (simp add: evolves_def le_refl)

lemma ev_get: "evolves le (get_st f)"
  by (simp add: evolves_def le_refl)

lemma ev_mod: "(\<And>s. le s (f s)) \<Longrightarrow> evolves le (mod_st f)"
  by (simp add: evolves_def)

lemma ev_guard: "evolves le (guard_err b e)"
  by (simp add: guard_err_def ev_ret ev_fail)

lemma ev_sum: "evolves le (lift_sum r)"
  by (simp add: lift_sum_def ev_ret ev_fail split: sum.split)

lemma ev_err: "evolves le (lift_err r)"
  by (simp add: lift_err_def ev_ret ev_fail split: option.split)

lemma ev_lift_panic: "evolves le (lift_panic r)"
  by (simp add: lift_panic_def ev_ret ev_panic split: option.split)

lemma ev_bnd:
  assumes "evolves le m" and "\<And>a. evolves le (f a)"
  shows "evolves le (bnd m f)"
proof (rule evolvesI)
  fix s r t
  assume *: "bnd m f s = (r, t)"
  obtain r' s' where m: "m s = (r', s')" by (cases "m s") auto
  then have 1: "le s s'" using assms(1) by (rule evolvesD [rotated])
  show "le s t"
  proof (cases r')
    case (Ok a)
    with * m have "f a s' = (r, t)" by (simp add: bnd_def)
    then have "le s' t" using assms(2) by (rule evolvesD [rotated])
    with 1 show ?thesis by (rule le_trans)
  qed (use * m 1 in \<open>auto simp: bnd_def\<close>)
qed

lemma ev_attempt: "evolves le m \<Longrightarrow> evolves le (attempt m)"
  by (auto simp: evolves_def attempt_def split: prod.split outcome.split) (metis snd_conv)+

lemma ev_if: "(b \<Longrightarrow> evolves le m) \<Longrightarrow> (\<not> b \<Longrightarrow> evolves le n) \<Longrightarrow> evolves le (if b then m else n)"
  by simp

lemma ev_let: "(\<And>x. x = v \<Longrightarrow> evolves le (f x)) \<Longrightarrow> evolves le (let x = v in f x)"
  by simp

lemma ev_option: "evolves le m \<Longrightarrow> (\<And>x. evolves le (f x)) \<Longrightarrow>
    evolves le (case r of None \<Rightarrow> m | Some x \<Rightarrow> f x)"
  by (simp split: option.split)

lemma ev_case_sum: "(\<And>x. evolves le (f x)) \<Longrightarrow> (\<And>x. evolves le (g x)) \<Longrightarrow>
    evolves le (case r of Inl x \<Rightarrow> f x | Inr x \<Rightarrow> g x)"
  by (simp split: sum.split)

lemma ev_list: "evolves le m \<Longrightarrow> (\<And>x xs. evolves le (f x xs)) \<Longrightarrow>
    evolves le (case l of [] \<Rightarrow> m | x # xs \<Rightarrow> f x xs)"
  by (simp split: list.split)

lemma ev_prod: "(\<And>x y. evolves le (f x y)) \<Longrightarrow> evolves le (case p of (x, y) \<Rightarrow> f x y)"
  by (simp split: prod.split)

lemma ev_loop:
  fixes body :: "'x \<Rightarrow> ('s, 'e, 'x + 'y) comp"
  assumes "\<And>a. evolves le (body a)"
  shows "evolves le (loop body a)"
proof (rule evolvesI)
  fix s r t
  assume *: "loop body a s = (r, t)"
  show "le s t"
  proof (cases "while_option loop_going (loop_step body) (Ok (Inl a), s)")
    case None
    with * show ?thesis by (simp add: loop_def le_refl)
  next
    case (Some x)
    have "le s (snd x)"
    proof (rule while_option_rule [OF _ Some, where P = "\<lambda>x. le s (snd x)"])
      fix y :: "('e, 'x + 'y) outcome \<times> 's"
      assume "le s (snd y)" and "loop_going y"
      then show "le s (snd (loop_step body y))"
        using assms by (auto simp: loop_step_def evolves_def intro: le_trans
            split: prod.splits outcome.splits sum.splits)
    qed (simp add: le_refl)
    with Some * show ?thesis
      by (auto simp: loop_def split: prod.splits outcome.splits sum.splits)
  qed
qed

lemma ev_foreach: "(\<And>x acc. evolves le (f x acc)) \<Longrightarrow> evolves le (foreach f xs acc)"
  by (induction xs arbitrary: acc) (auto intro!: ev_ret ev_bnd split: sum.split)

lemma ev_fold: "(\<And>x acc. evolves le (f x acc)) \<Longrightarrow> evolves le (fold_c f xs acc)"
  by (induction xs arbitrary: acc) (auto intro!: ev_ret ev_bnd)

lemma ev_map: "(\<And>x. evolves le (f x)) \<Longrightarrow> evolves le (map_c f xs)"
  by (induction xs) (auto intro!: ev_ret ev_bnd)

lemmas ev_intros = ev_ret ev_fail ev_panic ev_get ev_guard ev_sum ev_err ev_lift_panic ev_bnd
  ev_attempt ev_if ev_let ev_option ev_case_sum ev_list ev_prod ev_loop ev_foreach ev_fold ev_map

end

end
