(* ===== verification/Go_Lib.thy ===== *)
theory Go_Lib
  imports Prelude
begin

text \<open>
  The pieces of Go's standard library the sources use on strings and slices. A Go string is a
  sequence of bytes, so it is a HOL \<open>string\<close>; ranging over it decodes UTF-8 (package
  \<open>unicode/utf8\<close>), and the validators of the daemon see runes, not bytes.
\<close>

section \<open>Runes\<close>

definition rune_error :: nat where
  "rune_error = 65533"

definition byte_of :: "char \<Rightarrow> nat" where
  "byte_of c = of_char c"

text \<open>\<open>lo <= c && c <= hi\<close>\<close>

definition char_between :: "char \<Rightarrow> char \<Rightarrow> char \<Rightarrow> bool" where
  "char_between lo hi c \<longleftrightarrow> byte_of lo \<le> byte_of c \<and> byte_of c \<le> byte_of hi"

definition cont_byte :: "nat \<Rightarrow> bool" where
  "cont_byte b \<longleftrightarrow> 128 \<le> b \<and> b \<le> 191"

text \<open>\<open>utf8.DecodeRune\<close> on the bytes of a non-empty string: the rune and its width.\<close>

fun decode_bytes :: "nat list \<Rightarrow> nat \<times> nat" where
  "decode_bytes [] = (rune_error, 0)"
| "decode_bytes (b0 # r) =
    (if b0 < 128 then (b0, 1)
     else if 194 \<le> b0 \<and> b0 \<le> 223 then
       (case r of b1 # _ \<Rightarrow>
          if cont_byte b1 then ((b0 - 192) * 64 + (b1 - 128), 2) else (rune_error, 1)
        | [] \<Rightarrow> (rune_error, 1))
     else if 224 \<le> b0 \<and> b0 \<le> 239 then
       (case r of b1 # b2 # _ \<Rightarrow>
          if cont_byte b1 \<and> (b0 = 224 \<longrightarrow> 160 \<le> b1) \<and> (b0 = 237 \<longrightarrow> b1 \<le> 159) \<and> cont_byte b2
          then ((b0 - 224) * 4096 + (b1 - 128) * 64 + (b2 - 128), 3) else (rune_error, 1)
        | _ \<Rightarrow> (rune_error, 1))
     else if 240 \<le> b0 \<and> b0 \<le> 244 then
       (case r of b1 # b2 # b3 # _ \<Rightarrow>
          if cont_byte b1 \<and> (b0 = 240 \<longrightarrow> 144 \<le> b1) \<and> (b0 = 244 \<longrightarrow> b1 \<le> 143)
            \<and> cont_byte b2 \<and> cont_byte b3
          then ((b0 - 240) * 262144 + (b1 - 128) * 4096 + (b2 - 128) * 64 + (b3 - 128), 4)
          else (rune_error, 1)
        | _ \<Rightarrow> (rune_error, 1))
     else (rune_error, 1))"

definition decode_rune :: "string \<Rightarrow> nat \<times> nat" where
  "decode_rune s = decode_bytes (map byte_of (take 4 s))"

text \<open>The runes a \<open>range\<close> loop visits, each with the bytes it came from.\<close>

function segments :: "string \<Rightarrow> (nat \<times> string) list" where
  "segments [] = []"
| "segments (c # cs) =
     (let (r, w) = decode_rune (c # cs)
      in (r, take (max 1 w) (c # cs)) # segments (drop (max 1 w) (c # cs)))"
  by pat_completeness auto
termination
  by (relation "measure length") auto

declare segments.simps(2) [simp del]

definition runes :: "string \<Rightarrow> nat list" where
  "runes s = map fst (segments s)"

lemma decode_ascii: "byte_of c < 128 \<Longrightarrow> decode_rune (c # cs) = (byte_of c, 1)"
  by (simp add: decode_rune_def)

lemma fst_if_ge:
  "(P \<Longrightarrow> n \<le> x) \<Longrightarrow> n \<le> rune_error \<Longrightarrow> n \<le> fst (if P then (x, k) else (rune_error, l))"
  by simp

lemma decode_bytes_high:
  assumes "\<not> b0 < 128"
  shows "128 \<le> fst (decode_bytes (b0 # r))"
proof -
  have e: "128 \<le> rune_error" by (simp add: rune_error_def)
  have two: "128 \<le> (b0 - 192) * 64 + (b1 - 128)" if "194 \<le> b0" for b1
    using that by arith
  have three: "128 \<le> (b0 - 224) * 4096 + (b1 - 128) * 64 + (b2 - 128)"
    if "224 \<le> b0" "b0 = 224 \<longrightarrow> 160 \<le> b1" for b1 b2
    using that by (cases "b0 = 224") arith+
  have four: "128 \<le> (b0 - 240) * 262144 + (b1 - 128) * 4096 + (b2 - 128) * 64 + (b3 - 128)"
    if "240 \<le> b0" "b0 = 240 \<longrightarrow> 144 \<le> b1" for b1 b2 b3
    using that by (cases "b0 = 240") arith+
  show ?thesis
    unfolding decode_bytes.simps using assms e
    by (simp del: fst_conv split: list.split) (auto intro!: fst_if_ge two three four)
qed

lemma decode_high: "\<not> byte_of c < 128 \<Longrightarrow> 128 \<le> fst (decode_rune (c # cs))"
  unfolding decode_rune_def using decode_bytes_high [of "byte_of c"] by simp

text \<open>A predicate that holds of ASCII runes only can be read off the bytes.\<close>

lemma runes_ascii:
  assumes ascii: "\<And>r. P r \<Longrightarrow> r < 128"
  shows "list_all P (runes s) \<longleftrightarrow> list_all (\<lambda>c. P (byte_of c)) s"
proof (induction "length s" arbitrary: s rule: less_induct)
  case less
  show ?case
  proof (cases s)
    case (Cons c cs)
    show ?thesis
    proof (cases "byte_of c < 128")
      case True
      with Cons less [of cs] show ?thesis
        by (simp add: runes_def segments.simps decode_ascii)
    next
      case False
      then have "\<not> P (fst (decode_rune (c # cs)))"
        using decode_high [of c cs] ascii by (meson not_less)
      moreover from False have "\<not> P (byte_of c)" using ascii by blast
      ultimately show ?thesis
        using Cons by (cases "decode_rune (c # cs)") (simp add: runes_def segments.simps)
    qed
  qed (simp add: runes_def)
qed

section \<open>Strings\<close>

text \<open>\<open>unicode.IsSpace\<close>\<close>

definition is_space :: "nat \<Rightarrow> bool" where
  "is_space r \<longleftrightarrow> (9 \<le> r \<and> r \<le> 13) \<or> r = 32 \<or> r = 133 \<or> r = 160 \<or> r = 5760 \<or>
     (8192 \<le> r \<and> r \<le> 8202) \<or> r = 8232 \<or> r = 8233 \<or> r = 8239 \<or> r = 8287 \<or> r = 12288"

text \<open>\<open>strings.TrimSpace\<close>: UTF-8 is self-synchronising, so dropping the trailing runes of the
  forward decoding is what decoding from the end drops.\<close>

definition trim_space :: "string \<Rightarrow> string" where
  "trim_space s = concat (map snd (rev (dropWhile (is_space \<circ> fst)
     (rev (dropWhile (is_space \<circ> fst) (segments s))))))"

definition trim_prefix :: "string \<Rightarrow> string \<Rightarrow> string" where
  "trim_prefix p s = (if take (length p) s = p then drop (length p) s else s)"

text \<open>\<open>strings.Split(s, sep)\<close> for a one-byte separator.\<close>

fun split_on :: "char \<Rightarrow> string \<Rightarrow> string list" where
  "split_on c [] = [[]]"
| "split_on c (x # xs) =
     (if x = c then [] # split_on c xs
      else case split_on c xs of [] \<Rightarrow> [[x]] | y # ys \<Rightarrow> (x # y) # ys)"

text \<open>
  \<open>strings.ToLower\<close> on ASCII. The sources only ask whether a 64-byte string equals its
  lower-case form before decoding it as hexadecimal; a string with other bytes fails one of the
  two tests, with the same error.
\<close>

definition lower_char :: "char \<Rightarrow> char" where
  "lower_char c = (if 65 \<le> byte_of c \<and> byte_of c \<le> 90 then char_of (byte_of c + 32) else c)"

definition to_lower :: "string \<Rightarrow> string" where
  "to_lower s = map lower_char s"

section \<open>Numbers\<close>

definition is_digit :: "char \<Rightarrow> bool" where
  "is_digit c \<longleftrightarrow> 48 \<le> byte_of c \<and> byte_of c \<le> 57"

definition digits_value :: "string \<Rightarrow> nat" where
  "digits_value s = foldl (\<lambda>acc c. acc * 10 + (byte_of c - 48)) 0 s"

text \<open>\<open>strconv.ParseUint(s, 10, bits)\<close>\<close>

definition parse_uint :: "nat \<Rightarrow> string \<Rightarrow> nat option" where
  "parse_uint bits s =
     (if s = [] \<or> \<not> list_all is_digit s \<or> 2 ^ bits \<le> digits_value s then None
      else Some (digits_value s))"

text \<open>\<open>strconv.Atoi\<close> with 64-bit ints.\<close>

definition atoi :: "string \<Rightarrow> int option" where
  "atoi s =
     (let neg = (s \<noteq> [] \<and> hd s = CHR ''-'');
          ds = (if s \<noteq> [] \<and> (hd s = CHR ''-'' \<or> hd s = CHR ''+'') then tl s else s);
          v = (if neg then - int (digits_value ds) else int (digits_value ds))
      in if ds = [] \<or> \<not> list_all is_digit ds \<or> v < - (2 ^ 63) \<or> 2 ^ 63 \<le> v then None else Some v)"

text \<open>\<open>binary.BigEndian.PutUint64\<close>\<close>

definition be_bytes :: "u64 \<Rightarrow> bytes" where
  "be_bytes w = map (\<lambda>i. ucast (drop_bit (8 * i) w)) [7, 6, 5, 4, 3, 2, 1, 0]"

lemma length_be_bytes [simp]: "length (be_bytes w) = 8"
  by (simp add: be_bytes_def)

lemma be_bytes_nth: "i < 8 \<Longrightarrow> be_bytes w ! (7 - i) = ucast (drop_bit (8 * i) w)"
  by (auto simp: be_bytes_def less_Suc_eq numeral_eq_Suc)

lemma be_bytes_bit: "n < 64 \<Longrightarrow> bit (be_bytes w ! (7 - n div 8)) (n mod 8) = bit w n"
  by (simp add: be_bytes_nth bit_simps less_mult_imp_div_less)

lemma be_bytes_inj: "be_bytes v = be_bytes w \<longleftrightarrow> v = w"
proof
  assume "be_bytes v = be_bytes w"
  then have "bit v n = bit w n" if "n < 64" for n
    using that be_bytes_bit [of n v] be_bytes_bit [of n w] by simp
  then show "v = w" by (intro bit_word_eqI) simp
qed simp

text \<open>The bytes of a string, \<open>[]byte(s)\<close>.\<close>

definition string_bytes :: "string \<Rightarrow> bytes" where
  "string_bytes s = map (\<lambda>c. of_nat (byte_of c)) s"

lemma byte_of_less: "byte_of c < 256"
  by (simp add: byte_of_def)

lemma byte_of_inj: "byte_of c = byte_of d \<longleftrightarrow> c = d"
  by (simp add: byte_of_def)

lemma string_bytes_inj: "string_bytes s = string_bytes t \<longleftrightarrow> s = t"
proof -
  have "inj (\<lambda>c. of_nat (byte_of c) :: u8)"
  proof (rule injI)
    fix c d
    assume "(of_nat (byte_of c) :: u8) = of_nat (byte_of d)"
    then have "unat (of_nat (byte_of c) :: u8) = unat (of_nat (byte_of d) :: u8)" by simp
    then show "c = d"
      using byte_of_less [of c] byte_of_less [of d] byte_of_inj [of c d]
      by (simp add: unat_of_nat)
  qed
  then show ?thesis by (simp add: string_bytes_def inj_map_eq_map)
qed

lemma length_string_bytes [simp]: "length (string_bytes s) = length s"
  by (simp add: string_bytes_def)

end
