(* ===== verification/Go_Crypto.thy ===== *)
theory Go_Crypto
  imports Go_Lib
begin

text \<open>
  The hash functions of Go's standard library the sources use: \<open>crypto/sha256\<close> (the hash lock
  of a swap), \<open>crypto/sha512\<close> and \<open>crypto/hmac\<close> (key derivation), as FIPS 180-4 and RFC 2104
  define them, and \<open>encoding/hex\<close>.
\<close>

section \<open>SHA-2\<close>

definition rotr :: "nat \<Rightarrow> 'a::len word \<Rightarrow> 'a word" where
  "rotr n w = drop_bit n w OR push_bit (LENGTH('a) - n) w"

definition be_join :: "bytes \<Rightarrow> 'a::len word" where
  "be_join bs = foldl (\<lambda>acc b. push_bit 8 acc OR ucast b) 0 bs"

definition be_split :: "nat \<Rightarrow> 'a::len word \<Rightarrow> bytes" where
  "be_split n w = map (\<lambda>i. ucast (drop_bit (8 * i) w)) (rev [0..<n])"

function chunks :: "nat \<Rightarrow> 'a list \<Rightarrow> 'a list list" where
  "chunks n xs = (if n = 0 \<or> xs = [] then [] else take n xs # chunks n (drop n xs))"
  by pat_completeness auto
termination
  by (relation "measure (length \<circ> snd)") auto

declare chunks.simps [simp del]

definition chooser :: "'a::len word \<Rightarrow> 'a word \<Rightarrow> 'a word \<Rightarrow> 'a word" where
  "chooser e f g = (e AND f) XOR (NOT e AND g)"

definition majority :: "'a::len word \<Rightarrow> 'a word \<Rightarrow> 'a word \<Rightarrow> 'a word" where
  "majority a b c = (a AND b) XOR (a AND c) XOR (b AND c)"

text \<open>The message schedule: a sliding window of sixteen words.\<close>

fun schedule :: "('a::len word \<Rightarrow> 'a word) \<Rightarrow> ('a word \<Rightarrow> 'a word) \<Rightarrow> nat \<Rightarrow> 'a word list \<Rightarrow> 'a word list" where
  "schedule s0 s1 0 ws = []"
| "schedule s0 s1 (Suc n) ws =
     hd ws # schedule s0 s1 n (tl ws @ [s1 (ws ! 14) + ws ! 9 + s0 (ws ! 1) + hd ws])"

text \<open>The rounds over the eight working variables.\<close>

fun rounds :: "('a::len word \<Rightarrow> 'a word) \<Rightarrow> ('a word \<Rightarrow> 'a word) \<Rightarrow> ('a word \<times> 'a word) list \<Rightarrow>
    'a word list \<Rightarrow> 'a word list" where
  "rounds S0 S1 [] v = v"
| "rounds S0 S1 ((k, w) # r) v =
     (let a = v ! 0; b = v ! 1; c = v ! 2; d = v ! 3; e = v ! 4; f = v ! 5; g = v ! 6; h = v ! 7;
          t1 = h + S1 e + chooser e f g + k + w;
          t2 = S0 a + majority a b c
      in rounds S0 S1 r [t1 + t2, a, b, c, d + t1, e, f, g])"

definition pad :: "nat \<Rightarrow> nat \<Rightarrow> bytes \<Rightarrow> bytes" where
  "pad block lenbytes m =
     (let l = length m + 1 + lenbytes;
          z = (block - l mod block) mod block
      in m @ [0x80] @ replicate (z + lenbytes - 8) 0 @ be_bytes (of_nat (8 * length m)))"

definition k512 :: "64 word list" where
  "k512 = [
    4794697086780616226, 8158064640168781261, 13096744586834688815, 16840607885511220156,
    4131703408338449720, 6480981068601479193, 10538285296894168987, 12329834152419229976,
    15566598209576043074, 1334009975649890238, 2608012711638119052, 6128411473006802146,
    8268148722764581231, 9286055187155687089, 11230858885718282805, 13951009754708518548,
    16472876342353939154, 17275323862435702243, 1135362057144423861, 2597628984639134821,
    3308224258029322869, 5365058923640841347, 6679025012923562964, 8573033837759648693,
    10970295158949994411, 12119686244451234320, 12683024718118986047, 13788192230050041572,
    14330467153632333762, 15395433587784984357, 489312712824947311, 1452737877330783856,
    2861767655752347644, 3322285676063803686, 5560940570517711597, 5996557281743188959,
    7280758554555802590, 8532644243296465576, 9350256976987008742, 10552545826968843579,
    11727347734174303076, 12113106623233404929, 14000437183269869457, 14369950271660146224,
    15101387698204529176, 15463397548674623760, 17586052441742319658, 1182934255886127544,
    1847814050463011016, 2177327727835720531, 2830643537854262169, 3796741975233480872,
    4115178125766777443, 5681478168544905931, 6601373596472566643, 7507060721942968483,
    8399075790359081724, 8693463985226723168, 9568029438360202098, 10144078919501101548,
    10430055236837252648, 11840083180663258601, 13761210420658862357, 14299343276471374635,
    14566680578165727644, 15097957966210449927, 16922976911328602910, 17689382322260857208,
    500013540394364858, 748580250866718886, 1242879168328830382, 1977374033974150939,
    2944078676154940804, 3659926193048069267, 4368137639120453308, 4836135668995329356,
    5532061633213252278, 6448918945643986474, 6902733635092675308, 7801388544844847127]"

definition h512 :: "64 word list" where
  "h512 = [
    7640891576956012808, 13503953896175478587, 4354685564936845355, 11912009170470909681,
    5840696475078001361, 11170449401992604703, 2270897969802886507, 6620516959819538809]"

definition k256 :: "32 word list" where
  "k256 = [
    1116352408, 1899447441, 3049323471, 3921009573,
    961987163, 1508970993, 2453635748, 2870763221,
    3624381080, 310598401, 607225278, 1426881987,
    1925078388, 2162078206, 2614888103, 3248222580,
    3835390401, 4022224774, 264347078, 604807628,
    770255983, 1249150122, 1555081692, 1996064986,
    2554220882, 2821834349, 2952996808, 3210313671,
    3336571891, 3584528711, 113926993, 338241895,
    666307205, 773529912, 1294757372, 1396182291,
    1695183700, 1986661051, 2177026350, 2456956037,
    2730485921, 2820302411, 3259730800, 3345764771,
    3516065817, 3600352804, 4094571909, 275423344,
    430227734, 506948616, 659060556, 883997877,
    958139571, 1322822218, 1537002063, 1747873779,
    1955562222, 2024104815, 2227730452, 2361852424,
    2428436474, 2756734187, 3204031479, 3329325298]"

definition h256 :: "32 word list" where
  "h256 = [
    1779033703, 3144134277, 1013904242, 2773480762,
    1359893119, 2600822924, 528734635, 1541459225]"

definition compress512 :: "64 word list \<Rightarrow> bytes \<Rightarrow> 64 word list" where
  "compress512 v block =
     map2 (+) v (rounds
       (\<lambda>x. rotr 28 x XOR rotr 34 x XOR rotr 39 x) (\<lambda>x. rotr 14 x XOR rotr 18 x XOR rotr 41 x)
       (zip k512 (schedule
         (\<lambda>x. rotr 1 x XOR rotr 8 x XOR drop_bit 7 x) (\<lambda>x. rotr 19 x XOR rotr 61 x XOR drop_bit 6 x)
         80 (map be_join (chunks 8 block)))) v)"

definition compress256 :: "32 word list \<Rightarrow> bytes \<Rightarrow> 32 word list" where
  "compress256 v block =
     map2 (+) v (rounds
       (\<lambda>x. rotr 2 x XOR rotr 13 x XOR rotr 22 x) (\<lambda>x. rotr 6 x XOR rotr 11 x XOR rotr 25 x)
       (zip k256 (schedule
         (\<lambda>x. rotr 7 x XOR rotr 18 x XOR drop_bit 3 x) (\<lambda>x. rotr 17 x XOR rotr 19 x XOR drop_bit 10 x)
         64 (map be_join (chunks 4 block)))) v)"

definition sha512 :: "bytes \<Rightarrow> bytes" where
  "sha512 m = concat (map (be_split 8) (foldl compress512 h512 (chunks 128 (pad 128 16 m))))"

definition sha256 :: "bytes \<Rightarrow> bytes" where
  "sha256 m = concat (map (be_split 4) (foldl compress256 h256 (chunks 64 (pad 64 8 m))))"

section \<open>HMAC\<close>

definition hmac_key :: "bytes \<Rightarrow> bytes" where
  "hmac_key key = (let k = (if 128 < length key then sha512 key else key)
     in k @ replicate (128 - length k) 0)"

definition hmac_sha512 :: "bytes \<Rightarrow> bytes \<Rightarrow> bytes" where
  "hmac_sha512 key msg =
     sha512 (map (\<lambda>b. b XOR 0x5c) (hmac_key key) @ sha512 (map (\<lambda>b. b XOR 0x36) (hmac_key key) @ msg))"

section \<open>Lengths\<close>

lemma length_rounds: "length v = 8 \<Longrightarrow> length (rounds S0 S1 ks v) = 8"
  by (induction S0 S1 ks v rule: rounds.induct) (simp_all add: Let_def)

lemma length_compress512: "length v = 8 \<Longrightarrow> length (compress512 v b) = 8"
  by (simp add: compress512_def length_rounds)

lemma length_compress256: "length v = 8 \<Longrightarrow> length (compress256 v b) = 8"
  by (simp add: compress256_def length_rounds)

lemma length_foldl_keep:
  "(\<And>v b. length v = n \<Longrightarrow> length (f v b) = n) \<Longrightarrow> length v = n \<Longrightarrow> length (foldl f v bs) = n"
  by (induction bs arbitrary: v) simp_all

lemma length_be_split [simp]: "length (be_split n w) = n"
  by (simp add: be_split_def)

lemma length_concat_split: "length (concat (map (be_split n) ws)) = n * length ws"
  by (induction ws) simp_all

lemma length_sha512 [simp]: "length (sha512 m) = 64"
  unfolding sha512_def length_concat_split
  by (subst length_foldl_keep [where n = 8]) (simp_all add: length_compress512 h512_def)

lemma length_sha256 [simp]: "length (sha256 m) = 32"
  unfolding sha256_def length_concat_split
  by (subst length_foldl_keep [where n = 8]) (simp_all add: length_compress256 h256_def)

lemma length_hmac_sha512 [simp]: "length (hmac_sha512 key msg) = 64"
  by (simp add: hmac_sha512_def)

section \<open>Hexadecimal\<close>

definition hex_digit :: "nat \<Rightarrow> char" where
  "hex_digit n = (if n < 10 then char_of (48 + n) else char_of (87 + n))"

definition hex_encode :: "bytes \<Rightarrow> string" where
  "hex_encode bs = concat (map (\<lambda>b. [hex_digit (unat b div 16), hex_digit (unat b mod 16)]) bs)"

definition hex_value :: "char \<Rightarrow> nat option" where
  "hex_value c = (let b = byte_of c in
     if 48 \<le> b \<and> b \<le> 57 then Some (b - 48)
     else if 97 \<le> b \<and> b \<le> 102 then Some (b - 87)
     else if 65 \<le> b \<and> b \<le> 70 then Some (b - 55) else None)"

text \<open>\<open>hex.DecodeString\<close>: digits of either case, an even number of them.\<close>

fun hex_decode :: "string \<Rightarrow> bytes option" where
  "hex_decode [] = Some []"
| "hex_decode [c] = None"
| "hex_decode (c # d # s) =
     (case (hex_value c, hex_value d, hex_decode s) of
        (Some h, Some l, Some bs) \<Rightarrow> Some (of_nat (16 * h + l) # bs)
      | _ \<Rightarrow> None)"

lemma hex_digit_cases:
  assumes "n < 16"
  shows "hex_value (hex_digit n) = Some n" and "lower_char (hex_digit n) = hex_digit n"
  using assms by (auto simp: hex_value_def hex_digit_def lower_char_def byte_of_def Let_def)

lemma nibbles: "16 * (unat (b :: u8) div 16) + unat b mod 16 = unat b"
  by simp

lemma unat_u8_less: "unat (b :: u8) < 256"
  using unsigned_less [of b] by simp

lemma nibble_less [simp]: "unat (b :: u8) div 16 < 16"
  using unat_u8_less [of b] by simp

lemma hex_encode_simps [simp]:
  "hex_encode [] = []"
  "hex_encode (b # bs) = hex_digit (unat b div 16) # hex_digit (unat b mod 16) # hex_encode bs"
  by (simp_all add: hex_encode_def)

lemma length_hex_encode [simp]: "length (hex_encode bs) = 2 * length bs"
  by (induction bs) simp_all

lemma hex_roundtrip [simp]: "hex_decode (hex_encode bs) = Some bs"
  by (induction bs) (simp_all add: hex_digit_cases nibbles)

lemma hex_encode_inj [simp]: "hex_encode a = hex_encode b \<longleftrightarrow> a = b"
  by (metis hex_roundtrip option.inject)

lemma to_lower_hex_encode [simp]: "to_lower (hex_encode bs) = hex_encode bs"
  by (induction bs) (simp_all add: to_lower_def hex_digit_cases)

lemma hex_value_lower:
  assumes "hex_value c = Some v" and "lower_char c = c"
  shows "v < 16 \<and> hex_digit v = c"
proof -
  let ?b = "byte_of c"
  have c: "c = char_of ?b" by (simp add: byte_of_def)
  have low: "\<not> (65 \<le> ?b \<and> ?b \<le> 90)"
  proof
    assume *: "65 \<le> ?b \<and> ?b \<le> 90"
    then have "byte_of (lower_char c) = ?b + 32"
      by (simp add: lower_char_def byte_of_def)
    with assms(2) show False by simp
  qed
  with assms(1) have "v < 16 \<and> hex_digit v = char_of ?b"
    by (auto simp: hex_value_def hex_digit_def Let_def split: if_splits)
  with c show ?thesis by simp
qed

lemma hex_decode_lower:
  "hex_decode s = Some bs \<Longrightarrow> to_lower s = s \<Longrightarrow> hex_encode bs = s"
proof (induction s arbitrary: bs rule: hex_decode.induct)
  case (3 c d s)
  then obtain h l bs' where *: "hex_value c = Some h" "hex_value d = Some l"
    "hex_decode s = Some bs'" "bs = of_nat (16 * h + l) # bs'"
    by (auto split: option.splits)
  from "3.prems"(2) have low: "lower_char c = c" "lower_char d = d" "to_lower s = s"
    by (simp_all add: to_lower_def)
  from * low have h: "h < 16" "hex_digit h = c" and l: "l < 16" "hex_digit l = d"
    using hex_value_lower by blast+
  have "unat (of_nat (16 * h + l) :: u8) = 16 * h + l"
    using h l by (simp add: unat_of_nat del: of_nat_add of_nat_mult)
  with h l have "hex_encode bs = c # d # hex_encode bs'"
    using *(4) by (simp del: of_nat_add of_nat_mult)
  moreover have "hex_encode bs' = s" using *(3) low(3) by (rule "3.IH")
  ultimately show ?case by simp
qed simp_all

lemma hex_decode_length: "hex_decode s = Some bs \<Longrightarrow> length s = 2 * length bs"
  by (induction s arbitrary: bs rule: hex_decode.induct) (auto split: option.splits)

end
