(* ===== verification/Derive.thy ===== *)
theory Derive
  imports Go_Crypto
begin

text \<open>
  \<open>internal/derive/derive.go\<close>: the child seeds of a wallet's master seed. A seed is the first
  half of an HMAC-SHA512 keyed with the master seed; custody children and swap sessions use
  two message formats. The lemmas show that no two messages are the same, within a format or
  across them, so that two seeds agree only where HMAC-SHA512 itself collides.
\<close>

definition child_domain :: string where
  "child_domain = ''QDAY/walletd/child/v1''"

definition swap_domain :: string where
  "swap_domain = ''QDAY/walletd/swap/v1''"

text \<open>What \<open>mac.Write\<close> has been given when \<open>mac.Sum\<close> is called.\<close>

definition seed_message :: "u64 \<Rightarrow> bytes" where
  "seed_message index = string_bytes child_domain @ be_bytes index"

definition derive_seed :: "bytes \<Rightarrow> u64 \<Rightarrow> bytes" where
  "derive_seed mst index = take 32 (hmac_sha512 mst (seed_message index))"

definition swap_message :: "string \<Rightarrow> bytes" where
  "swap_message swap_id =
     string_bytes swap_domain @ be_bytes (of_nat (length swap_id)) @ string_bytes swap_id"

definition derive_swap_seed :: "bytes \<Rightarrow> string \<Rightarrow> bytes" where
  "derive_swap_seed mst swap_id = take 32 (hmac_sha512 mst (swap_message swap_id))"

section \<open>The messages are unambiguous\<close>

lemma length_seeds [simp]:
  "length (derive_seed mst i) = 32" "length (derive_swap_seed mst s) = 32"
  by (simp_all add: derive_seed_def derive_swap_seed_def)

lemma seed_message_inj: "seed_message i = seed_message j \<longleftrightarrow> i = j"
  by (simp add: seed_message_def be_bytes_inj)

lemma swap_message_inj: "swap_message s = swap_message t \<longleftrightarrow> s = t"
  by (auto simp: swap_message_def string_bytes_inj)

text \<open>The domains differ at their fourteenth byte.\<close>

lemma domain_separation: "seed_message i \<noteq> swap_message s"
proof
  assume "seed_message i = swap_message s"
  then have "take 14 (seed_message i) = take 14 (swap_message s)" by simp
  then show False
    by (simp add: seed_message_def swap_message_def child_domain_def swap_domain_def
        string_bytes_def byte_of_def)
qed

text \<open>A collision of the truncated HMAC: two messages with one tag under one key.\<close>

definition hmac_collision :: "bytes \<Rightarrow> bytes \<Rightarrow> bytes \<Rightarrow> bool" where
  "hmac_collision key m n \<longleftrightarrow> m \<noteq> n \<and> take 32 (hmac_sha512 key m) = take 32 (hmac_sha512 key n)"

text \<open>The seeds the daemon ever derives: of custody children and of swap sessions.\<close>

datatype seed_use = Child u64 | Session string

fun use_message :: "seed_use \<Rightarrow> bytes" where
  "use_message (Child i) = seed_message i"
| "use_message (Session s) = swap_message s"

fun use_seed :: "bytes \<Rightarrow> seed_use \<Rightarrow> bytes" where
  "use_seed mst (Child i) = derive_seed mst i"
| "use_seed mst (Session s) = derive_swap_seed mst s"

lemma use_message_inj: "use_message u = use_message v \<longleftrightarrow> u = v"
  by (cases u; cases v)
    (simp_all add: seed_message_inj swap_message_inj domain_separation domain_separation [symmetric])

lemma use_seed_alt: "use_seed mst u = take 32 (hmac_sha512 mst (use_message u))"
  by (cases u) (simp_all add: derive_seed_def derive_swap_seed_def)

text \<open>
  C14. Two uses of one master seed, custody child or swap session, have the same derived seed
  exactly when they are the same use or their (distinct) HMAC messages collide: the encoding
  itself never maps two uses to one seed, and the swap namespace is separate from the child
  namespace.
\<close>

theorem seeds_separate:
  "use_seed mst u = use_seed mst v \<longleftrightarrow> u = v \<or> hmac_collision mst (use_message u) (use_message v)"
  by (auto simp: use_seed_alt hmac_collision_def use_message_inj)

end
