(* ===== verification/Externals.thy ===== *)
theory Externals
  imports Derive
begin

text \<open>
  The packages the daemon calls that are not part of this repository (the QDAY core, chain and
  wallet managers, the syncer, SQLite): the shape of the values they exchange with the daemon,
  and their functions as fields of a record, which every definition that uses them takes as
  the argument \<open>E\<close>. A function that reads or changes the outside world takes the world
  \<open>'x\<close> and returns the world after the call, so that the chain, the pool, the peers and the
  clock may move between any two calls.
\<close>

section \<open>Values\<close>

type_synonym address = bytes

record chain_index =
  ci_height :: u64
  ci_id :: bytes

record qkeys =
  classical :: bytes
  reserve :: bytes

text \<open>\<open>types.SpendPolicy\<close>, as far as the sources look into it; \<open>PolicyNil\<close> is the zero value.\<close>

datatype policy =
    PolicyNil
  | PolicyThreshold nat "policy list"
  | PolicyOpaque bytes
  | PolicyHash bytes
  | PolicyAbove u64
  | PolicyOther bytes

record satisfied_policy =
  sp_policy :: policy
  sp_signatures :: "bytes list"
  sp_preimages :: "bytes list"

record siacoin_output =
  so_value :: currency
  so_address :: address

record siacoin_element =
  se_id :: bytes
  se_state :: bytes
  se_output :: siacoin_output
  se_maturity :: u64

record v2input =
  in_parent :: siacoin_element
  in_satisfied :: satisfied_policy

text \<open>\<open>tx_rest\<close> stands for the fields of \<open>types.V2Transaction\<close> the daemon leaves zero.\<close>

record v2txn =
  tx_inputs :: "v2input list"
  tx_outputs :: "siacoin_output list"
  tx_fee :: currency
  tx_arbitrary :: bytes
  tx_rest :: bytes

text \<open>\<open>consensus.State\<close>: the fields the sources read; the rest is \<open>cs_rest\<close>.\<close>

record cstate =
  cs_index :: chain_index
  cs_qday_height :: u64
  cs_shield_blocks :: u64
  cs_defend_bits :: nat
  cs_v1_height :: u64
  cs_network_name :: string
  cs_rest :: bytes

record swap_contract =
  sc_recipient :: qkeys
  sc_refund :: qkeys
  sc_secret_hash :: bytes
  sc_refund_height :: u64

record private_keys =
  pk_public :: qkeys
  pk_secret :: bytes

record envelope =
  env_nonce :: u64
  env_rest :: bytes

datatype event_data = EventV2Transaction v2txn | EventPayout siacoin_element | EventOther

record event =
  ev_id :: bytes
  ev_index :: chain_index
  ev_confirmations :: u64
  ev_type :: string
  ev_data :: event_data
  ev_maturity :: u64
  ev_timestamp :: gotime

record peer =
  peer_failed :: bool
  peer_synced :: bool
  peer_inbound :: bool

record wallet_address =
  wa_address :: address
  wa_policy :: policy
  wa_description :: string

datatype ctx = RequestCtx | ServiceCtx

definition zero_satisfied :: satisfied_policy where
  "zero_satisfied = \<lparr>sp_policy = PolicyNil, sp_signatures = [], sp_preimages = []\<rparr>"

definition policy_only :: "policy \<Rightarrow> satisfied_policy" where
  "policy_only p = \<lparr>sp_policy = p, sp_signatures = [], sp_preimages = []\<rparr>"

section \<open>Errors\<close>

text \<open>One constructor per error the sources create, with the values its text shows.\<close>

datatype service_error =
    WalletLocked
  | BadReference
  | IndexSynchronizing
  | ChainChangedOutputs
  | BadDepositPage
  | ChainChangedDeposits
  | IsRequired string
  | NotPositive string
  | BadRequestID
  | BoundWithdrawal
  | NoSynchronizedPeer
  | WrongUnit
  | AmountOverflow
  | UnknownKey
  | Insufficient
  | ChainChangedSigning
  | OwnerMismatch
  | DerivedMismatch
  | WaitingForChain
  | BasisOutside
  | BasisUnavailable

datatype swap_error =
    BadSwapID
  | BadRole
  | NotHex string
  | AddressMismatch string
  | NoSessionKeys
  | BoundContract
  | SwapNotFound
  | BoundFunding
  | NotActivated u64
  | RefundActive
  | SpentInPool
  | NotConfirmedUnspent
  | BadOutputID
  | RefundWithSecret
  | NotRecipient
  | NotRefundOwner
  | BoundAction
  | SwapKeyMismatch
  | RefundLocked u64
  | NotMature
  | FeeNotCovered
  | SessionMissing
  | HistoryLimit
  | ChainChangedEvents

datatype store_error =
    BadAddressPage
  | BadWithdrawalPage
  | BadSwapPage
  | BadDescriptor
  | BadKeyDescriptor
  | StoredAddressMismatch
  | BadTransactionSize
  | NonCanonical
  | BadBasis
  | BadActionBasis
  | BadConfirmation
  | BadActionConfirmation
  | NoSuchWithdrawal string
  | BadSecretHash
  | StoredContractMismatch
  | NoSuchAction string
  | ConstraintFailed string
  | HighBitUint64
  | ScanFailed

datatype error =
    Svc service_error
  | Swp swap_error
  | Sto store_error
  | Wrap string error
  | NoPeers string
  | Foreign string

text \<open>\<open>errors.Is(err, syncer.ErrNoPeers)\<close>\<close>

fun is_no_peers :: "error \<Rightarrow> bool" where
  "is_no_peers (NoPeers _) = True"
| "is_no_peers (Wrap _ e) = is_no_peers e"
| "is_no_peers _ = False"

type_synonym ('s, 'a) m = "('s, error, 'a) comp"

section \<open>Functions\<close>

text \<open>Encodings: addresses, identifiers, transactions and envelopes.\<close>

record codec_api =
  qaddr_string :: "address \<Rightarrow> string"
  parse_qaddr :: "string \<Rightarrow> error + address"
  parse_output_id :: "string \<Rightarrow> bytes option"
  output_id_string :: "bytes \<Rightarrow> string"
  id_string :: "bytes \<Rightarrow> string"
  block_id_string :: "bytes \<Rightarrow> string"
  hash_string :: "bytes \<Rightarrow> string"
  index_string :: "chain_index \<Rightarrow> string"
  encode_txn :: "v2txn \<Rightarrow> error + bytes"
  decode_txn :: "bytes \<Rightarrow> error + v2txn"
  txn_id :: "v2txn \<Rightarrow> bytes"
  txn_output_id :: "bytes \<Rightarrow> nat \<Rightarrow> bytes"
  transfer_data :: bytes \<comment> \<open>\<open>(QdayEnvelope{Kind: QdayTransfer}).Encode()\<close>\<close>
  parse_envelope :: "bytes \<Rightarrow> error + envelope"
  encode_envelope :: "envelope \<Rightarrow> bytes"
  driver_text :: "store_error \<Rightarrow> string" \<comment> \<open>the SQL driver's own messages\<close>

text \<open>Keys, policies and swap contracts.\<close>

record key_api = codec_api +
  keys_bytes :: "qkeys \<Rightarrow> bytes"
  keys_validate :: "qkeys \<Rightarrow> error option"
  keys_address :: "qkeys \<Rightarrow> address"
  keys_policy :: "qkeys \<Rightarrow> policy"
  policy_address :: "policy \<Rightarrow> address"
  keys_from_seed :: "bytes \<Rightarrow> error + private_keys"
  keys_sign :: "private_keys \<Rightarrow> bytes \<Rightarrow> error + satisfied_policy"
  contract_policy :: "swap_contract \<Rightarrow> error + policy"
  contract_address :: "swap_contract \<Rightarrow> error + address"
  is_swap_spend_policy :: "policy \<Rightarrow> bool"

text \<open>\<open>types.Currency\<close>: \<open>None\<close> is a panic.\<close>

record currency_api = key_api +
  cur_add :: "currency \<Rightarrow> currency \<Rightarrow> currency option"
  cur_sub :: "currency \<Rightarrow> currency \<Rightarrow> currency option"
  cur_add_overflow :: "currency \<Rightarrow> currency \<Rightarrow> currency \<times> bool"
  cur_cmp :: "currency \<Rightarrow> currency \<Rightarrow> int"
  cur_is_zero :: "currency \<Rightarrow> bool"
  cur_exact :: "currency \<Rightarrow> string"
  cur_parse :: "string \<Rightarrow> error + currency"
  fee_default :: currency \<comment> \<open>\<open>types.HastingsPerSiacoin.Div64(1000)\<close>\<close>
  format_amount :: "currency \<Rightarrow> currency \<Rightarrow> string"

text \<open>The consensus rules at a chain state.\<close>

record consensus_api = currency_api +
  qday_value :: "cstate \<Rightarrow> siacoin_element \<Rightarrow> u64 \<Rightarrow> currency"
  qday_units :: "cstate \<Rightarrow> u64 \<Rightarrow> currency"
  qday_active :: "cstate \<Rightarrow> u64 \<Rightarrow> bool"
  qday_v1_active :: "cstate \<Rightarrow> u64 \<Rightarrow> bool"
  input_sig_hash :: "cstate \<Rightarrow> v2txn \<Rightarrow> bytes"
  work_intent :: "cstate \<Rightarrow> v2txn \<Rightarrow> bytes"
  work_valid :: "bytes \<Rightarrow> u64 \<Rightarrow> nat \<Rightarrow> bool"
  validate_txn :: "cstate \<Rightarrow> v2txn \<Rightarrow> error option"

text \<open>
  The services with a state of their own: the clock, the database engine (which may fail any
  statement), the key file, the contexts, the chain manager, the wallet manager and the syncer;
  and \<open>sort.Slice\<close> and the iteration order of Go maps, which the language leaves open.
\<close>

record 'x env = consensus_api +
  now :: "'x \<Rightarrow> gotime \<times> 'x"
  db_fault :: "'x \<Rightarrow> error option \<times> 'x"
  read_key :: "string \<Rightarrow> string \<Rightarrow> 'x \<Rightarrow> (error + bytes) \<times> 'x"
  ctx_err :: "ctx \<Rightarrow> 'x \<Rightarrow> error option \<times> 'x"
  op_try_lock :: "'x \<Rightarrow> bool \<times> 'x"
  cm_tip_state :: "'x \<Rightarrow> cstate \<times> 'x"
  cm_tip :: "'x \<Rightarrow> chain_index \<times> 'x"
  cm_best_index :: "u64 \<Rightarrow> 'x \<Rightarrow> chain_index option \<times> 'x"
  cm_block_parent :: "bytes \<Rightarrow> 'x \<Rightarrow> bytes option \<times> 'x"
  cm_pool :: "'x \<Rightarrow> v2txn list \<times> 'x"
  cm_add_pool :: "chain_index \<Rightarrow> v2txn list \<Rightarrow> 'x \<Rightarrow> error option \<times> 'x"
  cm_update_set :: "v2txn list \<Rightarrow> chain_index \<Rightarrow> chain_index \<Rightarrow> 'x \<Rightarrow> (v2txn list \<times> error option) \<times> 'x"
  wm_tip :: "'x \<Rightarrow> (error + chain_index) \<times> 'x"
  wm_unspent :: "nat \<Rightarrow> nat \<Rightarrow> nat \<Rightarrow> 'x \<Rightarrow> (error + siacoin_element list \<times> chain_index) \<times> 'x"
  wm_address_outputs :: "address \<Rightarrow> nat \<Rightarrow> nat \<Rightarrow> 'x \<Rightarrow> (error + siacoin_element list \<times> chain_index) \<times> 'x"
  wm_add_addresses :: "nat \<Rightarrow> wallet_address list \<Rightarrow> 'x \<Rightarrow> error option \<times> 'x"
  wm_events :: "bytes list \<Rightarrow> 'x \<Rightarrow> (error + event list) \<times> 'x"
  wm_wallet_events :: "nat \<Rightarrow> nat \<Rightarrow> nat \<Rightarrow> 'x \<Rightarrow> (error + event list) \<times> 'x"
  wm_address_events :: "address \<Rightarrow> nat \<Rightarrow> nat \<Rightarrow> 'x \<Rightarrow> (error + event list) \<times> 'x"
  wm_unconfirmed :: "address \<Rightarrow> 'x \<Rightarrow> (error + event list) \<times> 'x"
  wm_immature :: "nat \<Rightarrow> 'x \<Rightarrow> (error + currency) \<times> 'x"
  sy_peers :: "'x \<Rightarrow> peer list \<times> 'x"
  sy_broadcast :: "chain_index \<Rightarrow> v2txn list \<Rightarrow> 'x \<Rightarrow> error option \<times> 'x"
  sign_claim :: "ctx \<Rightarrow> cstate \<Rightarrow> v2txn \<Rightarrow> swap_contract \<Rightarrow> private_keys \<Rightarrow> bytes \<Rightarrow> 'x \<Rightarrow> (error + v2txn) \<times> 'x"
  sign_refund :: "ctx \<Rightarrow> cstate \<Rightarrow> v2txn \<Rightarrow> swap_contract \<Rightarrow> private_keys \<Rightarrow> 'x \<Rightarrow> (error + v2txn) \<times> 'x"
  map_order :: "string list \<Rightarrow> 'x \<Rightarrow> string list \<times> 'x"
  sort_indices :: "(nat \<Rightarrow> nat \<Rightarrow> bool) \<Rightarrow> nat \<Rightarrow> nat list"

text \<open>
  \<open>sort.Slice\<close> sees a slice through comparisons of positions only: the parameter says in which
  order \<open>n\<close> positions come out for a given answer to the comparisons.
\<close>

definition sort_elements :: "('x, 'z) env_scheme \<Rightarrow> ('a \<Rightarrow> 'a \<Rightarrow> bool) \<Rightarrow> 'a list \<Rightarrow> 'a list" where
  "sort_elements E lt xs = map ((!) xs) (sort_indices E (\<lambda>i j. lt (xs ! i) (xs ! j)) (length xs))"

section \<open>What the daemon relies on\<close>

text \<open>
  Documented behaviour of the parameters, used as named hypotheses where a property needs it:
  128-bit arithmetic that panics out of range, encodings that parse back, and a sort that
  permutes its argument and orders it when the comparison is a strict weak order.
\<close>

definition currency_laws :: "('x, 'z) env_scheme \<Rightarrow> bool" where
  "currency_laws E \<longleftrightarrow> (\<forall>a b. a < 2 ^ 128 \<longrightarrow> b < 2 ^ 128 \<longrightarrow>
      cur_add E a b = (if a + b < 2 ^ 128 then Some (a + b) else None) \<and>
      cur_sub E a b = (if b \<le> a then Some (a - b) else None) \<and>
      cur_add_overflow E a b = ((a + b) mod 2 ^ 128, 2 ^ 128 \<le> a + b) \<and>
      (cur_cmp E a b < 0 \<longleftrightarrow> a < b) \<and> (cur_cmp E a b = 0 \<longleftrightarrow> a = b) \<and>
      (cur_is_zero E a \<longleftrightarrow> a = 0)) \<and>
    fee_default E < 2 ^ 128 \<and>
    (\<forall>t c. cur_parse E t = Inr c \<longrightarrow> c < 2 ^ 128) \<and>
    (\<forall>cs el h. qday_value E cs el h < 2 ^ 128)"

definition codec_laws :: "('x, 'z) env_scheme \<Rightarrow> bool" where
  "codec_laws E \<longleftrightarrow>
     (\<forall>a. parse_qaddr E (qaddr_string E a) = Inr a) \<and>
     (\<forall>t raw. encode_txn E t = Inr raw \<longrightarrow> decode_txn E raw = Inr t \<and> raw \<noteq> []) \<and>
     (\<forall>a < 2 ^ 128. cur_parse E (cur_exact E a) = Inr a) \<and>
     (\<forall>k. keys_bytes E k = classical k @ reserve k)"

definition strict_weak :: "'a set \<Rightarrow> ('a \<Rightarrow> 'a \<Rightarrow> bool) \<Rightarrow> bool" where
  "strict_weak A lt \<longleftrightarrow>
     (\<forall>a\<in>A. \<not> lt a a) \<and>
     (\<forall>a\<in>A. \<forall>b\<in>A. \<forall>c\<in>A. lt a b \<longrightarrow> lt b c \<longrightarrow> lt a c) \<and>
     (\<forall>a\<in>A. \<forall>b\<in>A. \<forall>c\<in>A. \<not> lt a b \<and> \<not> lt b a \<longrightarrow> \<not> lt b c \<and> \<not> lt c b \<longrightarrow>
        \<not> lt a c \<and> \<not> lt c a)"

definition sort_laws :: "(('a \<Rightarrow> 'a \<Rightarrow> bool) \<Rightarrow> 'a list \<Rightarrow> 'a list) \<Rightarrow> bool" where
  "sort_laws srt \<longleftrightarrow> (\<forall>lt xs. mset (srt lt xs) = mset xs \<and>
     (strict_weak (set xs) lt \<longrightarrow> sorted_wrt (\<lambda>a b. \<not> lt b a) (srt lt xs)))"

lemma strict_weak_through:
  assumes "strict_weak A lt" and f: "\<And>i. i \<in> B \<Longrightarrow> f i \<in> A"
  shows "strict_weak B (\<lambda>i j. lt (f i) (f j))"
proof -
  from assms(1) have 1: "\<And>a. a \<in> A \<Longrightarrow> \<not> lt a a"
    and 2: "\<And>a b c. a \<in> A \<Longrightarrow> b \<in> A \<Longrightarrow> c \<in> A \<Longrightarrow> lt a b \<Longrightarrow> lt b c \<Longrightarrow> lt a c"
    and 3: "\<And>a b c. a \<in> A \<Longrightarrow> b \<in> A \<Longrightarrow> c \<in> A \<Longrightarrow> \<not> lt a b \<Longrightarrow> \<not> lt b a \<Longrightarrow> \<not> lt b c \<Longrightarrow> \<not> lt c b \<Longrightarrow>
        \<not> lt a c \<and> \<not> lt c a"
    unfolding strict_weak_def by blast+
  show ?thesis
    unfolding strict_weak_def
  proof (intro conjI ballI impI)
    fix a assume "a \<in> B" then show "\<not> lt (f a) (f a)" using 1 f by blast
  next
    fix a b c assume "a \<in> B" "b \<in> B" "c \<in> B" "lt (f a) (f b)" "lt (f b) (f c)"
    then show "lt (f a) (f c)" using 2 f by blast
  next
    fix a b c assume "a \<in> B" "b \<in> B" "c \<in> B" "\<not> lt (f a) (f b) \<and> \<not> lt (f b) (f a)" "\<not> lt (f b) (f c) \<and> \<not> lt (f c) (f b)"
    then have "\<not> lt (f a) (f c) \<and> \<not> lt (f c) (f a)" using 3 [of "f a" "f b" "f c"] f by blast
    then show "\<not> lt (f a) (f c)" "\<not> lt (f c) (f a)" by simp_all
  qed
qed
definition slice_laws :: "('x, 'z) env_scheme \<Rightarrow> bool" where
  "slice_laws E \<longleftrightarrow> (\<forall>lt n. mset (sort_indices E lt n) = mset [0..<n] \<and>
     (strict_weak {..<n} lt \<longrightarrow> sorted_wrt (\<lambda>i j. \<not> lt j i) (sort_indices E lt n)))"

lemma slice_sort:
  assumes "slice_laws E"
  shows "sort_laws (sort_elements E :: ('a \<Rightarrow> 'a \<Rightarrow> bool) \<Rightarrow> 'a list \<Rightarrow> 'a list)"
  unfolding sort_laws_def
proof (intro allI conjI impI)
  fix lt :: "'a \<Rightarrow> 'a \<Rightarrow> bool" and xs :: "'a list"
  let ?lt = "\<lambda>i j. lt (xs ! i) (xs ! j)" and ?n = "length xs"
  have perm: "mset (sort_indices E ?lt ?n) = mset [0..<?n]"
    and sorted: "strict_weak {..<?n} ?lt \<Longrightarrow> sorted_wrt (\<lambda>i j. \<not> ?lt j i) (sort_indices E ?lt ?n)"
    using assms unfolding slice_laws_def by blast+
  have "mset (sort_elements E lt xs) = image_mset ((!) xs) (mset [0..<?n])"
    unfolding sort_elements_def mset_map perm ..
  also have "\<dots> = mset xs" by (metis map_nth mset_map)
  finally show "mset (sort_elements E lt xs) = mset xs" .
  show "sorted_wrt (\<lambda>a b. \<not> lt b a) (sort_elements E lt xs)" if weak: "strict_weak (set xs) lt"
  proof -
    have "strict_weak {..<?n} ?lt" using weak by (rule strict_weak_through) simp
    from sorted [OF this] show ?thesis by (simp add: sort_elements_def sorted_wrt_map)
  qed
qed

lemma currency_lawsD:
  assumes "currency_laws E" and "a < 2 ^ 128" and "b < 2 ^ 128"
  shows "cur_add E a b = (if a + b < 2 ^ 128 then Some (a + b) else None)"
    and "cur_sub E a b = (if b \<le> a then Some (a - b) else None)"
    and "cur_add_overflow E a b = ((a + b) mod 2 ^ 128, 2 ^ 128 \<le> a + b)"
    and "cur_cmp E a b < 0 \<longleftrightarrow> a < b" and "cur_cmp E a b = 0 \<longleftrightarrow> a = b"
    and "cur_is_zero E a \<longleftrightarrow> a = 0"
  using assms unfolding currency_laws_def by blast+

lemma currency_bounds:
  assumes "currency_laws E"
  shows "fee_default E < 2 ^ 128" and "cur_parse E t = Inr c \<Longrightarrow> c < 2 ^ 128"
    and "qday_value E cs el h < 2 ^ 128"
  using assms unfolding currency_laws_def by blast+

lemma codec_lawsD:
  assumes "codec_laws E"
  shows "parse_qaddr E (qaddr_string E a) = Inr a"
    and "encode_txn E t = Inr raw \<Longrightarrow> decode_txn E raw = Inr t"
    and "encode_txn E t = Inr raw \<Longrightarrow> raw \<noteq> []"
    and "c < 2 ^ 128 \<Longrightarrow> cur_parse E (cur_exact E c) = Inr c"
    and "keys_bytes E k = classical k @ reserve k"
  using assms unfolding codec_laws_def by blast+

lemma qaddr_string_inj:
  assumes "codec_laws E"
  shows "qaddr_string E a = qaddr_string E b \<longleftrightarrow> a = b"
  by (metis assms codec_lawsD(1) sum.inject(2))

lemma sort_laws_mset: "sort_laws srt \<Longrightarrow> mset (srt lt xs) = mset xs"
  by (simp add: sort_laws_def)

lemma sort_laws_set: "sort_laws srt \<Longrightarrow> set (srt lt xs) = set xs"
  by (metis set_mset_mset sort_laws_mset)

lemma sort_laws_sorted:
  "sort_laws srt \<Longrightarrow> strict_weak (set xs) lt \<Longrightarrow> sorted_wrt (\<lambda>a b. \<not> lt b a) (srt lt xs)"
  by (simp add: sort_laws_def)

lemma qkeys_split: "\<lparr>classical = classical k, reserve = reserve k\<rparr> = (k :: qkeys)"
  by simp

text \<open>Public keys as they are accepted: two 32-byte halves that validate.\<close>

definition full_keys :: "qkeys \<Rightarrow> bool" where
  "full_keys k \<longleftrightarrow> length (classical k) = 32 \<and> length (reserve k) = 32"

definition sound_keys :: "('x, 'z) env_scheme \<Rightarrow> qkeys \<Rightarrow> bool" where
  "sound_keys E k \<longleftrightarrow> full_keys k \<and> keys_validate E k = None"

text \<open>Derived keys are two 32-byte halves that validate.\<close>

definition key_laws :: "('x, 'z) env_scheme \<Rightarrow> bool" where
  "key_laws E \<longleftrightarrow> (\<forall>seed k. keys_from_seed E seed = Inr k \<longrightarrow> sound_keys E (pk_public k))"

lemma key_lawsD: "key_laws E \<Longrightarrow> keys_from_seed E seed = Inr k \<Longrightarrow> sound_keys E (pk_public k)"
  unfolding key_laws_def by blast

text \<open>\<open>sort.Slice\<close> on at most twelve elements is an insertion sort; it satisfies the law.\<close>

fun insert_back :: "('a \<Rightarrow> 'a \<Rightarrow> bool) \<Rightarrow> 'a \<Rightarrow> 'a list \<Rightarrow> 'a list" where
  "insert_back lt x [] = [x]"
| "insert_back lt x (y # ys) = (if lt x y then y # insert_back lt x ys else x # y # ys)"

text \<open>The sorted prefix is kept reversed, so that the new element moves towards the front.\<close>

definition insertion_sort :: "('a \<Rightarrow> 'a \<Rightarrow> bool) \<Rightarrow> 'a list \<Rightarrow> 'a list" where
  "insertion_sort lt xs = rev (fold (insert_back lt) xs [])"

lemma mset_insert_back: "mset (insert_back lt x ys) = add_mset x (mset ys)"
  by (induction ys) simp_all

lemma set_insert_back: "set (insert_back lt x ys) = insert x (set ys)"
  using mset_insert_back by (metis set_mset_add_mset_insert set_mset_mset)

lemma mset_fold_insert_back: "mset (fold (insert_back lt) xs ys) = mset xs + mset ys"
  by (induction xs arbitrary: ys) (simp_all add: mset_insert_back)

lemma insert_back_sorted:
  assumes "strict_weak A lt" and "insert x (set ys) \<subseteq> A"
  shows "sorted_wrt (\<lambda>a b. \<not> lt a b) ys \<Longrightarrow> sorted_wrt (\<lambda>a b. \<not> lt a b) (insert_back lt x ys)"
  using assms(2)
proof (induction ys)
  case (Cons y ys)
  from Cons.prems have IH: "sorted_wrt (\<lambda>a b. \<not> lt a b) (insert_back lt x ys)"
    by (intro Cons.IH) auto
  show ?case
  proof (cases "lt x y")
    case True
    then have "\<not> lt y x"
      using assms(1) Cons.prems(2) unfolding strict_weak_def by (metis insert_subset list.simps(15))
    with True IH Cons.prems show ?thesis by (simp add: set_insert_back)
  next
    case False
    have "\<not> lt x z" if z: "z \<in> set ys" for z
    proof
      assume xz: "lt x z"
      have A: "x \<in> A" "y \<in> A" "z \<in> A" using Cons.prems(2) z by auto
      have yz: "\<not> lt y z" using Cons.prems(1) z by simp
      have "\<not> lt y x"
      proof
        assume "lt y x"
        with xz A assms(1) have "lt y z" unfolding strict_weak_def by blast
        with yz show False by simp
      qed
      moreover have "\<not> lt z y"
      proof
        assume "lt z y"
        with xz A assms(1) have "lt x y" unfolding strict_weak_def by blast
        with False show False by simp
      qed
      ultimately have "\<not> lt x z"
        using False yz A assms(1) unfolding strict_weak_def by blast
      with xz show False by simp
    qed
    with False Cons.prems show ?thesis by simp
  qed
qed simp

lemma insertion_sort_laws: "sort_laws insertion_sort"
proof -
  have "sorted_wrt (\<lambda>a b. \<not> lt a b) (fold (insert_back lt) xs ys)"
    if "strict_weak A lt" "set xs \<union> set ys \<subseteq> A" "sorted_wrt (\<lambda>a b. \<not> lt a b) ys"
    for A lt and xs ys :: "'a list"
    using that(2,3)
    by (induction xs arbitrary: ys)
      (simp_all add: insert_back_sorted [OF that(1)] set_insert_back)
  then have "sorted_wrt (\<lambda>a b. \<not> lt b a) (insertion_sort lt xs)"
    if "strict_weak (set xs) lt" for lt and xs :: "'a list"
    using that by (simp add: insertion_sort_def sorted_wrt_rev)
  then show ?thesis
    by (simp add: sort_laws_def insertion_sort_def mset_fold_insert_back)
qed

text \<open>The sort commutes with a map that the comparison looks through.\<close>

lemma insert_back_map: "insert_back lt (f x) (map f ys) = map f (insert_back (\<lambda>a b. lt (f a) (f b)) x ys)"
  by (induction ys) simp_all

lemma insertion_sort_map: "insertion_sort lt (map f xs) = map f (insertion_sort (\<lambda>a b. lt (f a) (f b)) xs)"
proof -
  have "fold (insert_back lt) (map f xs) (map f ys) = map f (fold (insert_back (\<lambda>a b. lt (f a) (f b))) xs ys)" for ys
    by (induction xs arbitrary: ys) (simp_all add: insert_back_map)
  from this [of "[]"] show ?thesis by (simp add: insertion_sort_def rev_map)
qed

section \<open>The texts of the errors\<close>

fun decimal_digits :: "nat \<Rightarrow> string" where
  "decimal_digits n =
     (if n < 10 then [char_of (48 + n)] else decimal_digits (n div 10) @ [char_of (48 + n mod 10)])"

declare decimal_digits.simps [simp del]

definition show_u64 :: "u64 \<Rightarrow> string" where
  "show_u64 v = decimal_digits (unat v)"

fun service_text :: "service_error \<Rightarrow> string" where
  "service_text WalletLocked = ''wallet is locked''"
| "service_text BadReference = ''reference must contain 1..128 printable ASCII characters''"
| "service_text IndexSynchronizing = ''wallet index is synchronizing''"
| "service_text ChainChangedOutputs = ''chain changed while reading wallet outputs''"
| "service_text BadDepositPage = ''limit must be 1..200 and offset must be nonnegative''"
| "service_text ChainChangedDeposits = ''chain changed while reading deposits; retry''"
| "service_text (IsRequired name) = name @ '' is required''"
| "service_text (NotPositive name) = name @ '' must be a positive atomic integer''"
| "service_text BadRequestID =
     ''requestID must contain 1..128 letters, digits, '.', '_', ':' or '-'' @ [CHR 0x27]"
| "service_text BoundWithdrawal = ''requestID is already bound to a different withdrawal''"
| "service_text NoSynchronizedPeer = ''QDAY node has no synchronized peer''"
| "service_text WrongUnit = ''expectedUnitAtomic does not match the active QDAY denomination''"
| "service_text AmountOverflow = ''amount plus fee overflows''"
| "service_text UnknownKey = ''indexed output belongs to an unknown key''"
| "service_text Insufficient =
     ''insufficient confirmed spendable balance within the 128-input limit''"
| "service_text ChainChangedSigning = ''chain changed while signing; retry''"
| "service_text OwnerMismatch = ''input owner count mismatch''"
| "service_text DerivedMismatch = ''derived key does not match stored address''"
| "service_text WaitingForChain = ''withdrawal is waiting for chain synchronization''"
| "service_text BasisOutside = ''withdrawal basis is outside this chain''"
| "service_text BasisUnavailable = ''withdrawal basis is not available''"

fun swap_text :: "swap_error \<Rightarrow> string" where
  "swap_text BadSwapID =
     ''swapID must contain 1..128 letters, digits, '.', '_', ':' or '-'' @ [CHR 0x27]"
| "swap_text BadRole = ''role must be 'recipient' or 'refund'' @ [CHR 0x27]"
| "swap_text (NotHex name) = name @ '' must be 32-byte lowercase hexadecimal data''"
| "swap_text (AddressMismatch name) = name @ ''.address does not match its public keys''"
| "swap_text NoSessionKeys = ''create the swap session keys before registering the contract''"
| "swap_text BoundContract = ''swapID is already bound to a different contract''"
| "swap_text SwapNotFound = ''atomic swap not found''"
| "swap_text BoundFunding = ''this swap is already bound to different funding parameters''"
| "swap_text (NotActivated h) = ''atomic swaps activate at block '' @ show_u64 h"
| "swap_text RefundActive =
     ''refusing to fund a contract whose refund branch is already active at the next block''"
| "swap_text SpentInPool = ''atomic-swap output is already spent by a mempool transaction''"
| "swap_text NotConfirmedUnspent = ''atomic-swap output is not confirmed and unspent''"
| "swap_text BadOutputID = ''outputID must be a 32-byte hexadecimal siacoin output ID''"
| "swap_text RefundWithSecret = ''refund request must not contain a secret''"
| "swap_text NotRecipient = ''this daemon is not the swap recipient''"
| "swap_text NotRefundOwner = ''this daemon is not the swap refund owner''"
| "swap_text BoundAction = ''this output action is already bound to different parameters''"
| "swap_text SwapKeyMismatch = ''derived swap key does not match the persistent session''"
| "swap_text (RefundLocked h) = ''refund is locked until height '' @ show_u64 h"
| "swap_text NotMature = ''atomic-swap output is not mature''"
| "swap_text FeeNotCovered = ''atomic-swap output does not cover the fee''"
| "swap_text SessionMissing = ''atomic-swap session key is missing''"
| "swap_text HistoryLimit = ''atomic-swap event history exceeds the safety limit''"
| "swap_text ChainChangedEvents = ''chain changed while reading atomic-swap events; retry''"

definition quoted :: "string \<Rightarrow> string" where
  "quoted s = [CHR 0x22] @ s @ [CHR 0x22]"

fun store_text :: "(store_error \<Rightarrow> string) \<Rightarrow> store_error \<Rightarrow> string" where
  "store_text drv BadAddressPage = ''invalid address pagination''"
| "store_text drv BadWithdrawalPage = ''invalid withdrawal pagination''"
| "store_text drv BadSwapPage = ''invalid swap pagination''"
| "store_text drv BadDescriptor = ''invalid stored public-key descriptor''"
| "store_text drv BadKeyDescriptor = ''invalid stored QDAY public-key descriptor''"
| "store_text drv StoredAddressMismatch = ''stored address does not match public keys''"
| "store_text drv BadTransactionSize = ''invalid stored transaction size''"
| "store_text drv NonCanonical = ''non-canonical stored transaction''"
| "store_text drv BadBasis = ''invalid stored withdrawal basis''"
| "store_text drv BadActionBasis = ''invalid stored atomic-swap action basis''"
| "store_text drv BadConfirmation = ''invalid stored withdrawal confirmation''"
| "store_text drv BadActionConfirmation = ''invalid stored atomic-swap action confirmation''"
| "store_text drv (NoSuchWithdrawal i) = ''withdrawal '' @ quoted i @ '' does not exist''"
| "store_text drv BadSecretHash = ''invalid stored atomic-swap secret hash''"
| "store_text drv StoredContractMismatch = ''stored atomic-swap address does not match its contract''"
| "store_text drv (NoSuchAction i) = ''atomic-swap action '' @ quoted i @ '' does not exist''"
| "store_text drv e = drv e"

text \<open>\<open>err.Error()\<close>\<close>

fun error_text :: "(store_error \<Rightarrow> string) \<Rightarrow> error \<Rightarrow> string" where
  "error_text drv (Svc e) = service_text e"
| "error_text drv (Swp e) = swap_text e"
| "error_text drv (Sto e) = store_text drv e"
| "error_text drv (Wrap prefix e) = prefix @ error_text drv e"
| "error_text drv (NoPeers t) = t"
| "error_text drv (Foreign t) = t"

end
