(* ===== verification/Store.thy ===== *)
theory Store
  imports Externals "HOL-Library.List_Lexorder" "HOL-Library.Char_ord" "HOL-Library.Product_Lexorder"
begin

text \<open>
  \<open>internal/meta/store.go\<close> and the tables of \<open>internal/meta/swap.go\<close>: the SQLite database as
  lists of rows in the column types of the schema, the schema's constraints, and the methods of
  \<open>meta.Store\<close> on addresses and withdrawals. A statement is one call of the engine, which may
  fail (\<open>db_fault\<close>) before it does anything; a constraint violation leaves the table as it was.
\<close>

section \<open>Rows and records\<close>

record address_row =
  ar_index :: int
  ar_address :: string
  ar_public :: bytes
  ar_reference :: "string option"
  ar_kind :: string
  ar_created :: int

record withdrawal_row =
  wr_request :: string
  wr_kind :: string
  wr_blob :: bytes
  wr_basis_height :: int
  wr_basis_id :: bytes
  wr_destination :: string
  wr_amount :: string
  wr_fee :: string
  wr_created :: int
  wr_error :: string
  wr_conf_height :: "int option"
  wr_conf_id :: "bytes option"

record key_row =
  kr_swap :: string
  kr_public :: bytes
  kr_created :: int

record swap_row =
  sr_swap :: string
  sr_role :: string
  sr_recipient :: bytes
  sr_refund :: bytes
  sr_hash :: bytes
  sr_refund_height :: int
  sr_address :: string
  sr_created :: int

record action_row =
  cr_action :: string
  cr_swap :: string
  cr_kind :: string
  cr_output :: string
  cr_blob :: bytes
  cr_basis_height :: int
  cr_basis_id :: bytes
  cr_destination :: string
  cr_amount :: string
  cr_fee :: string
  cr_created :: int
  cr_error :: string
  cr_conf_height :: "int option"
  cr_conf_id :: "bytes option"

record store =
  t_addresses :: "address_row list"
  t_withdrawals :: "withdrawal_row list"
  t_swap_keys :: "key_row list"
  t_swaps :: "swap_row list"
  t_actions :: "action_row list"

text \<open>\<open>meta.Address\<close> and \<open>meta.Withdrawal\<close>\<close>

record addr_rec =
  a_index :: u64
  a_address :: address
  a_public :: qkeys
  a_reference :: string
  a_kind :: string
  a_created :: gotime

record withdrawal =
  w_request :: string
  w_kind :: string
  w_txn :: v2txn
  w_basis :: chain_index
  w_confirmed :: "chain_index option"
  w_destination :: address
  w_amount :: currency
  w_fee :: currency
  w_created :: gotime
  w_error :: string

section \<open>The state of the daemon\<close>

text \<open>\<open>daemon.Node\<close>: what does not change after \<open>OpenNode\<close>.\<close>

record node =
  n_development :: bool
  n_has_syncer :: bool
  n_genesis :: bytes
  n_wallet :: nat
  n_swap_wallet :: nat

text \<open>\<open>daemon.Service\<close> with the node and the database it holds, and the world outside.\<close>

record 'x sys =
  world :: 'x
  tables :: store
  mst_seed :: "bytes option"
  the_node :: node
  key_path :: string
  wake :: bool \<comment> \<open>a value is waiting in \<open>rebroadcastWake\<close>\<close>

definition ext :: "('x \<Rightarrow> 'a \<times> 'x) \<Rightarrow> ('x sys, 'a) m" where
  "ext f = (\<lambda>s. case f (world s) of (a, w) \<Rightarrow> (Ok a, s\<lparr>world := w\<rparr>))"

definition ext_sum :: "('x \<Rightarrow> (error + 'a) \<times> 'x) \<Rightarrow> ('x sys, 'a) m" where
  "ext_sum f = bnd (ext f) lift_sum"

definition ext_err :: "('x \<Rightarrow> error option \<times> 'x) \<Rightarrow> ('x sys, unit) m" where
  "ext_err f = bnd (ext f) lift_err"

text \<open>One statement of the engine.\<close>

definition statement :: "('x, 'z) env_scheme \<Rightarrow> ('x sys, unit) m" where
  "statement E = ext_err (db_fault E)"

section \<open>SQL values\<close>

text \<open>\<open>database/sql\<close> refuses a \<open>uint64\<close> argument with the high bit set, and scanning into a
  \<open>uint64\<close> refuses a negative column.\<close>

definition sql_uint64 :: "u64 \<Rightarrow> error + int" where
  "sql_uint64 v = (if 2 ^ 63 \<le> uint v then Inl (Sto HighBitUint64) else Inr (uint v))"

definition scan_uint64 :: "int \<Rightarrow> error + u64" where
  "scan_uint64 v = (if v < 0 \<or> 2 ^ 63 \<le> v then Inl (Sto ScanFailed) else Inr (word_of_int v))"

lemma scan_sql_uint64: "sql_uint64 v = Inr i \<Longrightarrow> scan_uint64 i = Inr v"
  by (auto simp: sql_uint64_def scan_uint64_def split: if_splits)

text \<open>\<open>LIMIT limit OFFSET offset\<close> and the scan of a result set, which stops at the first bad row.\<close>

definition page :: "int \<Rightarrow> int \<Rightarrow> 'a list \<Rightarrow> 'a list" where
  "page limit offset rows = take (nat limit) (drop (nat offset) rows)"

fun scan_rows :: "('r \<Rightarrow> error + 'a) \<Rightarrow> 'r list \<Rightarrow> error + 'a list" where
  "scan_rows f [] = Inr []"
| "scan_rows f (r # rs) =
     (case f r of Inl e \<Rightarrow> Inl e
      | Inr a \<Rightarrow> (case scan_rows f rs of Inl e \<Rightarrow> Inl e | Inr as \<Rightarrow> Inr (a # as)))"

text \<open>\<open>db.QueryRow\<close>: no row is not an error for the callers.\<close>

definition query_row :: "('r \<Rightarrow> error + 'a) \<Rightarrow> 'r option \<Rightarrow> error + 'a option" where
  "query_row f r = (case r of None \<Rightarrow> Inr None
     | Some row \<Rightarrow> (case f row of Inl e \<Rightarrow> Inl e | Inr a \<Rightarrow> Inr (Some a)))"

section \<open>Addresses\<close>

text \<open>The constraints of \<open>CREATE TABLE addresses\<close>.\<close>

definition address_constraints :: "address_row list \<Rightarrow> address_row \<Rightarrow> bool" where
  "address_constraints rows r \<longleftrightarrow>
     ar_index r \<notin> ar_index ` set rows \<and>
     ar_address r \<notin> ar_address ` set rows \<and>
     length (ar_public r) = 64 \<and>
     (ar_reference r \<noteq> None \<longrightarrow> ar_reference r \<notin> ar_reference ` set rows) \<and>
     ar_kind r \<in> {''deposit'', ''change''}"

definition decode_address :: "('x, 'z) env_scheme \<Rightarrow> address_row \<Rightarrow> error + addr_rec" where
  "decode_address E r =
     (case scan_uint64 (ar_index r) of Inl e \<Rightarrow> Inl e | Inr index \<Rightarrow>
      case parse_qaddr E (ar_address r) of Inl e \<Rightarrow> Inl e | Inr a \<Rightarrow>
      if length (ar_public r) \<noteq> 64 then Inl (Sto BadDescriptor) else
      let keys = \<lparr>classical = take 32 (ar_public r), reserve = drop 32 (ar_public r)\<rparr> in
      case keys_validate E keys of Some e \<Rightarrow> Inl e | None \<Rightarrow>
      if keys_address E keys \<noteq> a then Inl (Sto StoredAddressMismatch) else
      Inr \<lparr>a_index = index, a_address = a, a_public = keys,
           a_reference = (case ar_reference r of None \<Rightarrow> [] | Some ref \<Rightarrow> ref),
           a_kind = ar_kind r, a_created = unix_time (ar_created r)\<rparr>)"

definition address_count :: "('x, 'z) env_scheme \<Rightarrow> ('x sys, nat) m" where
  "address_count E = bnd (statement E) (\<lambda>_. get_st (\<lambda>s. length (t_addresses (tables s))))"

definition addresses_page :: "('x, 'z) env_scheme \<Rightarrow> int \<Rightarrow> int \<Rightarrow> ('x sys, addr_rec list) m" where
  "addresses_page E limit offset =
     bnd (guard_err (limit < 1 \<or> limit > 10000 \<or> offset < 0) (Sto BadAddressPage)) (\<lambda>_.
     bnd (statement E) (\<lambda>_.
     bnd (get_st (\<lambda>s. page limit offset (sort_key ar_index (t_addresses (tables s))))) (\<lambda>rows.
     lift_sum (scan_rows (decode_address E) rows))))"

text \<open>\<open>Addresses\<close> reads every page of ten thousand.\<close>

definition all_addresses :: "('x, 'z) env_scheme \<Rightarrow> ('x sys, addr_rec list) m" where
  "all_addresses E = loop (\<lambda>(offset, result).
     bnd (addresses_page E 10000 offset) (\<lambda>pg.
     if length pg < 10000 then ret (Inr (result @ pg))
     else ret (Inl (offset + 10000, result @ pg)))) (0, [])"

definition address_by_reference :: "('x, 'z) env_scheme \<Rightarrow> string \<Rightarrow> ('x sys, addr_rec option) m" where
  "address_by_reference E ref =
     bnd (statement E) (\<lambda>_.
     bnd (get_st (\<lambda>s. List.find (\<lambda>r. ar_reference r = Some ref) (t_addresses (tables s)))) (\<lambda>row.
     lift_sum (query_row (decode_address E) row)))"

definition address_by_index :: "('x, 'z) env_scheme \<Rightarrow> u64 \<Rightarrow> ('x sys, addr_rec option) m" where
  "address_by_index E index =
     bnd (lift_sum (sql_uint64 index)) (\<lambda>i.
     bnd (statement E) (\<lambda>_.
     bnd (get_st (\<lambda>s. List.find (\<lambda>r. ar_index r = i) (t_addresses (tables s)))) (\<lambda>row.
     lift_sum (query_row (decode_address E) row))))"

definition address_by_hash :: "('x, 'z) env_scheme \<Rightarrow> address \<Rightarrow> ('x sys, addr_rec option) m" where
  "address_by_hash E addr =
     bnd (statement E) (\<lambda>_.
     bnd (get_st (\<lambda>s. List.find (\<lambda>r. ar_address r = qaddr_string E addr) (t_addresses (tables s)))) (\<lambda>row.
     lift_sum (query_row (decode_address E) row)))"

text \<open>\<open>SELECT COALESCE(MAX(child_index)+1,0)\<close>\<close>

definition next_value :: "address_row list \<Rightarrow> int" where
  "next_value rows = (if rows = [] then 0 else Max (ar_index ` set rows) + 1)"

definition next_index :: "('x, 'z) env_scheme \<Rightarrow> ('x sys, u64) m" where
  "next_index E =
     bnd (statement E) (\<lambda>_.
     bnd (get_st (\<lambda>s. next_value (t_addresses (tables s)))) (\<lambda>v. lift_sum (scan_uint64 v)))"

definition address_row_of :: "('x, 'z) env_scheme \<Rightarrow> addr_rec \<Rightarrow> int \<Rightarrow> address_row" where
  "address_row_of E a index =
     \<lparr>ar_index = index, ar_address = qaddr_string E (a_address a),
      ar_public = keys_bytes E (a_public a),
      ar_reference = (if a_reference a \<noteq> [] then Some (a_reference a) else None),
      ar_kind = a_kind a, ar_created = unix_seconds (a_created a)\<rparr>"

definition add_address :: "('x, 'z) env_scheme \<Rightarrow> addr_rec \<Rightarrow> ('x sys, unit) m" where
  "add_address E a =
     bnd (lift_sum (sql_uint64 (a_index a))) (\<lambda>index.
     bnd (statement E) (\<lambda>_.
     bnd (get_st (\<lambda>s. t_addresses (tables s))) (\<lambda>rows.
     let row = address_row_of E a index in
     bnd (guard_err (\<not> address_constraints rows row) (Sto (ConstraintFailed ''addresses''))) (\<lambda>_.
     mod_st (\<lambda>s. s\<lparr>tables := (tables s)\<lparr>t_addresses := t_addresses (tables s) @ [row]\<rparr>\<rparr>)))))"

section \<open>Withdrawals\<close>

definition decode_transaction :: "('x, 'z) env_scheme \<Rightarrow> bytes \<Rightarrow> error + v2txn" where
  "decode_transaction E raw =
     (if raw = [] \<or> length raw > 4194304 then Inl (Sto BadTransactionSize)
      else case decode_txn E raw of Inl e \<Rightarrow> Inl e | Inr txn \<Rightarrow>
        case encode_txn E txn of Inl e \<Rightarrow> Inl e | Inr canonical \<Rightarrow>
        if raw \<noteq> canonical then Inl (Sto NonCanonical) else Inr txn)"

text \<open>The constraints of \<open>CREATE TABLE withdrawals\<close>.\<close>

definition withdrawal_checks :: "withdrawal_row \<Rightarrow> bool" where
  "withdrawal_checks r \<longleftrightarrow>
     wr_kind r \<in> {''withdrawal'', ''defend''} \<and>
     length (wr_basis_id r) = 32 \<and>
     (case wr_conf_id r of None \<Rightarrow> True | Some i \<Rightarrow> length i = 32) \<and>
     (wr_conf_height r = None) = (wr_conf_id r = None)"

definition withdrawal_row_of :: "('x, 'z) env_scheme \<Rightarrow> withdrawal \<Rightarrow> bytes \<Rightarrow> int \<Rightarrow> withdrawal_row" where
  "withdrawal_row_of E w raw height =
     \<lparr>wr_request = w_request w, wr_kind = w_kind w, wr_blob = raw, wr_basis_height = height,
      wr_basis_id = ci_id (w_basis w), wr_destination = qaddr_string E (w_destination w),
      wr_amount = cur_exact E (w_amount w), wr_fee = cur_exact E (w_fee w),
      wr_created = unix_seconds (w_created w), wr_error = w_error w,
      wr_conf_height = None, wr_conf_id = None\<rparr>"

definition add_withdrawal :: "('x, 'z) env_scheme \<Rightarrow> withdrawal \<Rightarrow> ('x sys, unit) m" where
  "add_withdrawal E w =
     bnd (lift_sum (encode_txn E (w_txn w))) (\<lambda>raw.
     bnd (lift_sum (sql_uint64 (ci_height (w_basis w)))) (\<lambda>height.
     bnd (statement E) (\<lambda>_.
     bnd (get_st (\<lambda>s. t_withdrawals (tables s))) (\<lambda>rows.
     let row = withdrawal_row_of E w raw height in
     bnd (guard_err (wr_request row \<in> wr_request ` set rows \<or> \<not> withdrawal_checks row)
            (Sto (ConstraintFailed ''withdrawals''))) (\<lambda>_.
     mod_st (\<lambda>s. s\<lparr>tables := (tables s)\<lparr>t_withdrawals := t_withdrawals (tables s) @ [row]\<rparr>\<rparr>))))))"

text \<open>The stored confirmation of a row, shared by both journals.\<close>

definition scan_confirmation :: "store_error \<Rightarrow> int option \<Rightarrow> bytes option \<Rightarrow> error + chain_index option" where
  "scan_confirmation bad h i =
     (if (h \<noteq> None) \<noteq> (i \<noteq> None) \<or> (case h of None \<Rightarrow> False | Some v \<Rightarrow> v < 0)
         \<or> (case i of None \<Rightarrow> False | Some b \<Rightarrow> length b \<noteq> 32)
      then Inl (Sto bad)
      else case h of None \<Rightarrow> Inr None
        | Some v \<Rightarrow> Inr (Some \<lparr>ci_height = word_of_int v, ci_id = (case i of None \<Rightarrow> [] | Some b \<Rightarrow> b)\<rparr>))"

definition scan_withdrawal :: "('x, 'z) env_scheme \<Rightarrow> withdrawal_row \<Rightarrow> error + withdrawal" where
  "scan_withdrawal E r =
     (case scan_uint64 (wr_basis_height r) of Inl e \<Rightarrow> Inl e | Inr height \<Rightarrow>
      if length (wr_basis_id r) \<noteq> 32 then Inl (Sto BadBasis) else
      case scan_confirmation BadConfirmation (wr_conf_height r) (wr_conf_id r) of
        Inl e \<Rightarrow> Inl e | Inr confirmed \<Rightarrow>
      case decode_transaction E (wr_blob r) of Inl e \<Rightarrow> Inl e | Inr txn \<Rightarrow>
      case parse_qaddr E (wr_destination r) of Inl e \<Rightarrow> Inl e | Inr destination \<Rightarrow>
      case cur_parse E (wr_amount r) of Inl e \<Rightarrow> Inl e | Inr amnt \<Rightarrow>
      case cur_parse E (wr_fee r) of Inl e \<Rightarrow> Inl e | Inr fee \<Rightarrow>
      Inr \<lparr>w_request = wr_request r, w_kind = wr_kind r, w_txn = txn,
           w_basis = \<lparr>ci_height = height, ci_id = wr_basis_id r\<rparr>, w_confirmed = confirmed,
           w_destination = destination, w_amount = amnt, w_fee = fee,
           w_created = unix_time (wr_created r), w_error = wr_error r\<rparr>)"

definition find_withdrawal :: "string \<Rightarrow> withdrawal_row list \<Rightarrow> withdrawal_row option" where
  "find_withdrawal rid rows = List.find (\<lambda>r. wr_request r = rid) rows"

definition withdrawal_get :: "('x, 'z) env_scheme \<Rightarrow> string \<Rightarrow> ('x sys, withdrawal option) m" where
  "withdrawal_get E rid =
     bnd (statement E) (\<lambda>_.
     bnd (get_st (\<lambda>s. find_withdrawal rid (t_withdrawals (tables s)))) (\<lambda>row.
     lift_sum (query_row (scan_withdrawal E) row)))"

text \<open>\<open>ORDER BY created_at DESC, request_id DESC\<close>; the request identifier is a key.\<close>

definition withdrawals_page :: "('x, 'z) env_scheme \<Rightarrow> int \<Rightarrow> int \<Rightarrow> ('x sys, withdrawal list) m" where
  "withdrawals_page E limit offset =
     bnd (guard_err (limit < 1 \<or> limit > 200 \<or> offset < 0) (Sto BadWithdrawalPage)) (\<lambda>_.
     bnd (statement E) (\<lambda>_.
     bnd (get_st (\<lambda>s. page limit offset
       (rev (sort_key (\<lambda>r. (wr_created r, wr_request r)) (t_withdrawals (tables s)))))) (\<lambda>rows.
     lift_sum (scan_rows (scan_withdrawal E) rows))))"

text \<open>The height below which a confirmation is no longer watched.\<close>

definition reorg_cutoff :: "u64 \<Rightarrow> u64 \<Rightarrow> u64" where
  "reorg_cutoff tip_height reorg_window =
     (if tip_height > reorg_window then tip_height - reorg_window else 0)"

definition rebroadcast_candidates :: "('x, 'z) env_scheme \<Rightarrow> u64 \<Rightarrow> u64 \<Rightarrow> ('x sys, withdrawal list) m" where
  "rebroadcast_candidates E tip_height reorg_window =
     bnd (lift_sum (sql_uint64 (reorg_cutoff tip_height reorg_window))) (\<lambda>cutoff.
     bnd (statement E) (\<lambda>_.
     bnd (get_st (\<lambda>s. sort_key wr_created (filter
       (\<lambda>r. case wr_conf_height r of None \<Rightarrow> True | Some h \<Rightarrow> cutoff \<le> h) (t_withdrawals (tables s))))) (\<lambda>rows.
     lift_sum (scan_rows (scan_withdrawal E) rows))))"

text \<open>\<open>UPDATE ... WHERE key = k\<close> with the schema's checks on the rows it changes.\<close>

definition update_where :: "('r \<Rightarrow> bool) \<Rightarrow> ('r \<Rightarrow> 'r) \<Rightarrow> 'r list \<Rightarrow> 'r list" where
  "update_where p f rows = map (\<lambda>r. if p r then f r else r) rows"

definition update_withdrawals :: "('x, 'z) env_scheme \<Rightarrow> string \<Rightarrow> (withdrawal_row \<Rightarrow> withdrawal_row) \<Rightarrow> ('x sys, unit) m" where
  "update_withdrawals E rid f =
     bnd (statement E) (\<lambda>_.
     bnd (get_st (\<lambda>s. filter (\<lambda>r. wr_request r = rid) (t_withdrawals (tables s)))) (\<lambda>hit.
     bnd (guard_err (\<exists>r\<in>set hit. \<not> withdrawal_checks (f r)) (Sto (ConstraintFailed ''withdrawals''))) (\<lambda>_.
     bnd (mod_st (\<lambda>s. s\<lparr>tables := (tables s)\<lparr>t_withdrawals :=
            update_where (\<lambda>r. wr_request r = rid) f (t_withdrawals (tables s))\<rparr>\<rparr>)) (\<lambda>_.
     guard_err (length hit \<noteq> 1) (Sto (NoSuchWithdrawal rid))))))"

text \<open>The two columns \<open>SetWithdrawalConfirmation\<close> writes.\<close>

definition confirmation_columns :: "chain_index option \<Rightarrow> error + (int option \<times> bytes option)" where
  "confirmation_columns index =
     (case index of None \<Rightarrow> Inr (None, None)
      | Some ci \<Rightarrow> (case sql_uint64 (ci_height ci) of Inl e \<Rightarrow> Inl e
          | Inr h \<Rightarrow> Inr (Some h, Some (ci_id ci))))"

definition set_withdrawal_confirmation :: "('x, 'z) env_scheme \<Rightarrow> string \<Rightarrow> chain_index option \<Rightarrow> ('x sys, unit) m" where
  "set_withdrawal_confirmation E rid index =
     bnd (lift_sum (confirmation_columns index)) (\<lambda>(h, i).
     update_withdrawals E rid (\<lambda>r. r\<lparr>wr_conf_height := h, wr_conf_id := i\<rparr>))"

definition update_withdrawal :: "('x, 'z) env_scheme \<Rightarrow> string \<Rightarrow> chain_index \<Rightarrow> v2txn \<Rightarrow> string \<Rightarrow> ('x sys, unit) m" where
  "update_withdrawal E rid basis txn last_error =
     bnd (lift_sum (encode_txn E txn)) (\<lambda>raw.
     bnd (lift_sum (sql_uint64 (ci_height basis))) (\<lambda>height.
     update_withdrawals E rid (\<lambda>r. r\<lparr>wr_blob := raw, wr_basis_height := height,
       wr_basis_id := ci_id basis, wr_error := last_error\<rparr>)))"

end
