(* ===== verification/Store_Facts.thy ===== *)
theory Store_Facts
  imports Store "HOL-Library.Sublist"
begin

text \<open>
  The contract of the database: what an insertion, a lookup and an update promise (locale
  \<open>primary_key\<close>, interpreted on the tables), the order in which the store only ever grows
  (\<open>store_le\<close>, an interpretation of \<open>state_order\<close>), the well-formedness the schema keeps
  (\<open>address_table_ok\<close>), and the round trips of addresses and withdrawals.
\<close>

section \<open>Calls that only touch the world\<close>

lemma ext_app: "ext f s = (Ok (fst (f (world s))), s\<lparr>world := snd (f (world s))\<rparr>)"
  by (simp add: ext_def split: prod.split)

lemma ext_Ok_iff: "ext f s = (Ok a, t) \<longleftrightarrow> a = fst (f (world s)) \<and> t = s\<lparr>world := snd (f (world s))\<rparr>"
  by (auto simp: ext_app)

lemma ext_sum_Ok_iff: "ext_sum f s = (Ok a, t) \<longleftrightarrow> (\<exists>w. f (world s) = (Inr a, w) \<and> t = s\<lparr>world := w\<rparr>)"
  by (auto simp: ext_sum_def bnd_Ok_iff ext_def lift_sum_Ok_iff split: prod.splits)

lemma ext_err_Ok_iff: "ext_err f s = (Ok a, t) \<longleftrightarrow> (\<exists>w. f (world s) = (None, w) \<and> t = s\<lparr>world := w\<rparr>)"
  by (auto simp: ext_err_def bnd_Ok_iff ext_def lift_err_Ok_iff split: prod.splits)

lemma statement_Ok_iff:
  "statement E s = (Ok a, t) \<longleftrightarrow> (\<exists>w. db_fault E (world s) = (None, w) \<and> t = s\<lparr>world := w\<rparr>)"
  by (auto simp: statement_def ext_err_Ok_iff)

lemmas run_iffs = ok_iffs ext_Ok_iff ext_sum_Ok_iff ext_err_Ok_iff statement_Ok_iff get_st_app mod_st_app

text \<open>A scan that succeeds.\<close>

definition reads :: "error + 'a \<Rightarrow> bool" where
  "reads r \<longleftrightarrow> (case r of Inl _ \<Rightarrow> False | Inr _ \<Rightarrow> True)"

lemma reads_simps [simp]: "reads (Inr a)" "\<not> reads (Inl e)"
  by (simp_all add: reads_def)

lemma reads_iff: "reads r \<longleftrightarrow> (\<exists>a. r = Inr a)"
  by (cases r) simp_all

text \<open>\<open>frame\<close>: nothing but the world has changed.\<close>

definition frame :: "'x sys \<Rightarrow> 'x sys \<Rightarrow> bool" where
  "frame s t \<longleftrightarrow> tables t = tables s \<and> mst_seed t = mst_seed s \<and> the_node t = the_node s \<and>
     key_path t = key_path s \<and> wake t = wake s"

interpretation frame: state_order frame
  by unfold_locales (auto simp: frame_def)

lemma frame_ext: "evolves frame (ext f)"
  by (simp add: evolves_def ext_app frame_def)

lemma frame_ext_sum: "evolves frame (ext_sum f)"
  unfolding ext_sum_def by (intro frame.ev_bnd frame_ext frame.ev_sum)

lemma frame_ext_err: "evolves frame (ext_err f)"
  unfolding ext_err_def by (intro frame.ev_bnd frame_ext frame.ev_err)

lemma frame_statement: "evolves frame (statement E)"
  unfolding statement_def by (rule frame_ext_err)

lemmas frame_intros = frame.ev_intros frame_ext frame_ext_sum frame_ext_err frame_statement

lemma returns_ext: "returns (ext f)"
  by (simp add: returns_def ext_app)

lemma returns_calls: "returns (ext_sum g)" "returns (ext_err h)" "returns (statement E)"
  unfolding ext_sum_def ext_err_def statement_def by (intro returns_intros returns_ext)+

lemmas call_returns = returns_intros returns_ext returns_calls

lemma evolves_weaken: "evolves R m \<Longrightarrow> (\<And>s t. R s t \<Longrightarrow> R' s t) \<Longrightarrow> evolves R' m"
  by (simp add: evolves_def)

text \<open>A computation that does one change of the state, or none.\<close>

definition at_most :: "('x sys \<Rightarrow> 'x sys) \<Rightarrow> 'x sys \<Rightarrow> 'x sys \<Rightarrow> bool" where
  "at_most f s t \<longleftrightarrow> frame s t \<or> frame (f s) t"

definition framed :: "('x sys \<Rightarrow> 'x sys) \<Rightarrow> bool" where
  "framed f \<longleftrightarrow> (\<forall>s t. frame s t \<longrightarrow> frame (f s) (f t))"

lemma at_most_frame: "evolves frame m \<Longrightarrow> evolves (at_most f) m"
  by (erule evolves_weaken) (simp add: at_most_def)

lemma at_most_after:
  assumes "framed f" and "evolves frame m" and "\<And>a. evolves (at_most f) (k a)"
  shows "evolves (at_most f) (bnd m k)"
proof (rule evolvesI)
  fix s r t
  assume run: "bnd m k s = (r, t)"
  obtain r' s' where m: "m s = (r', s')" by fastforce
  have fr: "frame s s'" using assms(2) m by (rule evolvesD)
  show "at_most f s t"
  proof (cases r')
    case (Ok a)
    with run m have "k a s' = (r, t)" by (simp add: bnd_def)
    with assms(3) have "at_most f s' t" by (rule evolvesD)
    moreover have "frame (f s) (f s')" using assms(1) fr by (simp add: framed_def)
    ultimately show ?thesis using fr unfolding at_most_def by (blast intro: frame.le_trans)
  qed (use run m fr in \<open>auto simp: bnd_def at_most_def\<close>)
qed

lemma at_most_mod: "evolves (at_most f) (mod_st f)"
  by (simp add: evolves_def at_most_def frame.le_refl)

lemma at_most_do:
  assumes "\<And>a. evolves frame (k a)"
  shows "evolves (at_most f) (bnd (mod_st f) k)"
proof (rule evolvesI)
  fix s r t
  assume "bnd (mod_st f) k s = (r, t)"
  then have "k () (f s) = (r, t)" by (simp add: bnd_def)
  with assms have "frame (f s) t" by (rule evolvesD)
  then show "at_most f s t" by (simp add: at_most_def)
qed

text \<open>
  Runs that change nothing but the world from the states where \<open>J\<close> holds: a request stops at the
  first call that cannot succeed there.
\<close>

definition stable :: "('x sys \<Rightarrow> bool) \<Rightarrow> bool" where
  "stable J \<longleftrightarrow> (\<forall>s t. J s \<longrightarrow> frame s t \<longrightarrow> J t)"

definition quiet :: "('x sys \<Rightarrow> bool) \<Rightarrow> ('x sys, 'a) m \<Rightarrow> bool" where
  "quiet J m \<longleftrightarrow> (\<forall>s. J s \<longrightarrow> frame s (snd (m s)))"

lemma quietD: "quiet J m \<Longrightarrow> J s \<Longrightarrow> m s = (r, t) \<Longrightarrow> frame s t"
  unfolding quiet_def by (metis snd_conv)

lemma quiet_frame: "evolves frame m \<Longrightarrow> quiet J m"
  by (simp add: quiet_def evolves_def)

lemma quiet_bnd:
  assumes st: "stable J" and m: "evolves frame m"
    and f: "\<And>a s u. J s \<Longrightarrow> m s = (Ok a, u) \<Longrightarrow> quiet J (f a)"
  shows "quiet J (bnd m f)"
  unfolding quiet_def
proof (intro allI impI)
  fix s assume J: "J s"
  obtain r u where run: "m s = (r, u)" by fastforce
  have fr: "frame s u" using m run by (rule evolvesD)
  with st J have "J u" by (simp add: stable_def)
  show "frame s (snd (bnd m f s))"
  proof (cases r)
    case (Ok a)
    with f [of s a u] J run \<open>J u\<close> have "frame u (snd (f a u))" by (simp add: quiet_def)
    with fr have "frame s (snd (f a u))" by (rule frame.le_trans)
    with run Ok show ?thesis by (simp add: bnd_def)
  qed (use run fr in \<open>simp_all add: bnd_def\<close>)
qed

lemma quiet_stop:
  "stable J \<Longrightarrow> evolves frame m \<Longrightarrow> (\<And>a s u. J s \<Longrightarrow> m s \<noteq> (Ok a, u)) \<Longrightarrow> quiet J (bnd m f)"
  by (rule quiet_bnd) auto

lemma quiet_found:
  "stable J \<Longrightarrow> evolves frame m \<Longrightarrow> (\<And>s u. J s \<Longrightarrow> m s \<noteq> (Ok None, u)) \<Longrightarrow> (\<And>x. quiet J (g x)) \<Longrightarrow>
    quiet J (bnd m (\<lambda>r. case r of None \<Rightarrow> f | Some x \<Rightarrow> g x))"
  by (rule quiet_bnd) (auto split: option.split)

lemma quiet_option:
  "quiet J m \<Longrightarrow> (\<And>x. quiet J (f x)) \<Longrightarrow> quiet J (case r of None \<Rightarrow> m | Some x \<Rightarrow> f x)"
  by (simp split: option.split)

section \<open>Tables with a primary key\<close>

text \<open>
  The interface of a table: rows are inserted at the end when the schema admits them, which
  includes that the key is new. The client is the idempotency of the daemon's requests: a
  key that is present is found again with its row, and a second insertion is refused.
\<close>

locale primary_key =
  fixes key :: "'r \<Rightarrow> 'k" and admits :: "'r list \<Rightarrow> 'r \<Rightarrow> bool"
  assumes admits_fresh: "admits rows r \<Longrightarrow> key r \<notin> key ` set rows"
begin

definition lookup :: "'k \<Rightarrow> 'r list \<Rightarrow> 'r option" where
  "lookup k rows = List.find (\<lambda>r. key r = k) rows"

lemma lookup_Some: "lookup k rows = Some r \<Longrightarrow> r \<in> set rows \<and> key r = k"
  by (auto simp: lookup_def find_Some_iff)

lemma lookup_None: "lookup k rows = None \<longleftrightarrow> k \<notin> key ` set rows"
  by (auto simp: lookup_def find_None_iff)

lemma lookup_append: "lookup k (rows @ rs) = (case lookup k rows of None \<Rightarrow> lookup k rs | Some r \<Rightarrow> Some r)"
  by (induction rows) (auto simp: lookup_def)

lemma lookup_inserted: "admits rows r \<Longrightarrow> lookup (key r) (rows @ [r]) = Some r"
  using admits_fresh [of rows r] lookup_None [of "key r" rows]
  by (simp add: lookup_append) (simp add: lookup_def)

lemma lookup_other: "k \<noteq> key r \<Longrightarrow> lookup k (rows @ [r]) = lookup k rows"
  by (simp add: lookup_append split: option.split) (simp add: lookup_def)

lemma present_refused: "lookup (key r) rows = Some r' \<Longrightarrow> \<not> admits rows r"
  using admits_fresh [of rows r] lookup_None [of "key r" rows] by auto

lemma distinct_insert: "distinct (map key rows) \<Longrightarrow> admits rows r \<Longrightarrow> distinct (map key (rows @ [r]))"
  using admits_fresh by auto

lemma lookup_distinct:
  "distinct (map key rows) \<Longrightarrow> r \<in> set rows \<Longrightarrow> lookup (key r) rows = Some r"
  by (induction rows) (auto simp: lookup_def rev_image_eqI)

lemma update_inserted:
  assumes "admits rows r" and "key r' = key r"
  shows "update_where (\<lambda>x. key x = key r) f (rows @ [r']) = rows @ [f r']"
proof -
  have "map (\<lambda>x. if key x = key r then f x else x) rows = rows"
    using admits_fresh [OF assms(1)] by (intro map_idI) (auto simp: rev_image_eqI)
  with assms(2) show ?thesis by (simp add: update_where_def)
qed

text \<open>A row whose lasting columns are kept is found by its key ever after.\<close>

lemma lookup_lasting:
  assumes "\<And>x y. ident x = ident y \<Longrightarrow> key x = key y"
    and "prefix (map ident a) (map ident b)" and "lookup k a = Some r"
  shows "\<exists>r'. lookup k b = Some r' \<and> ident r' = ident r"
  using assms(2,3)
proof (induction a arbitrary: b)
  case (Cons x a)
  then obtain y b' where b: "b = y # b'" and id: "ident y = ident x"
    and rest: "prefix (map ident a) (map ident b')"
    by (cases b) auto
  from assms(1) [OF id] Cons b id rest show ?case by (auto simp: lookup_def split: if_splits)
qed (simp add: lookup_def)

lemma lookup_update:
  assumes "\<And>r. key (f r) = key r"
  shows "lookup k (update_where p f rows) = map_option (\<lambda>r. if p r then f r else r) (lookup k rows)"
  using assms by (induction rows) (auto simp: lookup_def update_where_def)

end

definition withdrawal_admits :: "withdrawal_row list \<Rightarrow> withdrawal_row \<Rightarrow> bool" where
  "withdrawal_admits rows r \<longleftrightarrow> \<not> (wr_request r \<in> wr_request ` set rows \<or> \<not> withdrawal_checks r)"

interpretation wtab: primary_key wr_request withdrawal_admits
  by unfold_locales (auto simp: withdrawal_admits_def)

interpretation addr_index: primary_key ar_index address_constraints
  by unfold_locales (auto simp: address_constraints_def)

interpretation addr_text: primary_key ar_address address_constraints
  by unfold_locales (auto simp: address_constraints_def)

lemma find_withdrawal_lookup: "find_withdrawal = wtab.lookup"
  by (intro ext) (simp add: find_withdrawal_def wtab.lookup_def)

section \<open>The store only grows\<close>

text \<open>What no statement of the daemon changes in a row of the withdrawal journal.\<close>

definition withdrawal_identity :: "withdrawal_row \<Rightarrow> string \<times> string \<times> string \<times> string \<times> string \<times> int" where
  "withdrawal_identity r = (wr_request r, wr_kind r, wr_destination r, wr_amount r, wr_fee r, wr_created r)"

definition action_identity :: "action_row \<Rightarrow> (string \<times> string \<times> string \<times> string) \<times> string \<times> string \<times> string \<times> int" where
  "action_identity r = ((cr_action r, cr_swap r, cr_kind r, cr_output r), cr_destination r, cr_amount r, cr_fee r, cr_created r)"

definition tables_le :: "store \<Rightarrow> store \<Rightarrow> bool" where
  "tables_le a b \<longleftrightarrow>
     prefix (t_addresses a) (t_addresses b) \<and>
     prefix (map withdrawal_identity (t_withdrawals a)) (map withdrawal_identity (t_withdrawals b)) \<and>
     prefix (t_swap_keys a) (t_swap_keys b) \<and>
     prefix (t_swaps a) (t_swaps b) \<and>
     prefix (map action_identity (t_actions a)) (map action_identity (t_actions b))"

definition store_le :: "'x sys \<Rightarrow> 'x sys \<Rightarrow> bool" where
  "store_le s t \<longleftrightarrow> tables_le (tables s) (tables t) \<and> the_node t = the_node s \<and> key_path t = key_path s"

lemma tables_le_refl: "tables_le a a"
  by (simp add: tables_le_def)

lemma tables_le_trans: "tables_le a b \<Longrightarrow> tables_le b c \<Longrightarrow> tables_le a c"
  unfolding tables_le_def by (blast intro: prefix_order.trans)

interpretation grow: state_order store_le
  by unfold_locales (auto simp: store_le_def intro: tables_le_refl tables_le_trans)

lemma frame_le: "frame s t \<Longrightarrow> store_le s t"
  by (simp add: frame_def store_le_def tables_le_refl)

lemma grow_frame: "evolves frame m \<Longrightarrow> evolves store_le m"
  by (erule evolves_weaken) (rule frame_le)

lemma grow_mod:
  "(\<And>s. tables_le (tables s) (tables (f s)) \<and> the_node (f s) = the_node s \<and> key_path (f s) = key_path s) \<Longrightarrow>
    evolves store_le (mod_st f)"
  by (rule grow.ev_mod) (simp add: store_le_def)

lemmas grow_intros = grow.ev_intros frame_ext [THEN grow_frame] frame_ext_sum [THEN grow_frame]
  frame_ext_err [THEN grow_frame] frame_statement [THEN grow_frame]

lemma map_update_where: "(\<And>r. g (f r) = g r) \<Longrightarrow> map g (update_where p f rows) = map g rows"
  by (simp add: update_where_def)

lemma grow_add_address: "evolves store_le (add_address E a)"
  unfolding add_address_def
  by (intro grow_intros grow_mod) (simp add: tables_le_def)

lemma grow_add_withdrawal: "evolves store_le (add_withdrawal E w)"
  unfolding add_withdrawal_def
  by (intro grow_intros grow_mod) (simp add: tables_le_def)

lemma grow_update_withdrawals:
  assumes "\<And>r. withdrawal_identity (f r) = withdrawal_identity r"
  shows "evolves store_le (update_withdrawals E rid f)"
  unfolding update_withdrawals_def
  by (intro grow_intros grow_mod) (simp add: tables_le_def map_update_where assms)

lemma grow_set_confirmation: "evolves store_le (set_withdrawal_confirmation E rid ci)"
  unfolding set_withdrawal_confirmation_def
  by (intro grow_intros grow_update_withdrawals) (simp add: withdrawal_identity_def)

lemma grow_update_withdrawal: "evolves store_le (update_withdrawal E rid basis txn err)"
  unfolding update_withdrawal_def
  by (intro grow_intros grow_update_withdrawals) (simp add: withdrawal_identity_def)

text \<open>The reading methods leave everything but the world alone.\<close>

lemma frame_reads:
  "evolves frame (address_count E)" "evolves frame (addresses_page E l k)"
  "evolves frame (all_addresses E)" "evolves frame (address_by_reference E ref)"
  "evolves frame (address_by_index E i)" "evolves frame (address_by_hash E a)"
  "evolves frame (next_index E)" "evolves frame (withdrawal_get E rid)"
  "evolves frame (withdrawals_page E l k)" "evolves frame (rebroadcast_candidates E h v)"
  unfolding address_count_def addresses_page_def all_addresses_def address_by_reference_def
    address_by_index_def address_by_hash_def next_index_def withdrawal_get_def
    withdrawals_page_def rebroadcast_candidates_def
  by (intro frame_intros)+

lemmas store_grow = frame_reads [THEN grow_frame] grow_add_address grow_add_withdrawal
  grow_set_confirmation grow_update_withdrawal

end
