(* ===== verification/Swap_Store.thy ===== *)
theory Swap_Store
  imports Store_Facts
begin

text \<open>
  \<open>internal/meta/swap.go\<close>: the swap session keys, the registered contracts and the journal of
  swap actions. A stored contract is only returned when its address is the one derived from its
  terms.
\<close>

record swap_key =
  k_swap :: string
  k_public :: qkeys
  k_created :: gotime

record swap =
  s_swap :: string
  s_role :: string
  s_recipient :: qkeys
  s_refund :: qkeys
  s_secret_hash :: bytes
  s_refund_height :: u64
  s_address :: address
  s_created :: gotime

record swap_action =
  c_action :: string
  c_swap :: string
  c_kind :: string
  c_output :: string
  c_txn :: v2txn
  c_basis :: chain_index
  c_confirmed :: "chain_index option"
  c_destination :: address
  c_amount :: currency
  c_fee :: currency
  c_created :: gotime
  c_error :: string

definition decode_qday_keys :: "('x, 'z) env_scheme \<Rightarrow> bytes \<Rightarrow> error + qkeys" where
  "decode_qday_keys E raw =
     (if length raw \<noteq> 64 then Inl (Sto BadKeyDescriptor) else
      let keys = \<lparr>classical = take 32 raw, reserve = drop 32 raw\<rparr> in
      case keys_validate E keys of Some e \<Rightarrow> Inl e | None \<Rightarrow> Inr keys)"

section \<open>Session keys\<close>

definition key_constraints :: "key_row list \<Rightarrow> key_row \<Rightarrow> bool" where
  "key_constraints rows r \<longleftrightarrow> kr_swap r \<notin> kr_swap ` set rows \<and> length (kr_public r) = 64"

definition add_swap_key :: "('x, 'z) env_scheme \<Rightarrow> swap_key \<Rightarrow> ('x sys, unit) m" where
  "add_swap_key E key =
     bnd (statement E) (\<lambda>_.
     bnd (get_st (\<lambda>s. t_swap_keys (tables s))) (\<lambda>rows.
     let row = \<lparr>kr_swap = k_swap key, kr_public = keys_bytes E (k_public key), kr_created = unix_seconds (k_created key)\<rparr> in
     bnd (guard_err (\<not> key_constraints rows row) (Sto (ConstraintFailed ''swap_keys''))) (\<lambda>_.
     mod_st (\<lambda>s. s\<lparr>tables := (tables s)\<lparr>t_swap_keys := t_swap_keys (tables s) @ [row]\<rparr>\<rparr>))))"

definition scan_swap_key :: "('x, 'z) env_scheme \<Rightarrow> key_row \<Rightarrow> error + swap_key" where
  "scan_swap_key E r =
     (case decode_qday_keys E (kr_public r) of Inl e \<Rightarrow> Inl e
      | Inr keys \<Rightarrow> Inr \<lparr>k_swap = kr_swap r, k_public = keys, k_created = unix_time (kr_created r)\<rparr>)"

definition swap_key_get :: "('x, 'z) env_scheme \<Rightarrow> string \<Rightarrow> ('x sys, swap_key option) m" where
  "swap_key_get E sid =
     bnd (statement E) (\<lambda>_.
     bnd (get_st (\<lambda>s. List.find (\<lambda>r. kr_swap r = sid) (t_swap_keys (tables s)))) (\<lambda>row.
     lift_sum (query_row (scan_swap_key E) row)))"

section \<open>Contracts\<close>

text \<open>The constraints of \<open>CREATE TABLE swaps\<close>, the foreign key included.\<close>

definition swap_constraints :: "key_row list \<Rightarrow> swap_row list \<Rightarrow> swap_row \<Rightarrow> bool" where
  "swap_constraints keys rows r \<longleftrightarrow>
     sr_swap r \<notin> sr_swap ` set rows \<and>
     sr_swap r \<in> kr_swap ` set keys \<and>
     sr_role r \<in> {''recipient'', ''refund''} \<and>
     length (sr_recipient r) = 64 \<and> length (sr_refund r) = 64 \<and> length (sr_hash r) = 32 \<and>
     0 < sr_refund_height r \<and>
     sr_address r \<notin> sr_address ` set rows"

definition swap_row_of :: "('x, 'z) env_scheme \<Rightarrow> swap \<Rightarrow> int \<Rightarrow> swap_row" where
  "swap_row_of E sw height =
     \<lparr>sr_swap = s_swap sw, sr_role = s_role sw, sr_recipient = keys_bytes E (s_recipient sw),
      sr_refund = keys_bytes E (s_refund sw), sr_hash = s_secret_hash sw, sr_refund_height = height,
      sr_address = qaddr_string E (s_address sw), sr_created = unix_seconds (s_created sw)\<rparr>"

definition add_swap :: "('x, 'z) env_scheme \<Rightarrow> swap \<Rightarrow> ('x sys, unit) m" where
  "add_swap E sw =
     bnd (lift_sum (sql_uint64 (s_refund_height sw))) (\<lambda>height.
     bnd (statement E) (\<lambda>_.
     bnd (get_st tables) (\<lambda>db.
     let row = swap_row_of E sw height in
     bnd (guard_err (\<not> swap_constraints (t_swap_keys db) (t_swaps db) row) (Sto (ConstraintFailed ''swaps''))) (\<lambda>_.
     mod_st (\<lambda>s. s\<lparr>tables := (tables s)\<lparr>t_swaps := t_swaps (tables s) @ [row]\<rparr>\<rparr>)))))"

definition terms_of :: "swap \<Rightarrow> swap_contract" where
  "terms_of sw = \<lparr>sc_recipient = s_recipient sw, sc_refund = s_refund sw,
     sc_secret_hash = s_secret_hash sw, sc_refund_height = s_refund_height sw\<rparr>"

definition scan_swap :: "('x, 'z) env_scheme \<Rightarrow> swap_row \<Rightarrow> error + swap" where
  "scan_swap E r =
     (case scan_uint64 (sr_refund_height r) of Inl e \<Rightarrow> Inl e | Inr height \<Rightarrow>
      case decode_qday_keys E (sr_recipient r) of Inl e \<Rightarrow> Inl e | Inr recipient \<Rightarrow>
      case decode_qday_keys E (sr_refund r) of Inl e \<Rightarrow> Inl e | Inr refund \<Rightarrow>
      if length (sr_hash r) \<noteq> 32 then Inl (Sto BadSecretHash) else
      case parse_qaddr E (sr_address r) of Inl e \<Rightarrow> Inl e | Inr addr \<Rightarrow>
      case contract_address E \<lparr>sc_recipient = recipient, sc_refund = refund,
          sc_secret_hash = sr_hash r, sc_refund_height = height\<rparr> of Inl e \<Rightarrow> Inl e | Inr derived \<Rightarrow>
      if derived \<noteq> addr then Inl (Sto StoredContractMismatch) else
      Inr \<lparr>s_swap = sr_swap r, s_role = sr_role r, s_recipient = recipient, s_refund = refund,
           s_secret_hash = sr_hash r, s_refund_height = height, s_address = addr,
           s_created = unix_time (sr_created r)\<rparr>)"

definition swap_get :: "('x, 'z) env_scheme \<Rightarrow> string \<Rightarrow> ('x sys, swap option) m" where
  "swap_get E sid =
     bnd (statement E) (\<lambda>_.
     bnd (get_st (\<lambda>s. List.find (\<lambda>r. sr_swap r = sid) (t_swaps (tables s)))) (\<lambda>row.
     lift_sum (query_row (scan_swap E) row)))"

definition swaps_page :: "('x, 'z) env_scheme \<Rightarrow> int \<Rightarrow> int \<Rightarrow> ('x sys, swap list) m" where
  "swaps_page E limit offset =
     bnd (guard_err (limit < 1 \<or> limit > 10000 \<or> offset < 0) (Sto BadSwapPage)) (\<lambda>_.
     bnd (statement E) (\<lambda>_.
     bnd (get_st (\<lambda>s. page limit offset
       (rev (sort_key (\<lambda>r. (sr_created r, sr_swap r)) (t_swaps (tables s)))))) (\<lambda>rows.
     lift_sum (scan_rows (scan_swap E) rows))))"

section \<open>Actions\<close>

text \<open>The row checks and the keys of \<open>CREATE TABLE swap_actions\<close>.\<close>

definition action_checks :: "action_row \<Rightarrow> bool" where
  "action_checks r \<longleftrightarrow>
     cr_kind r \<in> {''fund'', ''claim'', ''refund''} \<and>
     length (cr_basis_id r) = 32 \<and>
     (case cr_conf_id r of None \<Rightarrow> True | Some i \<Rightarrow> length i = 32) \<and>
     (cr_conf_height r = None) = (cr_conf_id r = None)"

definition action_key :: "action_row \<Rightarrow> string \<times> string \<times> string" where
  "action_key r = (cr_swap r, cr_kind r, cr_output r)"

definition action_constraints :: "swap_row list \<Rightarrow> action_row list \<Rightarrow> action_row \<Rightarrow> bool" where
  "action_constraints swaps rows r \<longleftrightarrow>
     cr_action r \<notin> cr_action ` set rows \<and>
     cr_swap r \<in> sr_swap ` set swaps \<and>
     action_key r \<notin> action_key ` set rows \<and>
     action_checks r"

definition action_row_of :: "('x, 'z) env_scheme \<Rightarrow> swap_action \<Rightarrow> bytes \<Rightarrow> int \<Rightarrow> action_row" where
  "action_row_of E c raw height =
     \<lparr>cr_action = c_action c, cr_swap = c_swap c, cr_kind = c_kind c, cr_output = c_output c,
      cr_blob = raw, cr_basis_height = height, cr_basis_id = ci_id (c_basis c),
      cr_destination = qaddr_string E (c_destination c), cr_amount = cur_exact E (c_amount c),
      cr_fee = cur_exact E (c_fee c), cr_created = unix_seconds (c_created c), cr_error = c_error c,
      cr_conf_height = None, cr_conf_id = None\<rparr>"

definition add_swap_action :: "('x, 'z) env_scheme \<Rightarrow> swap_action \<Rightarrow> ('x sys, unit) m" where
  "add_swap_action E c =
     bnd (lift_sum (encode_txn E (c_txn c))) (\<lambda>raw.
     bnd (lift_sum (sql_uint64 (ci_height (c_basis c)))) (\<lambda>height.
     bnd (statement E) (\<lambda>_.
     bnd (get_st tables) (\<lambda>db.
     let row = action_row_of E c raw height in
     bnd (guard_err (\<not> action_constraints (t_swaps db) (t_actions db) row)
            (Sto (ConstraintFailed ''swap_actions''))) (\<lambda>_.
     mod_st (\<lambda>s. s\<lparr>tables := (tables s)\<lparr>t_actions := t_actions (tables s) @ [row]\<rparr>\<rparr>))))))"

definition scan_swap_action :: "('x, 'z) env_scheme \<Rightarrow> action_row \<Rightarrow> error + swap_action" where
  "scan_swap_action E r =
     (case scan_uint64 (cr_basis_height r) of Inl e \<Rightarrow> Inl e | Inr height \<Rightarrow>
      if length (cr_basis_id r) \<noteq> 32 then Inl (Sto BadActionBasis) else
      case scan_confirmation BadActionConfirmation (cr_conf_height r) (cr_conf_id r) of
        Inl e \<Rightarrow> Inl e | Inr confirmed \<Rightarrow>
      case decode_transaction E (cr_blob r) of Inl e \<Rightarrow> Inl e | Inr txn \<Rightarrow>
      case parse_qaddr E (cr_destination r) of Inl e \<Rightarrow> Inl e | Inr destination \<Rightarrow>
      case cur_parse E (cr_amount r) of Inl e \<Rightarrow> Inl e | Inr amnt \<Rightarrow>
      case cur_parse E (cr_fee r) of Inl e \<Rightarrow> Inl e | Inr fee \<Rightarrow>
      Inr \<lparr>c_action = cr_action r, c_swap = cr_swap r, c_kind = cr_kind r, c_output = cr_output r,
           c_txn = txn, c_basis = \<lparr>ci_height = height, ci_id = cr_basis_id r\<rparr>,
           c_confirmed = confirmed, c_destination = destination, c_amount = amnt, c_fee = fee,
           c_created = unix_time (cr_created r), c_error = cr_error r\<rparr>)"

definition swap_action_get :: "('x, 'z) env_scheme \<Rightarrow> string \<Rightarrow> string \<Rightarrow> string \<Rightarrow> ('x sys, swap_action option) m" where
  "swap_action_get E sid kind output =
     bnd (statement E) (\<lambda>_.
     bnd (get_st (\<lambda>s. List.find (\<lambda>r. action_key r = (sid, kind, output)) (t_actions (tables s)))) (\<lambda>row.
     lift_sum (query_row (scan_swap_action E) row)))"

definition swap_actions :: "('x, 'z) env_scheme \<Rightarrow> string \<Rightarrow> ('x sys, swap_action list) m" where
  "swap_actions E sid =
     bnd (statement E) (\<lambda>_.
     bnd (get_st (\<lambda>s. sort_key (\<lambda>r. (cr_created r, cr_action r))
       (filter (\<lambda>r. cr_swap r = sid) (t_actions (tables s))))) (\<lambda>rows.
     lift_sum (scan_rows (scan_swap_action E) rows)))"

definition swap_action_candidates :: "('x, 'z) env_scheme \<Rightarrow> u64 \<Rightarrow> u64 \<Rightarrow> ('x sys, swap_action list) m" where
  "swap_action_candidates E tip_height reorg_window =
     bnd (lift_sum (sql_uint64 (reorg_cutoff tip_height reorg_window))) (\<lambda>cutoff.
     bnd (statement E) (\<lambda>_.
     bnd (get_st (\<lambda>s. sort_key cr_created (filter
       (\<lambda>r. case cr_conf_height r of None \<Rightarrow> True | Some h \<Rightarrow> cutoff \<le> h) (t_actions (tables s))))) (\<lambda>rows.
     lift_sum (scan_rows (scan_swap_action E) rows))))"

definition update_actions :: "('x, 'z) env_scheme \<Rightarrow> string \<Rightarrow> (action_row \<Rightarrow> action_row) \<Rightarrow> ('x sys, unit) m" where
  "update_actions E aid f =
     bnd (statement E) (\<lambda>_.
     bnd (get_st (\<lambda>s. filter (\<lambda>r. cr_action r = aid) (t_actions (tables s)))) (\<lambda>hit.
     bnd (guard_err (\<exists>r\<in>set hit. \<not> action_checks (f r)) (Sto (ConstraintFailed ''swap_actions''))) (\<lambda>_.
     bnd (mod_st (\<lambda>s. s\<lparr>tables := (tables s)\<lparr>t_actions :=
            update_where (\<lambda>r. cr_action r = aid) f (t_actions (tables s))\<rparr>\<rparr>)) (\<lambda>_.
     guard_err (length hit \<noteq> 1) (Sto (NoSuchAction aid))))))"

definition set_swap_action_confirmation :: "('x, 'z) env_scheme \<Rightarrow> string \<Rightarrow> chain_index option \<Rightarrow> ('x sys, unit) m" where
  "set_swap_action_confirmation E aid index =
     bnd (lift_sum (confirmation_columns index)) (\<lambda>(h, i).
     update_actions E aid (\<lambda>r. r\<lparr>cr_conf_height := h, cr_conf_id := i\<rparr>))"

definition update_swap_action :: "('x, 'z) env_scheme \<Rightarrow> string \<Rightarrow> chain_index \<Rightarrow> v2txn \<Rightarrow> string \<Rightarrow> ('x sys, unit) m" where
  "update_swap_action E aid basis txn last_error =
     bnd (lift_sum (encode_txn E txn)) (\<lambda>raw.
     bnd (lift_sum (sql_uint64 (ci_height basis))) (\<lambda>height.
     update_actions E aid (\<lambda>r. r\<lparr>cr_blob := raw, cr_basis_height := height,
       cr_basis_id := ci_id basis, cr_error := last_error\<rparr>)))"

section \<open>The tables keep their contracts\<close>

interpretation key_tab: primary_key kr_swap key_constraints
  by unfold_locales (auto simp: key_constraints_def)

interpretation swap_tab: primary_key sr_swap "swap_constraints keys" for keys
  by unfold_locales (auto simp: swap_constraints_def)

interpretation contract_tab: primary_key sr_address "swap_constraints keys" for keys
  by unfold_locales (auto simp: swap_constraints_def)

interpretation action_tab: primary_key action_key "action_constraints swaps" for swaps
  by unfold_locales (auto simp: action_constraints_def)

interpretation action_ids: primary_key cr_action "action_constraints swaps" for swaps
  by unfold_locales (auto simp: action_constraints_def)

lemma grow_add_swap_key: "evolves store_le (add_swap_key E k)"
  unfolding add_swap_key_def
  by (intro grow_intros grow_mod) (simp add: tables_le_def)

lemma grow_add_swap: "evolves store_le (add_swap E w)"
  unfolding add_swap_def
  by (intro grow_intros grow_mod) (simp add: tables_le_def)

lemma grow_add_swap_action: "evolves store_le (add_swap_action E c)"
  unfolding add_swap_action_def
  by (intro grow_intros grow_mod) (simp add: tables_le_def)

lemma grow_update_actions:
  assumes "\<And>r. action_identity (f r) = action_identity r"
  shows "evolves store_le (update_actions E aid f)"
  unfolding update_actions_def
  by (intro grow_intros grow_mod) (simp add: tables_le_def map_update_where assms)

lemma grow_set_action_confirmation: "evolves store_le (set_swap_action_confirmation E aid ci)"
  unfolding set_swap_action_confirmation_def
  by (intro grow_intros grow_update_actions) (simp add: action_identity_def)

lemma grow_update_swap_action: "evolves store_le (update_swap_action E aid basis txn err)"
  unfolding update_swap_action_def
  by (intro grow_intros grow_update_actions) (simp add: action_identity_def)

lemma frame_swap_reads:
  "evolves frame (swap_key_get E sid)" "evolves frame (swap_get E sid)"
  "evolves frame (swaps_page E l k)" "evolves frame (swap_action_get E sid kind out)"
  "evolves frame (swap_actions E sid)" "evolves frame (swap_action_candidates E h v)"
  unfolding swap_key_get_def swap_get_def swaps_page_def swap_action_get_def swap_actions_def
    swap_action_candidates_def
  by (intro frame_intros)+

lemmas swap_store_grow = frame_swap_reads [THEN grow_frame] grow_add_swap_key grow_add_swap
  grow_add_swap_action grow_set_action_confirmation grow_update_swap_action

end
