(* ===== verification/Service.thy ===== *)
theory Service
  imports Swap_Store
begin

text \<open>
  \<open>internal/daemon/service.go\<close>, first part: the lock state of the wallet, the validators, the
  allocation of addresses, the outputs that may be spent, the balance and the status; and the
  peer test of \<open>internal/daemon/node.go\<close>.
\<close>

definition max_inputs :: nat where
  "max_inputs = 128"

definition page_size :: nat where
  "page_size = 500"

definition reorg_monitoring_depth :: u64 where
  "reorg_monitoring_depth = 144"

section \<open>The wallet's lock state\<close>

definition wake_rebroadcast :: "('x sys, unit) m" where
  "wake_rebroadcast = mod_st (\<lambda>s. s\<lparr>wake := True\<rparr>)"

definition unlocked :: "('x sys, bool) m" where
  "unlocked = get_st (\<lambda>s. mst_seed s \<noteq> None)"

definition unlock_wallet :: "('x, 'z) env_scheme \<Rightarrow> string \<Rightarrow> ('x sys, unit) m" where
  "unlock_wallet E password =
     bnd (get_st key_path) (\<lambda>path.
     bnd (ext_sum (read_key E path password)) (\<lambda>seed.
     bnd (mod_st (\<lambda>s. s\<lparr>mst_seed := Some seed\<rparr>)) (\<lambda>_.
     wake_rebroadcast)))"

definition lock_wallet :: "('x sys, unit) m" where
  "lock_wallet = mod_st (\<lambda>s. s\<lparr>mst_seed := None\<rparr>)"

definition master_seed :: "('x sys, bytes) m" where
  "master_seed =
     bnd (get_st mst_seed) (\<lambda>m. case m of None \<Rightarrow> fail (Svc WalletLocked) | Some seed \<Rightarrow> ret seed)"

section \<open>Validators\<close>

definition valid_reference :: "string \<Rightarrow> bool" where
  "valid_reference value \<longleftrightarrow>
     \<not> (value = [] \<or> length value > 128) \<and>
     list_all (\<lambda>r. \<not> (r < 0x21 \<or> r > 0x7e)) (runes value)"

definition valid_request_id :: "string \<Rightarrow> bool" where
  "valid_request_id value \<longleftrightarrow>
     \<not> (value = [] \<or> length value > 128) \<and>
     list_all (\<lambda>r. (97 \<le> r \<and> r \<le> 122) \<or> (65 \<le> r \<and> r \<le> 90) \<or> (48 \<le> r \<and> r \<le> 57)
        \<or> r \<in> set (map byte_of ''._:-'')) (runes value)"

definition parse_positive_currency :: "('x, 'z) env_scheme \<Rightarrow> string \<Rightarrow> string \<Rightarrow> error + currency" where
  "parse_positive_currency E value name =
     (if value = [] \<or> length value > 80 then Inl (Svc (IsRequired name))
      else case cur_parse E value of
          Inl _ \<Rightarrow> Inl (Svc (NotPositive name))
        | Inr c \<Rightarrow> if cur_is_zero E c then Inl (Svc (NotPositive name)) else Inr c)"

section \<open>Addresses\<close>

record address_view =
  av_index :: u64
  av_address :: string
  av_reference :: string
  av_kind :: string
  av_created :: gotime

definition view_address :: "('x, 'z) env_scheme \<Rightarrow> addr_rec \<Rightarrow> address_view" where
  "view_address E a = \<lparr>av_index = a_index a, av_address = qaddr_string E (a_address a),
     av_reference = a_reference a, av_kind = a_kind a, av_created = a_created a\<rparr>"

definition addresses :: "('x, 'z) env_scheme \<Rightarrow> int \<Rightarrow> int \<Rightarrow> ('x sys, address_view list \<times> nat) m" where
  "addresses E limit offset =
     bnd (addresses_page E limit offset) (\<lambda>found.
     bnd (address_count E) (\<lambda>count.
     ret (map (view_address E) found, count)))"

definition register_address :: "('x, 'z) env_scheme \<Rightarrow> addr_rec \<Rightarrow> ('x sys, unit) m" where
  "register_address E a =
     (let policy = keys_policy E (a_public a) in
      bnd (get_st (\<lambda>s. n_wallet (the_node s))) (\<lambda>wid.
      ext_err (wm_add_addresses E wid [\<lparr>wa_address = policy_address E policy, wa_policy = policy,
        wa_description = a_reference a\<rparr>])))"

text \<open>\<open>derive.Keys\<close>\<close>

definition derive_keys :: "('x, 'z) env_scheme \<Rightarrow> bytes \<Rightarrow> u64 \<Rightarrow> error + private_keys" where
  "derive_keys E mst index = keys_from_seed E (derive_seed mst index)"

definition derive_swap_keys :: "('x, 'z) env_scheme \<Rightarrow> bytes \<Rightarrow> string \<Rightarrow> error + private_keys" where
  "derive_swap_keys E mst sid = keys_from_seed E (derive_swap_seed mst sid)"

definition new_address :: "('x, 'z) env_scheme \<Rightarrow> string \<Rightarrow> string \<Rightarrow> ('x sys, addr_rec) m" where
  "new_address E ref kind =
     bnd master_seed (\<lambda>mst.
     bnd (next_index E) (\<lambda>index.
     bnd (lift_sum (derive_keys E mst index)) (\<lambda>keys.
     bnd (ext (now E)) (\<lambda>t.
     let a = \<lparr>a_index = index, a_address = keys_address E (pk_public keys), a_public = pk_public keys,
              a_reference = ref, a_kind = kind, a_created = t\<rparr> in
     bnd (add_address E a) (\<lambda>_.
     bnd (register_address E a) (\<lambda>_.
     ret a))))))"

definition new_deposit_address :: "('x, 'z) env_scheme \<Rightarrow> string \<Rightarrow> ('x sys, address_view) m" where
  "new_deposit_address E ref =
     bnd (guard_err (\<not> valid_reference ref) (Svc BadReference)) (\<lambda>_.
     bnd (address_by_reference E ref) (\<lambda>existing. case existing of
       Some a \<Rightarrow> bnd (register_address E a) (\<lambda>_. ret (view_address E a))
     | None \<Rightarrow> bnd (new_address E ref ''deposit'') (\<lambda>a. ret (view_address E a))))"

section \<open>Spendable outputs\<close>

definition pool_spent :: "v2txn list \<Rightarrow> bytes list" where
  "pool_spent pool = concat (map (\<lambda>txn. map (\<lambda>i. se_id (in_parent i)) (tx_inputs txn)) pool)"

definition spend_value :: "('x, 'z) env_scheme \<Rightarrow> cstate \<Rightarrow> siacoin_element \<Rightarrow> currency" where
  "spend_value E cs output = qday_value E cs output (ci_height (cs_index cs) + 2)"

definition spendable_outputs :: "('x, 'z) env_scheme \<Rightarrow> cstate \<Rightarrow> ('x sys, siacoin_element list) m" where
  "spendable_outputs E cs =
     bnd (ext (cm_pool E)) (\<lambda>pool.
     let spent = pool_spent pool in
     bnd (get_st (\<lambda>s. n_wallet (the_node s))) (\<lambda>wid.
     bnd (loop (\<lambda>(offset, result).
       bnd (ext_sum (wm_unspent E wid offset page_size)) (\<lambda>(pg, basis).
       bnd (guard_err (basis \<noteq> cs_index cs) (Svc IndexSynchronizing)) (\<lambda>_.
       let result' = result @ filter (\<lambda>output. se_id output \<notin> set spent \<and>
             \<not> cur_is_zero E (spend_value E cs output)) pg in
       if length pg < page_size then ret (Inr result')
       else ret (Inl (offset + page_size, result'))))) (0, [])) (\<lambda>result.
     bnd (ext (cm_tip E)) (\<lambda>tip.
     bnd (guard_err (tip \<noteq> cs_index cs) (Svc ChainChangedOutputs)) (\<lambda>_.
     ret result)))))"

section \<open>Balance and status\<close>

text \<open>\<open>Amount\<close>: exact atomic units and the display value.\<close>

record amount =
  am_atomic :: string
  am_qday :: string

definition amount_of :: "('x, 'z) env_scheme \<Rightarrow> currency \<Rightarrow> currency \<Rightarrow> amount" where
  "amount_of E v unt = \<lparr>am_atomic = cur_exact E v, am_qday = format_amount E v unt\<rparr>"

definition network_synced :: "('x, 'z) env_scheme \<Rightarrow> ('x sys, bool) m" where
  "network_synced E =
     bnd (get_st the_node) (\<lambda>n.
     if n_development n then ret True
     else if \<not> n_has_syncer n then ret False
     else bnd (ext (sy_peers E)) (\<lambda>peers.
       ret (\<exists>p\<in>set peers. \<not> peer_failed p \<and> peer_synced p)))"

record balance =
  b_height :: u64
  b_synced :: bool
  b_unit :: string
  b_spendable :: amount
  b_immature :: amount
  b_pending :: amount
  b_count :: nat
  b_shield_until :: u64

definition no_amount :: amount where
  "no_amount = \<lparr>am_atomic = [], am_qday = []\<rparr>"

text \<open>When the shield of an output runs out.\<close>

definition shield_expiry :: "cstate \<Rightarrow> siacoin_element \<Rightarrow> u64" where
  "shield_expiry cs output = max (se_maturity output) (cs_qday_height cs) + cs_shield_blocks cs"

text \<open>The loop over the spendable outputs: the sum and the earliest shield expiry.\<close>

definition balance_step :: "('x, 'z) env_scheme \<Rightarrow> cstate \<Rightarrow> siacoin_element \<Rightarrow> currency \<times> u64 \<Rightarrow> ('x sys, currency \<times> u64) m" where
  "balance_step E cs output = (\<lambda>(spendable, shield).
     bnd (lift_panic (cur_add E spendable (qday_value E cs output (ci_height (cs_index cs))))) (\<lambda>spendable'.
     ret (spendable',
       if cs_qday_height cs \<noteq> 0 \<and> (shield = 0 \<or> shield_expiry cs output < shield)
       then shield_expiry cs output else shield)))"

text \<open>The value of the pool outputs that pay a managed address and are not spent in the pool.\<close>

definition pending_step :: "('x, 'z) env_scheme \<Rightarrow> bytes list \<Rightarrow> v2txn \<Rightarrow> currency \<Rightarrow> ('x sys, currency) m" where
  "pending_step E spent txn pending =
     fold_c (\<lambda>(i, output) acc.
       bnd (address_by_hash E (so_address output)) (\<lambda>found.
       if found \<noteq> None \<and> txn_output_id E (txn_id E txn) i \<notin> set spent
       then lift_panic (cur_add E acc (so_value output)) else ret acc))
     (enumerate 0 (tx_outputs txn)) pending"

definition get_balance :: "('x, 'z) env_scheme \<Rightarrow> ('x sys, balance) m" where
  "get_balance E =
     bnd (ext (cm_tip_state E)) (\<lambda>cs.
     bnd (ext_sum (wm_tip E)) (\<lambda>index.
     let unt = qday_units E cs (ci_height (cs_index cs)) in
     bnd (if index = cs_index cs then network_synced E else ret False) (\<lambda>synced.
     let result = \<lparr>b_height = ci_height (cs_index cs), b_synced = synced, b_unit = cur_exact E unt,
         b_spendable = no_amount, b_immature = no_amount, b_pending = no_amount, b_count = 0,
         b_shield_until = 0\<rparr> in
     if index \<noteq> cs_index cs then ret result else
     bnd (spendable_outputs E cs) (\<lambda>outputs.
     bnd (fold_c (balance_step E cs) outputs (0, 0)) (\<lambda>(spendable, shield).
     bnd (get_st (\<lambda>s. n_wallet (the_node s))) (\<lambda>wid.
     bnd (ext_sum (wm_immature E wid)) (\<lambda>immature.
     bnd (ext (cm_pool E)) (\<lambda>pool.
     bnd (fold_c (pending_step E (pool_spent pool)) pool 0) (\<lambda>pending.
     ret (result\<lparr>b_spendable := amount_of E spendable unt, b_immature := amount_of E immature unt,
       b_pending := amount_of E pending unt, b_count := length outputs,
       b_shield_until := shield\<rparr>))))))))))"

record status =
  st_network :: string
  st_genesis :: bytes
  st_height :: u64
  st_scan_height :: u64
  st_synced :: bool
  st_network_synced :: bool
  st_connections :: nat
  st_inbound :: nat
  st_mempool :: nat
  st_unlocked :: bool
  st_addresses :: nat
  st_unit :: string
  st_qday_height :: u64
  st_pq_day :: bool

definition get_status :: "('x, 'z) env_scheme \<Rightarrow> ('x sys, status) m" where
  "get_status E =
     bnd (ext (cm_tip_state E)) (\<lambda>cs.
     bnd (ext_sum (wm_tip E)) (\<lambda>scan.
     bnd (get_st the_node) (\<lambda>n.
     bnd (if n_has_syncer n then ext (sy_peers E) else ret []) (\<lambda>peers.
     let live = filter (\<lambda>p. \<not> peer_failed p) peers in
     bnd (address_count E) (\<lambda>count.
     bnd (if scan = cs_index cs then network_synced E else ret False) (\<lambda>synced.
     bnd (network_synced E) (\<lambda>net.
     bnd (ext (cm_pool E)) (\<lambda>pool.
     bnd unlocked (\<lambda>open.
     ret \<lparr>st_network = cs_network_name cs, st_genesis = n_genesis n, st_height = ci_height (cs_index cs),
          st_scan_height = ci_height scan, st_synced = synced, st_network_synced = net,
          st_connections = length live, st_inbound = length (filter peer_inbound live),
          st_mempool = length pool, st_unlocked = open, st_addresses = count,
          st_unit = cur_exact E (qday_units E cs (ci_height (cs_index cs))),
          st_qday_height = cs_qday_height cs,
          st_pq_day = qday_active E cs (ci_height (cs_index cs))\<rparr>)))))))))"

end
