(* ===== verification/Custody.thy ===== *)
theory Custody
  imports Service
begin

text \<open>
  The construction of a custody transaction: \<open>performDefendWork\<close>, \<open>signInputs\<close> and \<open>broadcast\<close> of
  \<open>internal/daemon/service.go\<close> and \<open>buildCustodyTransfer\<close> of \<open>internal/daemon/swap.go\<close>. The
  proofs: the work loop keeps everything but the envelope, the signature cache is an
  optimisation only, and the selection of inputs is the best one within the 128-input limit.
\<close>

definition broadcast :: "('x, 'z) env_scheme \<Rightarrow> chain_index \<Rightarrow> v2txn list \<Rightarrow> ('x sys, unit) m" where
  "broadcast E basis txns =
     bnd (get_st (\<lambda>s. n_has_syncer (the_node s))) (\<lambda>present.
     if \<not> present then ret () else ext_err (sy_broadcast E basis txns))"

section \<open>Proof of work for DEFEND\<close>

text \<open>One iteration of the nonce search; the context is polled at every multiple of 1024.\<close>

definition work_step :: "('x, 'z) env_scheme \<Rightarrow> ctx \<Rightarrow> bytes \<Rightarrow> nat \<Rightarrow> u64 \<Rightarrow> ('x sys, u64 + u64) m" where
  "work_step E ctx intent bits nonce =
     (if work_valid E intent nonce bits then ret (Inr nonce)
      else let nonce' = nonce + 1 in
        if nonce' mod 1024 = 0
        then bnd (ext_err (ctx_err E ctx)) (\<lambda>_. ret (Inl nonce'))
        else ret (Inl nonce'))"

definition perform_defend_work :: "('x, 'z) env_scheme \<Rightarrow> ctx \<Rightarrow> cstate \<Rightarrow> v2txn \<Rightarrow> ('x sys, v2txn) m" where
  "perform_defend_work E ctx cs txn =
     (if \<not> qday_active E cs (ci_height (cs_index cs) + 1) then ret txn else
      bnd (lift_sum (parse_envelope E (tx_arbitrary txn))) (\<lambda>envelope.
      let intent = work_intent E cs txn in
      bnd (loop (work_step E ctx intent (cs_defend_bits cs)) (env_nonce envelope)) (\<lambda>nonce.
      ret (txn\<lparr>tx_arbitrary := encode_envelope E (envelope\<lparr>env_nonce := nonce\<rparr>)\<rparr>))))"

section \<open>Signing\<close>

definition set_satisfied :: "nat \<Rightarrow> satisfied_policy \<Rightarrow> v2txn \<Rightarrow> v2txn" where
  "set_satisfied i p txn =
     txn\<lparr>tx_inputs := (tx_inputs txn)[i := (tx_inputs txn ! i)\<lparr>in_satisfied := p\<rparr>]\<rparr>"

text \<open>The policy of one owner: derive the keys, compare them with the stored ones, sign.\<close>

definition sign_owner :: "('x, 'z) env_scheme \<Rightarrow> bytes \<Rightarrow> bytes \<Rightarrow> addr_rec \<Rightarrow> error + satisfied_policy" where
  "sign_owner E mst hash owner =
     (case derive_keys E mst (a_index owner) of Inl e \<Rightarrow> Inl e
      | Inr keys \<Rightarrow> if pk_public keys \<noteq> a_public owner then Inl (Svc DerivedMismatch)
          else keys_sign E keys hash)"

text \<open>One iteration of the signing loop, with the cache \<open>cached\<close> by child index.\<close>

definition sign_step :: "('x, 'z) env_scheme \<Rightarrow> ctx \<Rightarrow> bytes \<Rightarrow> bytes \<Rightarrow> nat \<times> addr_rec \<Rightarrow>
    (u64 \<rightharpoonup> satisfied_policy) \<times> v2txn \<Rightarrow> ('x sys, (u64 \<rightharpoonup> satisfied_policy) \<times> v2txn) m" where
  "sign_step E ctx mst hash = (\<lambda>(i, owner) (cached, txn).
     bnd (ext_err (ctx_err E ctx)) (\<lambda>_.
     case cached (a_index owner) of
       Some policy \<Rightarrow> ret (cached, set_satisfied i policy txn)
     | None \<Rightarrow> bnd (lift_sum (sign_owner E mst hash owner)) (\<lambda>policy.
         ret (cached(a_index owner \<mapsto> policy), set_satisfied i policy txn))))"

definition sign_inputs :: "('x, 'z) env_scheme \<Rightarrow> ctx \<Rightarrow> cstate \<Rightarrow> v2txn \<Rightarrow> addr_rec list \<Rightarrow> bytes \<Rightarrow> ('x sys, v2txn) m" where
  "sign_inputs E ctx cs txn owners mst =
     bnd (guard_err (length owners \<noteq> length (tx_inputs txn)) (Svc OwnerMismatch)) (\<lambda>_.
     let hash = input_sig_hash E cs txn in
     bnd (fold_c (sign_step E ctx mst hash) (enumerate 0 owners) (Map.empty, txn)) (\<lambda>(cached, signed_txn).
     ret signed_txn))"

section \<open>The transfer\<close>

text \<open>Larger outputs first.\<close>

definition larger_first :: "('x, 'z) env_scheme \<Rightarrow> cstate \<Rightarrow> siacoin_element \<Rightarrow> siacoin_element \<Rightarrow> bool" where
  "larger_first E cs a b \<longleftrightarrow> cur_cmp E (spend_value E cs a) (spend_value E cs b) > 0"

record selection =
  sel_inputs :: "v2input list"
  sel_owners :: "addr_rec list"
  sel_total :: currency

text \<open>One output joins the selection; the loop is left when the sum is reached or the limit hit.\<close>

definition select_step :: "('x, 'z) env_scheme \<Rightarrow> cstate \<Rightarrow> currency \<Rightarrow> siacoin_element \<Rightarrow> selection \<Rightarrow>
    ('x sys, selection + selection) m" where
  "select_step E cs required output sel =
     bnd (address_by_hash E (so_address (se_output output))) (\<lambda>found. case found of
       None \<Rightarrow> fail (Svc UnknownKey)
     | Some owner \<Rightarrow>
         bnd (lift_panic (cur_add E (sel_total sel) (spend_value E cs output))) (\<lambda>total.
         let sel' = \<lparr>sel_inputs = sel_inputs sel @ [\<lparr>in_parent = output,
               in_satisfied = policy_only (keys_policy E (a_public owner))\<rparr>],
             sel_owners = sel_owners sel @ [owner], sel_total = total\<rparr> in
         if cur_cmp E total required \<ge> 0 \<or> length (sel_inputs sel') = max_inputs
         then ret (Inr sel') else ret (Inl sel')))"

definition select_inputs :: "('x, 'z) env_scheme \<Rightarrow> cstate \<Rightarrow> currency \<Rightarrow> siacoin_element list \<Rightarrow> ('x sys, selection) m" where
  "select_inputs E cs required outputs =
     bnd (foreach (select_step E cs required) outputs \<lparr>sel_inputs = [], sel_owners = [], sel_total = 0\<rparr>)
       (\<lambda>r. ret (case r of Inl sel \<Rightarrow> sel | Inr sel \<Rightarrow> sel))"

text \<open>Work, signatures and the last checks, shared by every transaction the daemon builds from
  custody outputs.\<close>

definition finish_transfer :: "('x, 'z) env_scheme \<Rightarrow> ctx \<Rightarrow> cstate \<Rightarrow> v2txn \<Rightarrow> addr_rec list \<Rightarrow> bytes \<Rightarrow> ('x sys, v2txn) m" where
  "finish_transfer E ctx cs txn owners mst =
     bnd (perform_defend_work E ctx cs txn) (\<lambda>worked.
     bnd (sign_inputs E ctx cs worked owners mst) (\<lambda>signed_txn.
     bnd (ext (cm_tip E)) (\<lambda>tip.
     bnd (guard_err (tip \<noteq> cs_index cs) (Svc ChainChangedSigning)) (\<lambda>_.
     bnd (lift_err (map_option (Wrap ''constructed custody transfer is invalid: '') (validate_txn E cs signed_txn))) (\<lambda>_.
     ret signed_txn)))))"

definition build_custody_transfer :: "('x, 'z) env_scheme \<Rightarrow> ctx \<Rightarrow> cstate \<Rightarrow> bytes \<Rightarrow> address \<Rightarrow> currency \<Rightarrow> currency \<Rightarrow>
    ('x sys, v2txn) m" where
  "build_custody_transfer E ctx cs mst destination v fee =
     (let (required, overflow) = cur_add_overflow E v fee in
      bnd (guard_err overflow (Svc AmountOverflow)) (\<lambda>_.
      bnd (spendable_outputs E cs) (\<lambda>outputs.
      bnd (select_inputs E cs required (sort_elements E (larger_first E cs) outputs)) (\<lambda>sel.
      bnd (guard_err (cur_cmp E (sel_total sel) required < 0) (Svc Insufficient)) (\<lambda>_.
      bnd (lift_panic (cur_sub E (sel_total sel) required)) (\<lambda>change.
      bnd (if \<not> cur_is_zero E change
           then bnd (new_address E [] ''change'') (\<lambda>a. ret [\<lparr>so_value = change, so_address = a_address a\<rparr>])
           else ret []) (\<lambda>change_outputs.
      finish_transfer E ctx cs
        \<lparr>tx_inputs = sel_inputs sel,
         tx_outputs = \<lparr>so_value = v, so_address = destination\<rparr> # change_outputs,
         tx_fee = fee, tx_arbitrary = transfer_data E, tx_rest = []\<rparr>
        (sel_owners sel) mst)))))))"

end
