(* ===== verification/Withdrawals.thy ===== *)
theory Withdrawals
  imports Custody
begin

text \<open>
  \<open>internal/daemon/service.go\<close>, second part: the withdrawals (\<open>CreateWithdrawal\<close>, the view of a
  journal row, the listings) and the deposits read from the wallet's event history.
\<close>

section \<open>Submitting a transaction\<close>

text \<open>The pool first, then the peers; having no peers is not an error. The result is the
  \<open>LastError\<close> the callers store.\<close>

definition submit :: "('x, 'z) env_scheme \<Rightarrow> chain_index \<Rightarrow> v2txn \<Rightarrow> ('x sys, string option) m" where
  "submit E basis txn =
     bnd (attempt (ext_err (cm_add_pool E basis [txn]))) (\<lambda>r. case r of
       Inl e \<Rightarrow> ret (Some (error_text (driver_text E) e))
     | Inr _ \<Rightarrow> bnd (attempt (broadcast E basis [txn])) (\<lambda>r. case r of
         Inl e \<Rightarrow> ret (if is_no_peers e then None else Some (error_text (driver_text E) e))
       | Inr _ \<Rightarrow> ret None))"

section \<open>The view of a withdrawal\<close>

record withdrawal_view =
  wv_request :: string
  wv_kind :: string
  wv_txn :: string
  wv_destination :: string
  wv_amount :: amount
  wv_fee :: amount
  wv_basis :: string
  wv_status :: string
  wv_confirmations :: u64
  wv_height :: "u64 option"
  wv_block :: string
  wv_created :: gotime
  wv_error :: string

definition queued_view :: "('x, 'z) env_scheme \<Rightarrow> currency \<Rightarrow> withdrawal \<Rightarrow> withdrawal_view" where
  "queued_view E unt w =
     \<lparr>wv_request = w_request w, wv_kind = w_kind w, wv_txn = id_string E (txn_id E (w_txn w)),
      wv_destination = qaddr_string E (w_destination w), wv_amount = amount_of E (w_amount w) unt,
      wv_fee = amount_of E (w_fee w) unt, wv_basis = index_string E (w_basis w), wv_status = ''queued'',
      wv_confirmations = 0, wv_height = None, wv_block = [], wv_created = w_created w, wv_error = w_error w\<rparr>"

definition confirmed_view :: "('x, 'z) env_scheme \<Rightarrow> chain_index \<Rightarrow> u64 \<Rightarrow> withdrawal_view \<Rightarrow> withdrawal_view" where
  "confirmed_view E index confirmations view =
     view\<lparr>wv_status := ''confirmed'', wv_confirmations := confirmations,
       wv_height := Some (ci_height index), wv_block := block_id_string E (ci_id index), wv_error := []\<rparr>"

text \<open>Whether a stored confirmation is still on the best chain.\<close>

definition still_best :: "('x, 'z) env_scheme \<Rightarrow> chain_index option \<Rightarrow> ('x sys, bool) m" where
  "still_best E confirmed =
     (case confirmed of None \<Rightarrow> ret False
      | Some ci \<Rightarrow> bnd (ext (cm_best_index E (ci_height ci))) (\<lambda>best. ret (best = Some ci)))"

definition view_withdrawal :: "('x, 'z) env_scheme \<Rightarrow> withdrawal \<Rightarrow> ('x sys, withdrawal_view) m" where
  "view_withdrawal E w =
     bnd (ext (cm_tip_state E)) (\<lambda>cs.
     let view = queued_view E (qday_units E cs (ci_height (cs_index cs))) w in
     bnd (ext_sum (wm_events E [txn_id E (w_txn w)])) (\<lambda>events. case events of
       ev # _ \<Rightarrow> ret (confirmed_view E (ev_index ev) (ev_confirmations ev) view)
     | [] \<Rightarrow>
       bnd (still_best E (w_confirmed w)) (\<lambda>still.
       case (if still then w_confirmed w else None) of
         Some ci \<Rightarrow> ret (confirmed_view E ci (1 + ci_height (cs_index cs) - ci_height ci) view)
       | None \<Rightarrow>
         bnd (ext (cm_pool E)) (\<lambda>pool.
         ret (if \<exists>txn\<in>set pool. txn_id E txn = txn_id E (w_txn w)
              then view\<lparr>wv_status := ''mempool'', wv_error := []\<rparr>
              else if w_error w \<noteq> [] then view\<lparr>wv_status := ''retrying''\<rparr> else view)))))"

definition get_withdrawal :: "('x, 'z) env_scheme \<Rightarrow> string \<Rightarrow> ('x sys, withdrawal_view option) m" where
  "get_withdrawal E rid =
     bnd (withdrawal_get E rid) (\<lambda>found. case found of
       None \<Rightarrow> ret None
     | Some w \<Rightarrow> bnd (view_withdrawal E w) (\<lambda>view. ret (Some view)))"

definition get_withdrawals :: "('x, 'z) env_scheme \<Rightarrow> int \<Rightarrow> int \<Rightarrow> ('x sys, withdrawal_view list) m" where
  "get_withdrawals E limit offset =
     bnd (withdrawals_page E limit offset) (map_c (view_withdrawal E))"

section \<open>Creating a withdrawal\<close>

record withdrawal_request =
  rq_id :: string
  rq_destination :: string
  rq_amount :: string
  rq_fee :: string
  rq_unit :: string

text \<open>The default fee, when the request names none.\<close>

definition default_fee :: "('x, 'z) env_scheme \<Rightarrow> string \<Rightarrow> error + currency" where
  "default_fee E value = (if value = [] then Inr (fee_default E) else parse_positive_currency E value ''feeAtomic'')"

definition parse_destination :: "('x, 'z) env_scheme \<Rightarrow> string \<Rightarrow> error + address" where
  "parse_destination E value =
     (case parse_qaddr E value of Inl e \<Rightarrow> Inl (Wrap ''invalid destination: '' e) | Inr a \<Rightarrow> Inr a)"

text \<open>The chain state a new transaction is built on: unlocked, synchronized and in the
  denomination the caller expects.\<close>

definition synced_state :: "('x, 'z) env_scheme \<Rightarrow> ('x sys, cstate) m" where
  "synced_state E =
     bnd (network_synced E) (\<lambda>synced.
     bnd (guard_err (\<not> synced) (Svc NoSynchronizedPeer)) (\<lambda>_.
     bnd (ext (cm_tip_state E)) (\<lambda>cs.
     bnd (ext_sum (wm_tip E)) (\<lambda>scan.
     bnd (guard_err (scan \<noteq> cs_index cs) (Svc IndexSynchronizing)) (\<lambda>_.
     ret cs)))))"

definition ready_state :: "('x, 'z) env_scheme \<Rightarrow> ('x sys, bytes \<times> cstate) m" where
  "ready_state E = bnd master_seed (\<lambda>mst. bnd (synced_state E) (\<lambda>cs. ret (mst, cs)))"

definition check_unit :: "('x, 'z) env_scheme \<Rightarrow> cstate \<Rightarrow> string \<Rightarrow> ('x sys, unit) m" where
  "check_unit E cs expected =
     guard_err (expected = [] \<or> expected \<noteq> cur_exact E (qday_units E cs (ci_height (cs_index cs)))) (Svc WrongUnit)"

text \<open>The journal row is written before the transaction leaves the daemon.\<close>

definition journal_withdrawal :: "('x, 'z) env_scheme \<Rightarrow> withdrawal \<Rightarrow> ('x sys, withdrawal) m" where
  "journal_withdrawal E w =
     bnd (add_withdrawal E w) (\<lambda>_.
     bnd (submit E (w_basis w) (w_txn w)) (\<lambda>failure.
     case failure of None \<Rightarrow> ret w
     | Some text \<Rightarrow> bnd (attempt (update_withdrawal E (w_request w) (w_basis w) (w_txn w) text))
         (\<lambda>_. ret (w\<lparr>w_error := text\<rparr>))))"

definition create_withdrawal :: "('x, 'z) env_scheme \<Rightarrow> ctx \<Rightarrow> withdrawal_request \<Rightarrow> ('x sys, withdrawal_view \<times> bool) m" where
  "create_withdrawal E ctx rq =
     bnd (guard_err (\<not> valid_request_id (rq_id rq)) (Svc BadRequestID)) (\<lambda>_.
     bnd (lift_sum (parse_destination E (rq_destination rq))) (\<lambda>destination.
     bnd (lift_sum (parse_positive_currency E (rq_amount rq) ''amountAtomic'')) (\<lambda>v.
     bnd (lift_sum (default_fee E (rq_fee rq))) (\<lambda>fee.
     bnd (withdrawal_get E (rq_id rq)) (\<lambda>existing. case existing of
       Some w \<Rightarrow>
         bnd (guard_err (w_destination w \<noteq> destination \<or> w_amount w \<noteq> v \<or> w_fee w \<noteq> fee)
           (Svc BoundWithdrawal)) (\<lambda>_.
         bnd (view_withdrawal E w) (\<lambda>view. ret (view, False)))
     | None \<Rightarrow>
         bnd (ready_state E) (\<lambda>(mst, cs).
         bnd (check_unit E cs (rq_unit rq)) (\<lambda>_.
         bnd (build_custody_transfer E ctx cs mst destination v fee) (\<lambda>txn.
         bnd (ext (now E)) (\<lambda>created.
         bnd (journal_withdrawal E \<lparr>w_request = rq_id rq, w_kind = ''withdrawal'', w_txn = txn,
           w_basis = cs_index cs, w_confirmed = None, w_destination = destination, w_amount = v,
           w_fee = fee, w_created = created, w_error = []\<rparr>) (\<lambda>w.
         bnd wake_rebroadcast (\<lambda>_.
         bnd (view_withdrawal E w) (\<lambda>view. ret (view, True)))))))))))))"

section \<open>Deposits\<close>

record deposit =
  dp_id :: string
  dp_type :: string
  dp_event :: string
  dp_txn :: string
  dp_output :: "nat option"
  dp_address :: string
  dp_reference :: string
  dp_amount :: amount
  dp_height :: u64
  dp_block :: string
  dp_confirmations :: u64
  dp_maturity :: u64
  dp_time :: gotime
  dp_creditable :: bool

text \<open>The descriptor of an output of an event that pays the deposit address \<open>a\<close>.\<close>

definition event_deposit :: "('x, 'z) env_scheme \<Rightarrow> currency \<Rightarrow> event \<Rightarrow> string \<Rightarrow> string \<Rightarrow> nat option \<Rightarrow>
    addr_rec \<Rightarrow> currency \<Rightarrow> bool \<Rightarrow> deposit" where
  "event_deposit E unt ev did txn out a v creditable =
     \<lparr>dp_id = did, dp_type = ev_type ev, dp_event = hash_string E (ev_id ev), dp_txn = txn, dp_output = out,
      dp_address = qaddr_string E (a_address a), dp_reference = a_reference a,
      dp_amount = amount_of E v unt, dp_height = ci_height (ev_index ev),
      dp_block = block_id_string E (ci_id (ev_index ev)), dp_confirmations = ev_confirmations ev,
      dp_maturity = ev_maturity ev, dp_time = ev_timestamp ev, dp_creditable = creditable\<rparr>"

text \<open>Whether some input spends an output of the wallet: the loop stops at the first.\<close>

definition own_step :: "('x, 'z) env_scheme \<Rightarrow> v2input \<Rightarrow> unit \<Rightarrow> ('x sys, unit + unit) m" where
  "own_step E input _ =
     bnd (address_by_hash E (so_address (se_output (in_parent input)))) (\<lambda>found.
     ret (if found \<noteq> None then Inr () else Inl ()))"

definition spends_own :: "('x, 'z) env_scheme \<Rightarrow> v2txn \<Rightarrow> ('x sys, bool) m" where
  "spends_own E txn = bnd (foreach (own_step E) (tx_inputs txn) ()) (\<lambda>r. ret (r = Inr ()))"

text \<open>One output of the transaction with the identifier \<open>did\<close>.\<close>

definition output_step :: "('x, 'z) env_scheme \<Rightarrow> currency \<Rightarrow> event \<Rightarrow> string \<Rightarrow> bool \<Rightarrow> nat \<times> siacoin_output \<Rightarrow>
    deposit list \<Rightarrow> ('x sys, deposit list) m" where
  "output_step E unt ev did internal = (\<lambda>(i, output) acc.
     bnd (address_by_hash E (so_address output)) (\<lambda>found. case found of
       None \<Rightarrow> ret acc
     | Some a \<Rightarrow> if a_kind a \<noteq> ''deposit'' then ret acc
         else ret (acc @ [event_deposit E unt ev (did @ '':'' @ decimal_digits i) did (Some i) a
           (so_value output) (\<not> internal)])))"

definition txn_deposits :: "('x, 'z) env_scheme \<Rightarrow> currency \<Rightarrow> event \<Rightarrow> v2txn \<Rightarrow> deposit list \<Rightarrow> ('x sys, deposit list) m" where
  "txn_deposits E unt ev txn acc =
     bnd (spends_own E txn) (\<lambda>internal.
     fold_c (output_step E unt ev (id_string E (txn_id E txn)) internal) (enumerate 0 (tx_outputs txn)) acc)"

text \<open>The event loop is left once the limit is reached; a payout that is no deposit goes on
  without asking.\<close>

definition next_event :: "nat \<Rightarrow> deposit list \<Rightarrow> nat \<Rightarrow> (deposit list \<times> nat) + (deposit list \<times> nat)" where
  "next_event limit acc offset = (if limit \<le> length acc then Inr (acc, offset) else Inl (acc, offset))"

definition after_payout :: "('x, 'z) env_scheme \<Rightarrow> nat \<Rightarrow> currency \<Rightarrow> event \<Rightarrow> siacoin_output \<Rightarrow> deposit list \<Rightarrow> nat \<Rightarrow>
    addr_rec option \<Rightarrow> (deposit list \<times> nat) + (deposit list \<times> nat)" where
  "after_payout E limit unt ev output acc offset found = (case found of
     None \<Rightarrow> Inl (acc, offset)
   | Some a \<Rightarrow> if a_kind a \<noteq> ''deposit'' then Inl (acc, offset)
       else next_event limit (acc @ [event_deposit E unt ev (hash_string E (ev_id ev)) [] None a
         (so_value output) True]) offset)"

definition event_step :: "('x, 'z) env_scheme \<Rightarrow> cstate \<Rightarrow> nat \<Rightarrow> event \<Rightarrow> deposit list \<times> nat \<Rightarrow>
    ('x sys, (deposit list \<times> nat) + (deposit list \<times> nat)) m" where
  "event_step E cs limit ev = (\<lambda>(acc, offset).
     let unt = qday_units E cs (ci_height (ev_index ev)) in
     case ev_data ev of
       EventV2Transaction txn \<Rightarrow> bnd (txn_deposits E unt ev txn acc) (\<lambda>acc'. ret (next_event limit acc' (offset + 1)))
     | EventPayout el \<Rightarrow> bnd (address_by_hash E (so_address (se_output el))) (\<lambda>found.
         ret (after_payout E limit unt ev (se_output el) acc (offset + 1) found))
     | EventOther \<Rightarrow> ret (next_event limit acc (offset + 1)))"

text \<open>One page of events; the outer loop goes on while the limit is not reached and the page was
  full.\<close>

definition page_step :: "('x, 'z) env_scheme \<Rightarrow> cstate \<Rightarrow> nat \<Rightarrow> deposit list \<times> nat \<Rightarrow>
    ('x sys, (deposit list \<times> nat) + (deposit list \<times> nat)) m" where
  "page_step E cs limit = (\<lambda>(acc, offset).
     if limit \<le> length acc then ret (Inr (acc, offset)) else
     bnd (get_st (\<lambda>s. n_wallet (the_node s))) (\<lambda>wid.
     bnd (ext_sum (wm_wallet_events E wid offset (min page_size (limit * 2)))) (\<lambda>events.
     if events = [] then ret (Inr (acc, offset)) else
     bnd (foreach (event_step E cs limit) events (acc, offset)) (\<lambda>r.
     let r' = (case r of Inl x \<Rightarrow> x | Inr x \<Rightarrow> x) in
     ret (if length events < min page_size (limit * 2) then Inr r' else Inl r')))))"

definition get_deposits :: "('x, 'z) env_scheme \<Rightarrow> int \<Rightarrow> int \<Rightarrow> ('x sys, deposit list \<times> nat) m" where
  "get_deposits E limit event_offset =
     bnd (guard_err (limit < 1 \<or> limit > 200 \<or> event_offset < 0) (Svc BadDepositPage)) (\<lambda>_.
     bnd (ext (cm_tip_state E)) (\<lambda>cs.
     bnd (ext_sum (wm_tip E)) (\<lambda>scan.
     bnd (guard_err (scan \<noteq> cs_index cs) (Svc IndexSynchronizing)) (\<lambda>_.
     bnd (loop (page_step E cs (nat limit)) ([], nat event_offset)) (\<lambda>(deposits, offset).
     bnd (ext_sum (wm_tip E)) (\<lambda>end_scan.
     bnd (if end_scan \<noteq> scan then ret True else bnd (ext (cm_tip E)) (\<lambda>tip. ret (tip \<noteq> cs_index cs))) (\<lambda>changed.
     bnd (guard_err changed (Svc ChainChangedDeposits)) (\<lambda>_.
     ret (deposits, offset)))))))))"

end
