(* ===== verification/Swaps.thy ===== *)
theory Swaps
  imports Withdrawals "HOL-Library.AList"
begin

text \<open>
  \<open>internal/daemon/swap.go\<close>: atomic swaps. Session keys, the registration of a contract, funding
  it from custody, claiming or refunding one of its outputs, and the view of a swap that is read
  back from the chain: every output that ever paid the contract, how it was spent, and the secret
  a claim revealed.
\<close>

section \<open>Keys and contracts\<close>

record swap_keys_view =
  kv_classical :: string
  kv_reserve :: string
  kv_address :: string

definition view_swap_keys :: "('x, 'z) env_scheme \<Rightarrow> qkeys \<Rightarrow> swap_keys_view" where
  "view_swap_keys E keys = \<lparr>kv_classical = hex_encode (classical keys), kv_reserve = hex_encode (reserve keys),
     kv_address = qaddr_string E (keys_address E keys)\<rparr>"

text \<open>32 bytes in lower-case hexadecimal: \<open>parseHash\<close>, and the local \<open>decode\<close> of
  \<open>parseSwapKeys\<close>.\<close>

definition parse_hash :: "string \<Rightarrow> string \<Rightarrow> error + bytes" where
  "parse_hash name v =
     (if length v \<noteq> 64 \<or> v \<noteq> to_lower v then Inl (Swp (NotHex name))
      else case hex_decode v of None \<Rightarrow> Inl (Swp (NotHex name))
        | Some raw \<Rightarrow> if length raw \<noteq> 32 then Inl (Swp (NotHex name)) else Inr raw)"

definition parse_swap_keys :: "('x, 'z) env_scheme \<Rightarrow> string \<Rightarrow> swap_keys_view \<Rightarrow> error + qkeys" where
  "parse_swap_keys E name view =
     (case parse_hash (name @ ''.classical'') (kv_classical view) of Inl e \<Rightarrow> Inl e | Inr c \<Rightarrow>
      case parse_hash (name @ ''.reserve'') (kv_reserve view) of Inl e \<Rightarrow> Inl e | Inr r \<Rightarrow>
      let keys = \<lparr>classical = c, reserve = r\<rparr> in
      case keys_validate E keys of Some e \<Rightarrow> Inl (Wrap (name @ '': '') e) | None \<Rightarrow>
      if kv_address view \<noteq> [] \<and> kv_address view \<noteq> qaddr_string E (keys_address E keys)
      then Inl (Swp (AddressMismatch name)) else Inr keys)"

definition swap_contract_of :: "swap \<Rightarrow> swap_contract" where
  "swap_contract_of sw = \<lparr>sc_recipient = s_recipient sw, sc_refund = s_refund sw,
     sc_secret_hash = s_secret_hash sw, sc_refund_height = s_refund_height sw\<rparr>"

record swap_key_view =
  sk_swap :: string
  sk_keys :: swap_keys_view
  sk_created :: gotime

definition view_swap_key :: "('x, 'z) env_scheme \<Rightarrow> swap_key \<Rightarrow> swap_key_view" where
  "view_swap_key E k = \<lparr>sk_swap = k_swap k, sk_keys = view_swap_keys E (k_public k), sk_created = k_created k\<rparr>"

definition create_swap_keys :: "('x, 'z) env_scheme \<Rightarrow> string \<Rightarrow> ('x sys, swap_key_view \<times> bool) m" where
  "create_swap_keys E sid =
     bnd (guard_err (\<not> valid_request_id sid) (Swp BadSwapID)) (\<lambda>_.
     bnd (swap_key_get E sid) (\<lambda>existing. case existing of
       Some k \<Rightarrow> ret (view_swap_key E k, False)
     | None \<Rightarrow>
         bnd master_seed (\<lambda>mst.
         bnd (lift_sum (derive_swap_keys E mst sid)) (\<lambda>keys.
         bnd (ext (now E)) (\<lambda>t.
         let k = \<lparr>k_swap = sid, k_public = pk_public keys, k_created = t\<rparr> in
         bnd (add_swap_key E k) (\<lambda>_.
         ret (view_swap_key E k, True)))))))"

section \<open>The view of an action\<close>

record swap_action_view =
  xv_action :: string
  xv_kind :: string
  xv_output :: string
  xv_txn :: string
  xv_destination :: string
  xv_amount :: amount
  xv_fee :: amount
  xv_basis :: string
  xv_status :: string
  xv_confirmations :: u64
  xv_height :: "u64 option"
  xv_block :: string
  xv_created :: gotime
  xv_error :: string

definition queued_action :: "('x, 'z) env_scheme \<Rightarrow> currency \<Rightarrow> swap_action \<Rightarrow> swap_action_view" where
  "queued_action E unt c =
     \<lparr>xv_action = c_action c, xv_kind = c_kind c, xv_output = c_output c, xv_txn = id_string E (txn_id E (c_txn c)),
      xv_destination = qaddr_string E (c_destination c), xv_amount = amount_of E (c_amount c) unt,
      xv_fee = amount_of E (c_fee c) unt, xv_basis = index_string E (c_basis c), xv_status = ''queued'',
      xv_confirmations = 0, xv_height = None, xv_block = [], xv_created = c_created c, xv_error = c_error c\<rparr>"

definition view_swap_action :: "('x, 'z) env_scheme \<Rightarrow> swap_action \<Rightarrow> ('x sys, swap_action_view) m" where
  "view_swap_action E c =
     bnd (ext (cm_tip_state E)) (\<lambda>cs.
     let view = queued_action E (qday_units E cs (ci_height (cs_index cs))) c in
     bnd (ext_sum (wm_events E [txn_id E (c_txn c)])) (\<lambda>events. case events of
       ev # _ \<Rightarrow> ret (view\<lparr>xv_status := ''confirmed'', xv_confirmations := ev_confirmations ev,
         xv_height := Some (ci_height (ev_index ev)), xv_block := block_id_string E (ci_id (ev_index ev)), xv_error := []\<rparr>)
     | [] \<Rightarrow>
       bnd (ext (cm_pool E)) (\<lambda>pool.
       ret (if \<exists>txn\<in>set pool. txn_id E txn = txn_id E (c_txn c)
            then view\<lparr>xv_status := ''mempool'', xv_error := []\<rparr>
            else if c_error c \<noteq> [] then view\<lparr>xv_status := ''retrying''\<rparr> else view))))"

section \<open>How an output was spent\<close>

text \<open>The last branch of the outer threshold that is not opaque.\<close>

fun revealed_branch :: "policy list \<Rightarrow> policy" where
  "revealed_branch [] = PolicyNil"
| "revealed_branch (p # ps) =
     (if list_all (\<lambda>q. case q of PolicyOpaque _ \<Rightarrow> True | _ \<Rightarrow> False) ps
      then (case p of PolicyOpaque _ \<Rightarrow> PolicyNil | _ \<Rightarrow> p) else revealed_branch ps)"

definition classify_lock :: "swap_contract \<Rightarrow> bytes list \<Rightarrow> policy \<Rightarrow> string \<times> string" where
  "classify_lock contract preimages lck = (case lck of
     PolicyHash h \<Rightarrow>
       if h \<noteq> sc_secret_hash contract then (''unknown'', [])
       else if preimages = [] then (''claim'', [])
       else if sha256 (last preimages) = sc_secret_hash contract then (''claim'', hex_encode (last preimages))
       else (''claim'', [])
   | PolicyAbove h \<Rightarrow> if h \<noteq> sc_refund_height contract then (''unknown'', []) else (''refund'', [])
   | _ \<Rightarrow> (''unknown'', []))"

definition classify_swap_spend :: "('x, 'z) env_scheme \<Rightarrow> swap_contract \<Rightarrow> v2input \<Rightarrow> string \<times> string" where
  "classify_swap_spend E contract input =
     (let spent = sp_policy (in_satisfied input) in
      case contract_policy E contract of
        Inl _ \<Rightarrow> (''unknown'', [])
      | Inr full \<Rightarrow>
          if policy_address E spent \<noteq> policy_address E full \<or> \<not> is_swap_spend_policy E spent
          then (''unknown'', [])
          else (case spent of
            PolicyThreshold n ofs \<Rightarrow>
              if n \<noteq> 1 \<or> length ofs \<noteq> 2 then (''unknown'', [])
              else (case revealed_branch ofs of
                PolicyThreshold k inner \<Rightarrow>
                  if k \<noteq> 3 \<or> length inner \<noteq> 3 then (''unknown'', [])
                  else classify_lock contract (sp_preimages (in_satisfied input)) (inner ! 2)
              | _ \<Rightarrow> (''unknown'', []))
          | _ \<Rightarrow> (''unknown'', [])))"

section \<open>The outputs of a contract\<close>

record swap_output_view =
  ov_id :: string
  ov_value :: amount
  ov_spendable :: "amount option"
  ov_maturity :: u64
  ov_funding_txn :: string
  ov_funding_height :: "u64 option"
  ov_confirmations :: u64
  ov_status :: string
  ov_spend_txn :: string
  ov_spend_height :: "u64 option"
  ov_secret :: string

record observed_output =
  oo_view :: swap_output_view
  oo_confirmed :: bool
  oo_spent :: bool

text \<open>The Go map from output identifiers.\<close>

type_synonym observed_map = "(string \<times> observed_output) list"

definition atomic_amount :: "('x, 'z) env_scheme \<Rightarrow> currency \<Rightarrow> amount" where
  "atomic_amount E v = \<lparr>am_atomic = cur_exact E v, am_qday = []\<rparr>"

definition funding_view :: "('x, 'z) env_scheme \<Rightarrow> event \<Rightarrow> bool \<Rightarrow> bytes \<Rightarrow> string \<Rightarrow> siacoin_output \<Rightarrow> swap_output_view" where
  "funding_view E ev confirmed txid did output =
     \<lparr>ov_id = did, ov_value = atomic_amount E (so_value output), ov_spendable = None,
      ov_maturity = ev_maturity ev, ov_funding_txn = id_string E txid,
      ov_funding_height = (if confirmed then Some (ci_height (ev_index ev)) else None),
      ov_confirmations = ev_confirmations ev, ov_status = (if confirmed then ''funded'' else ''funding''),
      ov_spend_txn = [], ov_spend_height = None, ov_secret = []\<rparr>"

definition observe_funding :: "('x, 'z) env_scheme \<Rightarrow> swap \<Rightarrow> event \<Rightarrow> bool \<Rightarrow> bytes \<Rightarrow> nat \<times> siacoin_output \<Rightarrow>
    observed_map \<Rightarrow> observed_map" where
  "observe_funding E sw ev confirmed txid = (\<lambda>(i, output) outputs.
     if so_address output \<noteq> s_address sw then outputs
     else let did = output_id_string E (txn_output_id E txid i) in
       if (case map_of outputs did of None \<Rightarrow> True | Some o0 \<Rightarrow> confirmed \<and> \<not> oo_confirmed o0)
       then AList.update did \<lparr>oo_view = funding_view E ev confirmed txid did output,
              oo_confirmed = confirmed, oo_spent = False\<rparr> outputs
       else outputs)"

text \<open>An output whose funding was not seen yet.\<close>

definition bare_output :: "('x, 'z) env_scheme \<Rightarrow> string \<Rightarrow> currency \<Rightarrow> observed_output" where
  "bare_output E did v =
     \<lparr>oo_view = \<lparr>ov_id = did, ov_value = atomic_amount E v, ov_spendable = None, ov_maturity = 0,
        ov_funding_txn = [], ov_funding_height = None, ov_confirmations = 0, ov_status = [],
        ov_spend_txn = [], ov_spend_height = None, ov_secret = []\<rparr>,
      oo_confirmed = False, oo_spent = False\<rparr>"

definition spent_view :: "('x, 'z) env_scheme \<Rightarrow> event \<Rightarrow> bool \<Rightarrow> bytes \<Rightarrow> string \<times> string \<Rightarrow> swap_output_view \<Rightarrow> swap_output_view" where
  "spent_view E ev confirmed txid = (\<lambda>(kind, secret) v.
     let v' = v\<lparr>ov_status := (if kind = ''unknown'' then ''spending'' else kind @ ''ing''),
       ov_spend_txn := id_string E txid, ov_secret := secret\<rparr> in
     if confirmed then v'\<lparr>ov_status := (if kind = ''unknown'' then ''spent'' else kind @ ''ed''),
       ov_spend_height := Some (ci_height (ev_index ev))\<rparr> else v')"

definition observe_spend :: "('x, 'z) env_scheme \<Rightarrow> swap \<Rightarrow> event \<Rightarrow> bool \<Rightarrow> bytes \<Rightarrow> v2input \<Rightarrow> observed_map \<Rightarrow> observed_map" where
  "observe_spend E sw ev confirmed txid input outputs =
     (let output = se_output (in_parent input) in
      if so_address output \<noteq> s_address sw then outputs
      else let did = output_id_string E (se_id (in_parent input));
          o0 = (case map_of outputs did of None \<Rightarrow> bare_output E did (so_value output) | Some o0 \<Rightarrow> o0) in
        if oo_spent o0 \<and> \<not> confirmed then AList.update did o0 outputs
        else AList.update did (o0\<lparr>oo_spent := True, oo_view := spent_view E ev confirmed txid
          (classify_swap_spend E (swap_contract_of sw) input) (oo_view o0)\<rparr>) outputs)"

definition observe_transaction :: "('x, 'z) env_scheme \<Rightarrow> swap \<Rightarrow> bool \<Rightarrow> event \<Rightarrow> observed_map \<Rightarrow> observed_map" where
  "observe_transaction E sw confirmed ev outputs = (case ev_data ev of
     EventV2Transaction txn \<Rightarrow>
       let txid = txn_id E txn in
       fold (observe_spend E sw ev confirmed txid) (tx_inputs txn)
         (fold (observe_funding E sw ev confirmed txid) (enumerate 0 (tx_outputs txn)) outputs)
   | _ \<Rightarrow> outputs)"

definition max_events :: nat where
  "max_events = 10000"

text \<open>One page of the event history, newest first.\<close>

definition history_step :: "('x, 'z) env_scheme \<Rightarrow> swap \<Rightarrow> nat \<times> event list \<Rightarrow> ('x sys, (nat \<times> event list) + event list) m" where
  "history_step E sw = (\<lambda>(offset, seen).
     if \<not> offset < max_events then ret (Inr seen) else
     bnd (ext_sum (wm_address_events E (s_address sw) offset page_size)) (\<lambda>events.
     if length events < page_size then ret (Inr (seen @ events))
     else if offset + page_size = max_events then fail (Swp HistoryLimit)
     else ret (Inl (offset + page_size, seen @ events))))"

text \<open>The element whose value the view of an unspent output shows.\<close>

definition bare_element :: "currency \<Rightarrow> u64 \<Rightarrow> siacoin_element" where
  "bare_element v maturity = \<lparr>se_id = replicate 32 0, se_state = [],
     se_output = \<lparr>so_value = v, so_address = replicate 32 0\<rparr>, se_maturity = maturity\<rparr>"

definition output_view :: "('x, 'z) env_scheme \<Rightarrow> cstate \<Rightarrow> observed_output \<Rightarrow> error + swap_output_view" where
  "output_view E cs o0 =
     (case cur_parse E (am_atomic (ov_value (oo_view o0))) of Inl e \<Rightarrow> Inl e | Inr v \<Rightarrow>
      let unt = qday_units E cs (ci_height (cs_index cs));
        view = (oo_view o0)\<lparr>ov_value := amount_of E v unt\<rparr> in
      Inr (if \<not> oo_spent o0 \<and> oo_confirmed o0
        then view\<lparr>ov_spendable := Some (amount_of E (qday_value E cs
          (bare_element v (ov_maturity (oo_view o0))) (ci_height (cs_index cs) + 1)) unt)\<rparr> else view))"

text \<open>Unconfirmed first, then the newest, then by identifier.\<close>

definition output_before :: "swap_output_view \<Rightarrow> swap_output_view \<Rightarrow> bool" where
  "output_before a b = (case ov_funding_height a of None \<Rightarrow> True | Some h \<Rightarrow>
     (case ov_funding_height b of None \<Rightarrow> False | Some k \<Rightarrow>
       if h \<noteq> k then h > k else ov_id a < ov_id b))"

definition observed_swap_outputs :: "('x, 'z) env_scheme \<Rightarrow> swap \<Rightarrow> ('x sys, swap_output_view list) m" where
  "observed_swap_outputs E sw =
     bnd (ext (cm_tip_state E)) (\<lambda>cs.
     bnd (ext_sum (wm_tip E)) (\<lambda>scan.
     bnd (guard_err (scan \<noteq> cs_index cs) (Svc IndexSynchronizing)) (\<lambda>_.
     bnd (loop (history_step E sw) (0, [])) (\<lambda>confirmed.
     let seen = fold (observe_transaction E sw True) (rev confirmed) [] in
     bnd (ext_sum (wm_tip E)) (\<lambda>indexed.
     bnd (if indexed \<noteq> cs_index cs then ret True else bnd (ext (cm_tip E)) (\<lambda>tip. ret (tip \<noteq> cs_index cs))) (\<lambda>changed.
     bnd (guard_err changed (Swp ChainChangedEvents)) (\<lambda>_.
     bnd (ext_sum (wm_unconfirmed E (s_address sw))) (\<lambda>unconfirmed.
     let seen' = fold (observe_transaction E sw False) unconfirmed seen in
     bnd (ext (map_order E (map fst seen'))) (\<lambda>order.
     bnd (lift_sum (scan_rows (\<lambda>did. output_view E cs (the (map_of seen' did))) order)) (\<lambda>views.
     ret (sort_elements E output_before views)))))))))))"

section \<open>The view of a swap\<close>

definition open_status :: "swap_action_view list \<Rightarrow> string" where
  "open_status actions =
     (if \<exists>c\<in>set actions. xv_kind c = ''fund'' \<and> xv_status c \<noteq> ''confirmed'' then ''funding'' else ''waiting'')"

fun outputs_status :: "string \<Rightarrow> swap_output_view list \<Rightarrow> string" where
  "outputs_status status [] = status"
| "outputs_status status (v # vs) =
     (if ov_status v = ''claimed'' \<or> ov_status v = ''refunded'' then ov_status v
      else if ov_status v = ''claiming'' \<or> ov_status v = ''refunding'' then outputs_status (ov_status v) vs
      else if ov_status v = ''funded'' then
        outputs_status (if status = ''waiting'' \<or> status = ''funding'' then ''funded'' else status) vs
      else if ov_status v = ''funding'' then
        outputs_status (if status = ''waiting'' then ''funding'' else status) vs
      else outputs_status status vs)"

definition aggregate_swap_status :: "swap_output_view list \<Rightarrow> swap_action_view list \<Rightarrow> string" where
  "aggregate_swap_status outputs actions = outputs_status (open_status actions) outputs"

record swap_view =
  vv_swap :: string
  vv_role :: string
  vv_status :: string
  vv_local :: swap_keys_view
  vv_recipient :: swap_keys_view
  vv_refund :: swap_keys_view
  vv_secret_hash :: string
  vv_refund_height :: u64
  vv_address :: string
  vv_height :: u64
  vv_outputs :: "swap_output_view list"
  vv_actions :: "swap_action_view list"
  vv_created :: gotime

definition view_swap :: "('x, 'z) env_scheme \<Rightarrow> swap \<Rightarrow> ('x sys, swap_view) m" where
  "view_swap E sw =
     bnd (swap_key_get E (s_swap sw)) (\<lambda>found. case found of
       None \<Rightarrow> fail (Swp SessionMissing)
     | Some local_key \<Rightarrow>
         bnd (swap_actions E (s_swap sw)) (\<lambda>actions.
         bnd (map_c (view_swap_action E) actions) (\<lambda>action_views.
         bnd (observed_swap_outputs E sw) (\<lambda>outputs.
         bnd (ext (cm_tip_state E)) (\<lambda>cs.
         ret \<lparr>vv_swap = s_swap sw, vv_role = s_role sw, vv_status = aggregate_swap_status outputs action_views,
              vv_local = view_swap_keys E (k_public local_key), vv_recipient = view_swap_keys E (s_recipient sw),
              vv_refund = view_swap_keys E (s_refund sw), vv_secret_hash = hex_encode (s_secret_hash sw),
              vv_refund_height = s_refund_height sw, vv_address = qaddr_string E (s_address sw),
              vv_height = ci_height (cs_index cs), vv_outputs = outputs, vv_actions = action_views,
              vv_created = s_created sw\<rparr>)))))"

definition get_swap :: "('x, 'z) env_scheme \<Rightarrow> string \<Rightarrow> ('x sys, swap_view option) m" where
  "get_swap E sid =
     bnd (swap_get E sid) (\<lambda>found. case found of
       None \<Rightarrow> ret None
     | Some sw \<Rightarrow> bnd (view_swap E sw) (\<lambda>view. ret (Some view)))"

definition get_swaps :: "('x, 'z) env_scheme \<Rightarrow> int \<Rightarrow> int \<Rightarrow> ('x sys, swap_view list) m" where
  "get_swaps E limit offset = bnd (swaps_page E limit offset) (map_c (view_swap E))"

section \<open>Registration\<close>

record register_request =
  rg_swap :: string
  rg_role :: string
  rg_counterparty :: swap_keys_view
  rg_secret_hash :: string
  rg_refund_height :: u64

definition same_swap :: "swap \<Rightarrow> swap \<Rightarrow> bool" where
  "same_swap a b \<longleftrightarrow> s_swap a = s_swap b \<and> s_role a = s_role b \<and> s_recipient a = s_recipient b \<and>
     s_refund a = s_refund b \<and> s_secret_hash a = s_secret_hash b \<and>
     s_refund_height a = s_refund_height b \<and> s_address a = s_address b"

definition watch_swap :: "('x, 'z) env_scheme \<Rightarrow> swap \<Rightarrow> ('x sys, unit) m" where
  "watch_swap E sw =
     bnd (lift_sum (contract_policy E (swap_contract_of sw))) (\<lambda>policy.
     bnd (get_st (\<lambda>s. n_swap_wallet (the_node s))) (\<lambda>wid.
     ext_err (wm_add_addresses E wid [\<lparr>wa_address = policy_address E policy, wa_policy = policy,
       wa_description = s_swap sw\<rparr>])))"

text \<open>The record of the contract; its address is filled in after the terms.\<close>

definition draft_swap :: "register_request \<Rightarrow> qkeys \<Rightarrow> qkeys \<Rightarrow> bytes \<Rightarrow> gotime \<Rightarrow> swap" where
  "draft_swap rq own counterparty hash t =
     (let base = \<lparr>s_swap = rg_swap rq, s_role = rg_role rq, s_recipient = own, s_refund = counterparty,
        s_secret_hash = hash, s_refund_height = rg_refund_height rq, s_address = [], s_created = t\<rparr> in
      if rg_role rq = ''recipient'' then base else base\<lparr>s_recipient := counterparty, s_refund := own\<rparr>)"

definition register_swap :: "('x, 'z) env_scheme \<Rightarrow> register_request \<Rightarrow> ('x sys, swap_view \<times> bool) m" where
  "register_swap E rq =
     bnd (guard_err (\<not> valid_request_id (rg_swap rq)) (Swp BadSwapID)) (\<lambda>_.
     bnd (guard_err (rg_role rq \<noteq> ''recipient'' \<and> rg_role rq \<noteq> ''refund'') (Swp BadRole)) (\<lambda>_.
     bnd (lift_sum (parse_swap_keys E ''counterparty'' (rg_counterparty rq))) (\<lambda>counterparty.
     bnd (lift_sum (parse_hash ''secretHash'' (rg_secret_hash rq))) (\<lambda>hash.
     bnd (swap_key_get E (rg_swap rq)) (\<lambda>found. case found of
       None \<Rightarrow> fail (Swp NoSessionKeys)
     | Some own \<Rightarrow>
         bnd (ext (now E)) (\<lambda>t.
         let draft = draft_swap rq (k_public own) counterparty hash t in
         bnd (lift_sum (contract_address E (swap_contract_of draft))) (\<lambda>addr.
         let sw = draft\<lparr>s_address := addr\<rparr> in
         bnd (swap_get E (rg_swap rq)) (\<lambda>existing. case existing of
           Some old \<Rightarrow>
             bnd (guard_err (\<not> same_swap old sw) (Swp BoundContract)) (\<lambda>_.
             bnd (watch_swap E old) (\<lambda>_.
             bnd (view_swap E old) (\<lambda>view. ret (view, False))))
         | None \<Rightarrow>
             bnd (add_swap E sw) (\<lambda>_.
             bnd (watch_swap E sw) (\<lambda>_.
             bnd (view_swap E sw) (\<lambda>view. ret (view, True))))))))))))"

section \<open>Actions\<close>

text \<open>The pool and the peers; the journal keeps what they said. The row is there already.\<close>

definition submit_swap_action :: "('x, 'z) env_scheme \<Rightarrow> swap_action \<Rightarrow> ('x sys, swap_action) m" where
  "submit_swap_action E c =
     bnd (submit E (c_basis c) (c_txn c)) (\<lambda>failure.
     let c' = (case failure of None \<Rightarrow> c | Some msg \<Rightarrow> c\<lparr>c_error := msg\<rparr>) in
     bnd (attempt (update_swap_action E (c_action c') (c_basis c') (c_txn c') (c_error c'))) (\<lambda>_.
     bnd wake_rebroadcast (\<lambda>_. ret c')))"

definition journal_swap_action :: "('x, 'z) env_scheme \<Rightarrow> swap_action \<Rightarrow> ('x sys, swap_action_view \<times> bool) m" where
  "journal_swap_action E c =
     bnd (add_swap_action E c) (\<lambda>_.
     bnd (submit_swap_action E c) (\<lambda>c'.
     bnd (view_swap_action E c') (\<lambda>view. ret (view, True))))"

record fund_request =
  fr_amount :: string
  fr_fee :: string
  fr_unit :: string

definition fund_action :: "string \<Rightarrow> swap \<Rightarrow> cstate \<Rightarrow> v2txn \<Rightarrow> currency \<Rightarrow> currency \<Rightarrow> gotime \<Rightarrow> swap_action" where
  "fund_action sid sw cs txn v fee t = \<lparr>c_action = sid @ '':fund'', c_swap = sid, c_kind = ''fund'', c_output = [],
     c_txn = txn, c_basis = cs_index cs, c_confirmed = None, c_destination = s_address sw,
     c_amount = v, c_fee = fee, c_created = t, c_error = []\<rparr>"

text \<open>A funding that was not journalled before.\<close>

definition new_funding :: "('x, 'z) env_scheme \<Rightarrow> ctx \<Rightarrow> string \<Rightarrow> swap \<Rightarrow> currency \<Rightarrow> currency \<Rightarrow> string \<Rightarrow> ('x sys, swap_action_view \<times> bool) m" where
  "new_funding E ctx sid sw v fee unt =
     bnd (ready_state E) (\<lambda>(mst, cs).
     bnd (guard_err (\<not> qday_v1_active E cs (ci_height (cs_index cs) + 1)) (Swp (NotActivated (cs_v1_height cs)))) (\<lambda>_.
     bnd (guard_err (ci_height (cs_index cs) + 1 \<ge> s_refund_height sw) (Swp RefundActive)) (\<lambda>_.
     bnd (check_unit E cs unt) (\<lambda>_.
     bnd (build_custody_transfer E ctx cs mst (s_address sw) v fee) (\<lambda>txn.
     bnd (ext (now E)) (\<lambda>t.
     journal_swap_action E (fund_action sid sw cs txn v fee t)))))))"

definition fund_swap :: "('x, 'z) env_scheme \<Rightarrow> ctx \<Rightarrow> string \<Rightarrow> fund_request \<Rightarrow> ('x sys, swap_action_view \<times> bool) m" where
  "fund_swap E ctx sid rq =
     bnd (lift_sum (parse_positive_currency E (fr_amount rq) ''amountAtomic'')) (\<lambda>v.
     bnd (lift_sum (default_fee E (fr_fee rq))) (\<lambda>fee.
     bnd (swap_get E sid) (\<lambda>found. case found of
       None \<Rightarrow> fail (Swp SwapNotFound)
     | Some sw \<Rightarrow>
         bnd (swap_action_get E sid ''fund'' []) (\<lambda>existing. case existing of
           Some c \<Rightarrow>
             bnd (guard_err (c_amount c \<noteq> v \<or> c_fee c \<noteq> fee \<or> c_destination c \<noteq> s_address sw) (Swp BoundFunding)) (\<lambda>_.
             bnd (view_swap_action E c) (\<lambda>view. ret (view, False)))
         | None \<Rightarrow> new_funding E ctx sid sw v fee (fr_unit rq)))))"

text \<open>The output to spend: not spent in the pool, found among the unspent outputs of the
  contract's address.\<close>

definition output_page_step :: "('x, 'z) env_scheme \<Rightarrow> swap \<Rightarrow> bytes \<Rightarrow> cstate \<Rightarrow> nat \<Rightarrow> ('x sys, nat + siacoin_element) m" where
  "output_page_step E sw oid cs offset =
     bnd (ext_sum (wm_address_outputs E (s_address sw) offset page_size)) (\<lambda>(pg, basis).
     bnd (guard_err (basis \<noteq> cs_index cs) (Svc IndexSynchronizing)) (\<lambda>_.
     case List.find (\<lambda>output. se_id output = oid) pg of
       Some output \<Rightarrow> ret (Inr output)
     | None \<Rightarrow> if length pg < page_size then fail (Swp NotConfirmedUnspent) else ret (Inl (offset + page_size))))"

definition find_swap_output :: "('x, 'z) env_scheme \<Rightarrow> swap \<Rightarrow> bytes \<Rightarrow> cstate \<Rightarrow> ('x sys, siacoin_element) m" where
  "find_swap_output E sw oid cs =
     bnd (ext (cm_pool E)) (\<lambda>pool.
     bnd (guard_err (oid \<in> set (pool_spent pool)) (Swp SpentInPool)) (\<lambda>_.
     loop (output_page_step E sw oid cs) 0))"

definition stored_claim_secret :: "v2txn \<Rightarrow> string" where
  "stored_claim_secret txn = (case tx_inputs txn of
     [input] \<Rightarrow> if sp_preimages (in_satisfied input) = [] then []
       else hex_encode (last (sp_preimages (in_satisfied input)))
   | _ \<Rightarrow> [])"

record spend_request =
  sq_output :: string
  sq_fee :: string
  sq_secret :: string

text \<open>The secret a claim must have and a refund must not.\<close>

definition request_secret :: "string \<Rightarrow> spend_request \<Rightarrow> error + bytes" where
  "request_secret kind rq =
     (if kind = ''claim'' then parse_hash ''secret'' (sq_secret rq)
      else if sq_secret rq \<noteq> [] then Inl (Swp RefundWithSecret) else Inr (replicate 32 0))"

text \<open>A missing session reads as the zero key.\<close>

definition session_public :: "swap_key option \<Rightarrow> qkeys" where
  "session_public found = (case found of None \<Rightarrow> \<lparr>classical = replicate 32 0, reserve = replicate 32 0\<rparr>
     | Some k \<Rightarrow> k_public k)"

definition session_keys :: "('x, 'z) env_scheme \<Rightarrow> string \<Rightarrow> ('x sys, private_keys) m" where
  "session_keys E sid =
     bnd master_seed (\<lambda>mst.
     bnd (lift_sum (derive_swap_keys E mst sid)) (\<lambda>keys.
     bnd (swap_key_get E sid) (\<lambda>found.
     bnd (guard_err (pk_public keys \<noteq> session_public found) (Swp SwapKeyMismatch)) (\<lambda>_.
     ret keys))))"

definition sign_swap_spend :: "('x, 'z) env_scheme \<Rightarrow> ctx \<Rightarrow> cstate \<Rightarrow> string \<Rightarrow> v2txn \<Rightarrow> swap_contract \<Rightarrow> private_keys \<Rightarrow> bytes \<Rightarrow>
    ('x sys, v2txn) m" where
  "sign_swap_spend E ctx cs kind txn contract keys secret =
     (if kind = ''claim'' then ext_sum (sign_claim E ctx cs txn contract keys secret)
      else ext_sum (sign_refund E ctx cs txn contract keys))"

text \<open>The transaction: the whole value less the fee to a fresh change address.\<close>

definition build_swap_spend :: "('x, 'z) env_scheme \<Rightarrow> ctx \<Rightarrow> cstate \<Rightarrow> string \<Rightarrow> swap \<Rightarrow> private_keys \<Rightarrow> bytes \<Rightarrow> bytes \<Rightarrow> currency \<Rightarrow>
    ('x sys, v2txn \<times> address \<times> currency) m" where
  "build_swap_spend E ctx cs kind sw keys secret oid fee =
     bnd (find_swap_output E sw oid cs) (\<lambda>parent.
     bnd (guard_err (se_maturity parent > ci_height (cs_index cs) + 1) (Swp NotMature)) (\<lambda>_.
     let v = qday_value E cs parent (ci_height (cs_index cs) + 1) in
     bnd (guard_err (cur_cmp E v fee \<le> 0) (Swp FeeNotCovered)) (\<lambda>_.
     bnd (new_address E [] ''change'') (\<lambda>destination.
     bnd (lift_panic (cur_sub E v fee)) (\<lambda>rest.
     bnd (sign_swap_spend E ctx cs kind
       \<lparr>tx_inputs = [\<lparr>in_parent = parent, in_satisfied = zero_satisfied\<rparr>],
        tx_outputs = [\<lparr>so_value = rest, so_address = a_address destination\<rparr>],
        tx_fee = fee, tx_arbitrary = transfer_data E, tx_rest = []\<rparr> (swap_contract_of sw) keys secret) (\<lambda>txn.
     bnd (ext (cm_tip E)) (\<lambda>tip.
     bnd (guard_err (tip \<noteq> cs_index cs) (Svc ChainChangedSigning)) (\<lambda>_.
     bnd (lift_err (map_option (Wrap (''constructed atomic-swap '' @ kind @ '' is invalid: '')) (validate_txn E cs txn))) (\<lambda>_.
     ret (txn, a_address destination, rest))))))))))"

definition spend_action :: "('x, 'z) env_scheme \<Rightarrow> string \<Rightarrow> string \<Rightarrow> bytes \<Rightarrow> cstate \<Rightarrow> v2txn \<Rightarrow> address \<Rightarrow> currency \<Rightarrow> currency \<Rightarrow>
    gotime \<Rightarrow> swap_action" where
  "spend_action E sid kind oid cs txn destination rest fee t =
     \<lparr>c_action = sid @ '':'' @ kind @ '':'' @ output_id_string E oid, c_swap = sid,
      c_kind = kind, c_output = output_id_string E oid, c_txn = txn, c_basis = cs_index cs,
      c_confirmed = None, c_destination = destination, c_amount = rest, c_fee = fee,
      c_created = t, c_error = []\<rparr>"

text \<open>A claim or refund that was not journalled before.\<close>

definition new_spend :: "('x, 'z) env_scheme \<Rightarrow> ctx \<Rightarrow> string \<Rightarrow> string \<Rightarrow> swap \<Rightarrow> bytes \<Rightarrow> bytes \<Rightarrow> currency \<Rightarrow>
    ('x sys, swap_action_view \<times> bool) m" where
  "new_spend E ctx sid kind sw secret oid fee =
     bnd (session_keys E sid) (\<lambda>keys.
     bnd (synced_state E) (\<lambda>cs.
     bnd (guard_err (\<not> qday_v1_active E cs (ci_height (cs_index cs) + 1)) (Swp (NotActivated (cs_v1_height cs)))) (\<lambda>_.
     bnd (guard_err (kind = ''refund'' \<and> ci_height (cs_index cs) < s_refund_height sw)
       (Swp (RefundLocked (s_refund_height sw)))) (\<lambda>_.
     bnd (build_swap_spend E ctx cs kind sw keys secret oid fee) (\<lambda>(txn, destination, rest).
     bnd (ext (now E)) (\<lambda>t.
     journal_swap_action E (spend_action E sid kind oid cs txn destination rest fee t)))))))"

definition spend_swap :: "('x, 'z) env_scheme \<Rightarrow> ctx \<Rightarrow> string \<Rightarrow> string \<Rightarrow> spend_request \<Rightarrow> ('x sys, swap_action_view \<times> bool) m" where
  "spend_swap E ctx sid kind rq =
     bnd (case parse_output_id E (trim_space (sq_output rq)) of None \<Rightarrow> fail (Swp BadOutputID) | Some oid \<Rightarrow> ret oid) (\<lambda>oid.
     bnd (lift_sum (default_fee E (sq_fee rq))) (\<lambda>fee.
     bnd (lift_sum (request_secret kind rq)) (\<lambda>secret.
     bnd (swap_get E sid) (\<lambda>found. case found of
       None \<Rightarrow> fail (Swp SwapNotFound)
     | Some sw \<Rightarrow>
         bnd (guard_err (kind = ''claim'' \<and> s_role sw \<noteq> ''recipient'') (Swp NotRecipient)) (\<lambda>_.
         bnd (guard_err (kind = ''refund'' \<and> s_role sw \<noteq> ''refund'') (Swp NotRefundOwner)) (\<lambda>_.
         bnd (swap_action_get E sid kind (output_id_string E oid)) (\<lambda>existing. case existing of
           Some c \<Rightarrow>
             bnd (guard_err (c_fee c \<noteq> fee \<or> kind = ''claim'' \<and> stored_claim_secret (c_txn c) \<noteq> sq_secret rq) (Swp BoundAction)) (\<lambda>_.
             bnd (view_swap_action E c) (\<lambda>view. ret (view, False)))
         | None \<Rightarrow> new_spend E ctx sid kind sw secret oid fee)))))))"

definition claim_swap :: "('x, 'z) env_scheme \<Rightarrow> ctx \<Rightarrow> string \<Rightarrow> spend_request \<Rightarrow> ('x sys, swap_action_view \<times> bool) m" where
  "claim_swap E ctx sid rq = spend_swap E ctx sid ''claim'' rq"

definition refund_swap :: "('x, 'z) env_scheme \<Rightarrow> ctx \<Rightarrow> string \<Rightarrow> spend_request \<Rightarrow> ('x sys, swap_action_view \<times> bool) m" where
  "refund_swap E ctx sid rq = spend_swap E ctx sid ''refund'' rq"

end
