(* ===== verification/Rebroadcast.thy ===== *)
theory Rebroadcast
  imports Withdrawals
begin

text \<open>
  The background work of \<open>internal/daemon/service.go\<close> and the last function of
  \<open>internal/daemon/swap.go\<close>: bringing the proofs of journalled transactions to the tip
  (\<open>updateProofs\<close>), sending what is not confirmed again (\<open>rebroadcast\<close>,
  \<open>rebroadcastSwapActions\<close>), and the automatic DEFEND of outputs whose shield runs out
  (\<open>autoDefend\<close>). None of these methods returns an error: what goes wrong is logged, and the
  loop goes on.
\<close>

section \<open>Updating the proofs of a transaction set\<close>

definition proof_hop :: u64 where
  "proof_hop = 72"

text \<open>One block back from \<open>next_index\<close>; the loop is left on the best chain at or below \<open>dst\<close>.\<close>

definition back_step :: "('x, 'z) env_scheme \<Rightarrow> chain_index \<Rightarrow> nat \<Rightarrow> chain_index \<Rightarrow> ('x sys, chain_index + chain_index) m" where
  "back_step E dst _ nxt =
     bnd (guard_err (ci_height nxt = 0) (Svc BasisOutside)) (\<lambda>_.
     bnd (ext (cm_block_parent E (ci_id nxt))) (\<lambda>parent. case parent of
       None \<Rightarrow> fail (Svc BasisUnavailable)
     | Some pid \<Rightarrow>
         let nxt' = \<lparr>ci_height = ci_height nxt - 1, ci_id = pid\<rparr> in
         bnd (ext (cm_best_index E (ci_height nxt'))) (\<lambda>best.
         ret (if best = Some nxt' \<and> ci_height nxt' \<le> ci_height dst then Inr nxt' else Inl nxt'))))"

text \<open>The basis of the next hop: forward along the best chain, over to the other block of the same
  height, or back towards the fork.\<close>

definition next_basis :: "('x, 'z) env_scheme \<Rightarrow> chain_index \<Rightarrow> chain_index \<Rightarrow> chain_index option \<Rightarrow> ('x sys, chain_index) m" where
  "next_basis E src dst best =
     (if best = Some src \<and> ci_height src < ci_height dst then
        bnd (ext (cm_best_index E (min (ci_height src + proof_hop) (ci_height dst)))) (\<lambda>b. case b of
          None \<Rightarrow> fail (Svc WaitingForChain) | Some nxt \<Rightarrow> ret nxt)
      else if best = Some src \<and> ci_height src = ci_height dst then ret dst
      else bnd (foreach (back_step E dst) [0..<unat proof_hop] src) (\<lambda>r.
        ret (case r of Inl nxt \<Rightarrow> nxt | Inr nxt \<Rightarrow> nxt)))"

text \<open>One hop. The result is the pair \<open>(txns, err)\<close>: an error of the chain manager comes with
  the set it returned.\<close>

definition proof_step :: "('x, 'z) env_scheme \<Rightarrow> chain_index \<Rightarrow> v2txn list \<times> chain_index \<Rightarrow>
    ('x sys, (v2txn list \<times> chain_index) + (v2txn list \<times> error option)) m" where
  "proof_step E dst = (\<lambda>(txns, src).
     if src = dst then ret (Inr (txns, None)) else
     bnd (attempt (bnd (ext_err (ctx_err E ServiceCtx)) (\<lambda>_.
       bnd (ext (cm_best_index E (ci_height src))) (next_basis E src dst)))) (\<lambda>r. case r of
       Inl e \<Rightarrow> ret (Inr ([], Some e))
     | Inr nxt \<Rightarrow> bnd (ext (cm_update_set E txns src nxt)) (\<lambda>(txns', err).
         ret (if err \<noteq> None \<or> txns' = [] then Inr (txns', err) else Inl (txns', nxt)))))"

definition update_proofs :: "('x, 'z) env_scheme \<Rightarrow> v2txn list \<Rightarrow> chain_index \<Rightarrow> chain_index \<Rightarrow>
    ('x sys, v2txn list \<times> error option) m" where
  "update_proofs E txns src dst = loop (proof_step E dst) (txns, src)"

section \<open>Sending a transaction again\<close>

text \<open>What both journals do with an unconfirmed transaction: the updated set and the
  \<open>lastError\<close>.\<close>

definition pool_again :: "('x, 'z) env_scheme \<Rightarrow> chain_index \<Rightarrow> v2txn list \<Rightarrow> error option \<Rightarrow> ('x sys, error option) m" where
  "pool_again E tip txns err =
     (if err = None \<and> length txns = 1 then ext (cm_add_pool E tip txns) else ret err)"

definition broadcast_again :: "('x, 'z) env_scheme \<Rightarrow> chain_index \<Rightarrow> v2txn list \<Rightarrow> error option \<Rightarrow> ('x sys, error option) m" where
  "broadcast_again E tip txns err =
     (if err \<noteq> None then ret err else
      bnd (attempt (broadcast E tip txns)) (\<lambda>r. ret (case r of
        Inr _ \<Rightarrow> None | Inl e \<Rightarrow> if is_no_peers e then None else Some e)))"

definition resend :: "('x, 'z) env_scheme \<Rightarrow> chain_index \<Rightarrow> v2txn \<Rightarrow> chain_index \<Rightarrow> ('x sys, v2txn list \<times> string) m" where
  "resend E tip txn basis =
     bnd (update_proofs E [txn] basis tip) (\<lambda>(txns, err).
     bnd (pool_again E tip txns err) (\<lambda>err.
     bnd (broadcast_again E tip txns err) (\<lambda>err.
     ret (txns, case err of None \<Rightarrow> [] | Some e \<Rightarrow> error_text (driver_text E) e))))"

text \<open>The transaction and the basis the journal keeps.\<close>

definition kept :: "chain_index \<Rightarrow> v2txn \<Rightarrow> chain_index \<Rightarrow> v2txn list \<Rightarrow> v2txn \<times> chain_index" where
  "kept tip txn basis txns = (if length txns = 1 then (txns ! 0, tip) else (txn, basis))"

text \<open>Clears the confirmation of a row whose block is no longer on the best chain; \<open>False\<close> where
  the row is left alone in this round.\<close>

definition orphaned :: "('x, 'z) env_scheme \<Rightarrow> (chain_index option \<Rightarrow> ('x sys, unit) m) \<Rightarrow> chain_index option \<Rightarrow> ('x sys, bool) m" where
  "orphaned E set_confirmation confirmed =
     (case confirmed of None \<Rightarrow> ret True
      | Some _ \<Rightarrow> bnd (still_best E confirmed) (\<lambda>still.
          if still then ret False
          else bnd (attempt (set_confirmation None)) (\<lambda>r. ret (case r of Inl _ \<Rightarrow> False | Inr _ \<Rightarrow> True))))"

text \<open>The confirmation the wallet index reports.\<close>

definition observe_events :: "('x, 'z) env_scheme \<Rightarrow> (chain_index option \<Rightarrow> ('x sys, unit) m) \<Rightarrow> chain_index option \<Rightarrow> v2txn \<Rightarrow>
    ('x sys, bool) m" where
  "observe_events E set_confirmation confirmed txn =
     bnd (attempt (ext_sum (wm_events E [txn_id E txn]))) (\<lambda>r. case r of
       Inl _ \<Rightarrow> ret False
     | Inr [] \<Rightarrow> ret True
     | Inr (ev # _) \<Rightarrow>
         if confirmed = Some (ev_index ev) then ret False
         else bnd (attempt (set_confirmation (Some (ev_index ev)))) (\<lambda>_. ret False))"

definition rebroadcast_withdrawal :: "('x, 'z) env_scheme \<Rightarrow> chain_index \<Rightarrow> withdrawal \<Rightarrow> ('x sys, unit) m" where
  "rebroadcast_withdrawal E tip w =
     bnd (observe_events E (set_withdrawal_confirmation E (w_request w)) (w_confirmed w) (w_txn w)) (\<lambda>go.
     if \<not> go then ret () else
     bnd (orphaned E (set_withdrawal_confirmation E (w_request w)) (w_confirmed w)) (\<lambda>go.
     if \<not> go then ret () else
     bnd (resend E tip (w_txn w) (w_basis w)) (\<lambda>(txns, last_error).
     let (txn, basis) = kept tip (w_txn w) (w_basis w) txns in
     bnd (attempt (update_withdrawal E (w_request w) basis txn last_error)) (\<lambda>_. ret ()))))"

definition rebroadcast_action :: "('x, 'z) env_scheme \<Rightarrow> chain_index \<Rightarrow> swap_action \<Rightarrow> ('x sys, unit) m" where
  "rebroadcast_action E tip c =
     bnd (observe_events E (set_swap_action_confirmation E (c_action c)) (c_confirmed c) (c_txn c)) (\<lambda>go.
     if \<not> go then ret () else
     bnd (orphaned E (set_swap_action_confirmation E (c_action c)) (c_confirmed c)) (\<lambda>go.
     if \<not> go then ret () else
     bnd (resend E tip (c_txn c) (c_basis c)) (\<lambda>(txns, last_error).
     let (txn, basis) = kept tip (c_txn c) (c_basis c) txns in
     bnd (attempt (update_swap_action E (c_action c) basis txn last_error)) (\<lambda>_. ret ()))))"

definition rebroadcast_swap_actions :: "('x, 'z) env_scheme \<Rightarrow> chain_index \<Rightarrow> ('x sys, unit) m" where
  "rebroadcast_swap_actions E tip =
     bnd (attempt (swap_action_candidates E (ci_height tip) reorg_monitoring_depth)) (\<lambda>r. case r of
       Inl _ \<Rightarrow> ret ()
     | Inr actions \<Rightarrow> fold_c (\<lambda>c _. rebroadcast_action E tip c) actions ())"

definition rebroadcast_withdrawals :: "('x, 'z) env_scheme \<Rightarrow> chain_index \<Rightarrow> ('x sys, unit) m" where
  "rebroadcast_withdrawals E tip =
     bnd (attempt (rebroadcast_candidates E (ci_height tip) reorg_monitoring_depth)) (\<lambda>r. case r of
       Inl _ \<Rightarrow> ret ()
     | Inr withdrawals \<Rightarrow> fold_c (\<lambda>w _. rebroadcast_withdrawal E tip w) withdrawals ())"

text \<open>The swap actions are deferred: they run however the withdrawals went.\<close>

definition rebroadcast :: "('x, 'z) env_scheme \<Rightarrow> ('x sys, unit) m" where
  "rebroadcast E =
     bnd (ext (cm_tip E)) (\<lambda>tip.
     bnd (rebroadcast_withdrawals E tip) (\<lambda>_.
     rebroadcast_swap_actions E tip))"

section \<open>Automatic DEFEND\<close>

definition defend_threshold :: "cstate \<Rightarrow> u64" where
  "defend_threshold cs = max 2 (cs_shield_blocks cs div 4)"

definition expires_first :: "cstate \<Rightarrow> siacoin_element \<Rightarrow> siacoin_element \<Rightarrow> bool" where
  "expires_first cs a b \<longleftrightarrow> shield_expiry cs a < shield_expiry cs b"

text \<open>One output: it joins the selection when its shield runs out within the threshold.\<close>

definition defend_step :: "('x, 'z) env_scheme \<Rightarrow> cstate \<Rightarrow> siacoin_element \<Rightarrow> selection \<Rightarrow> ('x sys, selection + selection) m" where
  "defend_step E cs output sel =
     (if ci_height (cs_index cs) + defend_threshold cs < shield_expiry cs output then ret (Inl sel) else
      bnd (address_by_hash E (so_address (se_output output))) (\<lambda>found. case found of
        None \<Rightarrow> fail (Svc UnknownKey)
      | Some owner \<Rightarrow>
          bnd (lift_panic (cur_add E (sel_total sel) (spend_value E cs output))) (\<lambda>total.
          let sel' = \<lparr>sel_inputs = sel_inputs sel @ [\<lparr>in_parent = output,
                in_satisfied = policy_only (keys_policy E (a_public owner))\<rparr>],
              sel_owners = sel_owners sel @ [owner], sel_total = total\<rparr> in
          ret (if length (sel_inputs sel') = max_inputs then Inr sel' else Inl sel'))))"

text \<open>The journal row, the pool and the peers; a row that is there already is left alone.\<close>

definition submit_defend :: "('x, 'z) env_scheme \<Rightarrow> withdrawal \<Rightarrow> ('x sys, unit) m" where
  "submit_defend E w =
     bnd (attempt (add_withdrawal E w)) (\<lambda>r. case r of
       Inl _ \<Rightarrow> bnd (attempt (withdrawal_get E (w_request w))) (\<lambda>_. ret ())
     | Inr _ \<Rightarrow>
         bnd (submit E (w_basis w) (w_txn w)) (\<lambda>failure.
         bnd (attempt (update_withdrawal E (w_request w) (w_basis w) (w_txn w)
           (case failure of None \<Rightarrow> w_error w | Some msg \<Rightarrow> msg))) (\<lambda>_. ret ())))"

text \<open>The withdrawal that is journalled; \<open>None\<close> where the method returns before it has one.\<close>

definition draft_transfer :: "('x, 'z) env_scheme \<Rightarrow> cstate \<Rightarrow> bytes \<Rightarrow> selection \<Rightarrow> currency \<Rightarrow> ('x sys, withdrawal option) m" where
  "draft_transfer E cs mst sel fee =
     (if sel_inputs sel = [] then ret None
      else if cur_cmp E (sel_total sel) fee \<le> 0 then ret None else
      bnd (new_address E [] ''change'') (\<lambda>destination.
      bnd (lift_panic (cur_sub E (sel_total sel) fee)) (\<lambda>rest.
      bnd (finish_transfer E ServiceCtx cs
        \<lparr>tx_inputs = sel_inputs sel,
         tx_outputs = [\<lparr>so_value = rest, so_address = a_address destination\<rparr>],
         tx_fee = fee, tx_arbitrary = transfer_data E, tx_rest = []\<rparr>
        (sel_owners sel) mst) (\<lambda>txn.
      bnd (ext (now E)) (\<lambda>created.
      ret (Some \<lparr>w_request = ''defend:'' @ id_string E (txn_id E txn), w_kind = ''defend'', w_txn = txn,
        w_basis = cs_index cs, w_confirmed = None, w_destination = a_address destination, w_amount = rest,
        w_fee = fee, w_created = created, w_error = []\<rparr>))))))"

definition draft_defend :: "('x, 'z) env_scheme \<Rightarrow> ('x sys, withdrawal option) m" where
  "draft_defend E =
     bnd (ext (cm_tip_state E)) (\<lambda>cs.
     if \<not> qday_active E cs (ci_height (cs_index cs) + 1) then ret None else
     bnd (ext_sum (wm_tip E)) (\<lambda>scan.
     if scan \<noteq> cs_index cs then ret None else
     bnd master_seed (\<lambda>mst.
     bnd (spendable_outputs E cs) (\<lambda>outputs.
     bnd (foreach (defend_step E cs) (sort_elements E (expires_first cs) outputs)
       \<lparr>sel_inputs = [], sel_owners = [], sel_total = 0\<rparr>) (\<lambda>r.
     draft_transfer E cs mst (case r of Inl sel \<Rightarrow> sel | Inr sel \<Rightarrow> sel) (fee_default E))))))"

definition defend :: "('x, 'z) env_scheme \<Rightarrow> ('x sys, unit) m" where
  "defend E = bnd (draft_defend E) (\<lambda>draft. case draft of None \<Rightarrow> ret () | Some w \<Rightarrow> submit_defend E w)"

definition auto_defend :: "('x, 'z) env_scheme \<Rightarrow> ('x sys, unit) m" where
  "auto_defend E =
     bnd unlocked (\<lambda>open. if \<not> open then ret () else
     bnd (network_synced E) (\<lambda>synced. if \<not> synced then ret () else
     bnd (ext (op_try_lock E)) (\<lambda>taken. if \<not> taken then ret () else
     bnd (attempt (defend E)) (\<lambda>_. ret ()))))"

text \<open>One turn of \<open>rebroadcastLoop\<close>, started by the timer or by a value in the channel.\<close>

definition rebroadcast_turn :: "('x, 'z) env_scheme \<Rightarrow> bool \<Rightarrow> ('x sys, unit) m" where
  "rebroadcast_turn E timer =
     bnd (if timer then ret () else mod_st (\<lambda>s. s\<lparr>wake := False\<rparr>)) (\<lambda>_.
     bnd (rebroadcast E) (\<lambda>_.
     auto_defend E))"

end
