(* ===== verification/Custody_Facts.thy ===== *)
theory Custody_Facts
  imports Custody
begin

text \<open>
  What the construction of a custody transaction establishes: the nonce search, the signature
  cache, the selection of inputs and the conservation of value.
\<close>

section \<open>Proof of work\<close>

lemma work_step_result:
  "work_step E ctx intent bits nonce s = (Ok r, t) \<Longrightarrow>
    (case r of Inr n \<Rightarrow> n = nonce \<and> work_valid E intent nonce bits
     | Inl n \<Rightarrow> n = nonce + 1 \<and> \<not> work_valid E intent nonce bits)"
  by (auto simp: work_step_def Let_def run_iffs split: if_splits)

text \<open>The nonce found is the first valid one from the start, in the order of the 64-bit counter.\<close>

definition first_valid :: "('x, 'z) env_scheme \<Rightarrow> bytes \<Rightarrow> nat \<Rightarrow> u64 \<Rightarrow> u64 \<Rightarrow> bool" where
  "first_valid E intent bits start n \<longleftrightarrow> work_valid E intent n bits \<and>
     (\<exists>k. n = start + of_nat k \<and> (\<forall>j<k. \<not> work_valid E intent (start + of_nat j) bits))"

lemma work_loop_first:
  fixes E :: "('x, 'z) env_scheme" and s :: "'x sys"
  assumes "loop (work_step E ctx intent bits) start s = (Ok n, t)"
  shows "first_valid E intent bits start n"
proof -
  let ?I = "\<lambda>nonce (s::'x sys). \<exists>k. nonce = start + of_nat k \<and>
     (\<forall>j<k. \<not> work_valid E intent (start + of_nat j) bits)"
  have body: "case r of Inl a' \<Rightarrow> ?I a' t | Inr b \<Rightarrow> first_valid E intent bits start b"
    if I: "?I a s" and step: "work_step E ctx intent bits a s = (Ok r, t)"
    for a s r and t :: "'x sys"
  proof -
  from I obtain k where k: "a = start + of_nat k"
    "\<forall>j<k. \<not> work_valid E intent (start + of_nat j) bits" by blast
  show ?thesis
  proof (cases r)
    case (Inl a')
    with work_step_result [OF step] k have "a' = start + of_nat (Suc k)"
      "\<forall>j<Suc k. \<not> work_valid E intent (start + of_nat j) bits"
      by (auto simp: less_Suc_eq)
    then have "?I a' t" by blast
    with Inl show ?thesis by simp
  next
    case (Inr b)
    with work_step_result [OF step] k show ?thesis by (auto simp: first_valid_def)
  qed
  qed
  have "?I start s" by (rule exI [of _ 0]) simp
  with body show ?thesis using assms
    by (rule loop_yields [where I = ?I and Q = "\<lambda>b t. first_valid E intent bits start b"])
qed

lemma work_step_no_hang: "returns (work_step E ctx intent bits nonce)"
  unfolding work_step_def by (intro call_returns)

lemma work_loop_returns:
  fixes E :: "('x, 'z) env_scheme" and s :: "'x sys"
  assumes "work_valid E intent v bits"
  shows "fst (loop (work_step E ctx intent bits) start s) \<noteq> Hang"
proof -
  define K where "K = (LEAST k. work_valid E intent (start + of_nat k) bits)"
  let ?v = "unat (v - start)"
  have v: "work_valid E intent (start + of_nat ?v) bits" using assms by simp
  then have K: "work_valid E intent (start + of_nat K) bits"
    unfolding K_def by (rule LeastI)
  have "K \<le> ?v" unfolding K_def using v by (rule Least_le)
  then have K64: "K < 2 ^ 64" using unat_u64_less [of "v - start"] by simp
  let ?I = "\<lambda>nonce (s::'x sys). unat (nonce - start) \<le> K"
  let ?mu = "\<lambda>nonce (s::'x sys). K - unat (nonce - start)"
  show ?thesis
  proof (rule loop_returns [where I = ?I and mu = ?mu])
    show "?I start s" by simp
    show "fst (work_step E ctx intent bits a s) \<noteq> Hang" for a s
      by (rule returnsD [OF work_step_no_hang])
    fix a :: u64 and s :: "'x sys" and a' s'
    assume I: "?I a s" and step: "work_step E ctx intent bits a s = (Ok (Inl a'), s')"
    from work_step_result [OF step] have a': "a' = a + 1" and "\<not> work_valid E intent a bits"
      by simp_all
    moreover have "a = start + of_nat (unat (a - start))" by simp
    ultimately have "unat (a - start) \<noteq> K" using K by metis
    with I have lt: "unat (a - start) < K" by simp
    have "a' - start = (a - start) + 1" using a' by simp
    moreover have "unat ((a - start) + 1) = Suc (unat (a - start))"
      using lt K64 by (simp add: unat_word_ariths)
    ultimately have "unat (a' - start) = Suc (unat (a - start))" by (simp only:)
    then show "?I a' s' \<and> ?mu a' s' < ?mu a s" using lt by simp
  qed
qed

lemma perform_defend_work_result:
  assumes "perform_defend_work E ctx cs txn s = (Ok worked, t)"
  shows "if qday_active E cs (ci_height (cs_index cs) + 1)
    then \<exists>envelope n. parse_envelope E (tx_arbitrary txn) = Inr envelope \<and>
      first_valid E (work_intent E cs txn) (cs_defend_bits cs) (env_nonce envelope) n \<and>
      worked = txn\<lparr>tx_arbitrary := encode_envelope E (envelope\<lparr>env_nonce := n\<rparr>)\<rparr>
    else worked = txn"
  using assms by (auto simp: perform_defend_work_def run_iffs Let_def dest!: work_loop_first
      split: if_splits)

lemma perform_defend_work_returns:
  assumes "\<exists>v. work_valid E (work_intent E cs txn) v (cs_defend_bits cs)"
  shows "fst (perform_defend_work E ctx cs txn s) \<noteq> Hang"
proof -
  from assms have "fst (loop (work_step E ctx (work_intent E cs txn) (cs_defend_bits cs)) n u) \<noteq> Hang" for n u
    using work_loop_returns by blast
  then show ?thesis
    by (auto simp: perform_defend_work_def bnd_def lift_sum_def Let_def
        split: sum.split prod.split outcome.split) (metis fst_conv)+
qed

lemma perform_defend_work_keeps:
  assumes "perform_defend_work E ctx cs txn s = (Ok worked, t)"
  shows "tx_inputs worked = tx_inputs txn" and "tx_outputs worked = tx_outputs txn"
    and "tx_fee worked = tx_fee txn" and "tx_rest worked = tx_rest txn"
  using perform_defend_work_result [OF assms] by (auto split: if_splits)

section \<open>Signatures\<close>

lemma set_satisfied_simps [simp]:
  "length (tx_inputs (set_satisfied i p txn)) = length (tx_inputs txn)"
  "tx_outputs (set_satisfied i p txn) = tx_outputs txn"
  "tx_fee (set_satisfied i p txn) = tx_fee txn"
  "tx_arbitrary (set_satisfied i p txn) = tx_arbitrary txn"
  "tx_rest (set_satisfied i p txn) = tx_rest txn"
  by (simp_all add: set_satisfied_def)

lemma set_satisfied_inputs:
  "tx_inputs (set_satisfied i p txn) = (tx_inputs txn)[i := (tx_inputs txn ! i)\<lparr>in_satisfied := p\<rparr>]"
  by (simp add: set_satisfied_def)

lemma set_satisfied_parents [simp]:
  "map in_parent (tx_inputs (set_satisfied i p txn)) = map in_parent (tx_inputs txn)"
proof (cases "i < length (tx_inputs txn)")
  case True
  then have "in_parent (tx_inputs txn ! i) = map in_parent (tx_inputs txn) ! i" by simp
  then show ?thesis by (simp add: set_satisfied_inputs map_update del: nth_map)
qed (simp add: set_satisfied_inputs list_update_beyond)

text \<open>Signing changes the satisfied policies only.\<close>

definition signed_like :: "v2txn \<Rightarrow> v2txn \<Rightarrow> bool" where
  "signed_like a b \<longleftrightarrow> map in_parent (tx_inputs b) = map in_parent (tx_inputs a) \<and>
     tx_outputs b = tx_outputs a \<and> tx_fee b = tx_fee a \<and> tx_arbitrary b = tx_arbitrary a \<and>
     tx_rest b = tx_rest a"

lemma sign_step_ok:
  assumes "sign_step E ctx mst hash (i, owner) (cached, txn) s = (Ok (cached', txn'), t)"
  obtains policy where "txn' = set_satisfied i policy txn" and "cached' (a_index owner) = Some policy"
    and "cached (a_index owner) = Some policy \<and> cached' = cached \<or>
      cached (a_index owner) = None \<and> sign_owner E mst hash owner = Inr policy \<and>
      cached' = cached(a_index owner \<mapsto> policy)"
  using assms by (auto simp: sign_step_def run_iffs split: option.splits)

text \<open>The cache holds what signing again would give, for every owner of the index.\<close>

definition cache_ok :: "('x, 'z) env_scheme \<Rightarrow> bytes \<Rightarrow> bytes \<Rightarrow> addr_rec list \<Rightarrow> (u64 \<rightharpoonup> satisfied_policy) \<Rightarrow> bool" where
  "cache_ok E mst hash owners cached \<longleftrightarrow>
     (\<forall>owner\<in>set owners. \<forall>p. cached (a_index owner) = Some p \<longrightarrow> sign_owner E mst hash owner = Inr p)"

definition consistent_owners :: "addr_rec list \<Rightarrow> bool" where
  "consistent_owners owners \<longleftrightarrow>
     (\<forall>a\<in>set owners. \<forall>b\<in>set owners. a_index a = a_index b \<longrightarrow> a_public a = a_public b)"

lemma sign_owner_cong: "a_index a = a_index b \<Longrightarrow> a_public a = a_public b \<Longrightarrow>
    sign_owner E mst hash a = sign_owner E mst hash b"
  by (simp add: sign_owner_def split: sum.split)

lemma sign_fold:
  assumes "fold_c (sign_step E ctx mst hash) (enumerate n os) (cached, txn) s = (Ok (cached', txn'), t)"
    and "cache_ok E mst hash owners cached" and "consistent_owners owners" and "set os \<subseteq> set owners"
    and "n + length os \<le> length (tx_inputs txn)"
  shows "signed_like txn txn' \<and>
    (\<forall>i < length (tx_inputs txn). if n \<le> i \<and> i < n + length os
       then sign_owner E mst hash (os ! (i - n)) = Inr (in_satisfied (tx_inputs txn' ! i))
       else tx_inputs txn' ! i = tx_inputs txn ! i)"
  using assms
proof (induction os arbitrary: n cached txn s)
  case Nil
  then show ?case by (auto simp: signed_like_def)
next
  case (Cons owner os)
  from Cons.prems(1) obtain cached1 txn1 s1 where
    step: "sign_step E ctx mst hash (n, owner) (cached, txn) s = (Ok (cached1, txn1), s1)"
    and rest: "fold_c (sign_step E ctx mst hash) (enumerate (Suc n) os) (cached1, txn1) s1 = (Ok (cached', txn'), t)"
    by (auto simp: bnd_Ok_iff)
  from step obtain policy where txn1: "txn1 = set_satisfied n policy txn"
    and cases: "cached (a_index owner) = Some policy \<and> cached1 = cached \<or>
      cached (a_index owner) = None \<and> sign_owner E mst hash owner = Inr policy \<and>
      cached1 = cached(a_index owner \<mapsto> policy)"
    by (rule sign_step_ok)
  have mem: "owner \<in> set owners" using Cons.prems(4) by simp
  then have policy: "sign_owner E mst hash owner = Inr policy"
    using cases Cons.prems(2) unfolding cache_ok_def by blast
  have cache: "cache_ok E mst hash owners cached1"
    unfolding cache_ok_def
  proof (intro ballI allI impI)
    fix b p
    assume b: "b \<in> set owners" and p: "cached1 (a_index b) = Some p"
    show "sign_owner E mst hash b = Inr p"
    proof (cases "a_index b = a_index owner")
      case True
      then have "a_public b = a_public owner"
        using Cons.prems(3) b mem unfolding consistent_owners_def by blast
      with True have "sign_owner E mst hash b = sign_owner E mst hash owner"
        by (rule sign_owner_cong)
      moreover have "p = policy"
      proof -
        from p True have "cached1 (a_index owner) = Some p" by simp
        with cases show ?thesis by (elim disjE conjE) simp_all
      qed
      ultimately show ?thesis using policy by simp
    next
      case False
      with p have "cached (a_index b) = Some p" using cases by (elim disjE conjE) simp_all
      then show ?thesis using Cons.prems(2) b by (auto simp: cache_ok_def)
    qed
  qed
  have len: "Suc n + length os \<le> length (tx_inputs txn1)" using Cons.prems(5) txn1 by simp
  have IH: "signed_like txn1 txn' \<and>
    (\<forall>i < length (tx_inputs txn1). if Suc n \<le> i \<and> i < Suc n + length os
       then sign_owner E mst hash (os ! (i - Suc n)) = Inr (in_satisfied (tx_inputs txn' ! i))
       else tx_inputs txn' ! i = tx_inputs txn1 ! i)"
    using rest cache Cons.prems(3) _ len by (rule Cons.IH) (use Cons.prems(4) in simp)
  have like: "signed_like txn txn'"
    using IH txn1 by (simp add: signed_like_def)
  have pt: "if n \<le> i \<and> i < n + length (owner # os)
       then sign_owner E mst hash ((owner # os) ! (i - n)) = Inr (in_satisfied (tx_inputs txn' ! i))
       else tx_inputs txn' ! i = tx_inputs txn ! i" if i: "i < length (tx_inputs txn)" for i
  proof (cases "i = n")
    case True
    with IH i txn1 policy show ?thesis by (simp add: set_satisfied_inputs)
  next
    case False
    with IH i txn1 show ?thesis
      by (auto simp: set_satisfied_inputs nth_Cons' split: if_splits)
  qed
  show ?case using like pt by blast
qed

lemma sign_inputs_ok:
  assumes ok: "sign_inputs E ctx cs txn owners mst s = (Ok txn', t)"
    and cons: "consistent_owners owners"
  shows "length owners = length (tx_inputs txn)" and "signed_like txn txn'"
    and "\<And>i. i < length owners \<Longrightarrow>
      sign_owner E mst (input_sig_hash E cs txn) (owners ! i) = Inr (in_satisfied (tx_inputs txn' ! i))"
proof -
  from ok obtain cached u where len: "length owners = length (tx_inputs txn)"
    and f: "fold_c (sign_step E ctx mst (input_sig_hash E cs txn)) (enumerate 0 owners) (Map.empty, txn) s
      = (Ok (cached, txn'), u)"
    by (auto simp: sign_inputs_def run_iffs Let_def split: prod.splits)
  have "cache_ok E mst (input_sig_hash E cs txn) owners Map.empty" by (simp add: cache_ok_def)
  from sign_fold [OF f this cons] len
  show "length owners = length (tx_inputs txn)" and "signed_like txn txn'"
    and "\<And>i. i < length owners \<Longrightarrow>
      sign_owner E mst (input_sig_hash E cs txn) (owners ! i) = Inr (in_satisfied (tx_inputs txn' ! i))"
    by auto
qed

end
