(* ===== verification/Sample.thy ===== *)
theory Sample
  imports Store
begin

text \<open>
  A concrete instance of the packages outside the repository: a development node on a chain of
  ten blocks with a given list of spendable outputs. Addresses and identifiers are written
  byte by byte, amounts in decimal, and every call succeeds. The named hypotheses of theory
  Externals hold of it, so they can be satisfied together; it is the input the examples of
  each property run on.
\<close>

section \<open>Texts\<close>

definition bytes_text :: "bytes \<Rightarrow> string" where
  "bytes_text bs = map (\<lambda>b. char_of (unat b)) bs"

definition text_bytes :: "string \<Rightarrow> bytes" where
  "text_bytes s = map (\<lambda>c. of_nat (of_char c)) s"

lemma text_bytes_inverse [simp]: "text_bytes (bytes_text bs) = bs"
proof -
  have "unat b mod 256 = unat b" for b :: u8
    using unsigned_less [where 'a = nat and 'b = 8, of b] by simp
  then show ?thesis by (simp add: text_bytes_def bytes_text_def comp_def)
qed

lemma digits_value_decimal [simp]: "digits_value (decimal_digits n) = n"
proof (induction n rule: decimal_digits.induct)
  case (1 n)
  then show ?case
    by (subst decimal_digits.simps) (auto simp: digits_value_def byte_of_def)
qed

lemma decimal_digits_nonempty: "decimal_digits n \<noteq> []"
  by (subst decimal_digits.simps) simp

definition sample_parse :: "string \<Rightarrow> error + currency" where
  "sample_parse s = (if digits_value s < 2 ^ 128 then Inr (digits_value s) else Inl (Foreign ''range''))"

section \<open>Keys and chain\<close>

definition sample_keys :: qkeys where
  "sample_keys = \<lparr>classical = replicate 32 1, reserve = replicate 32 2\<rparr>"

definition sample_index :: chain_index where
  "sample_index = \<lparr>ci_height = 10, ci_id = replicate 32 7\<rparr>"

definition sample_cs :: cstate where
  "sample_cs = \<lparr>cs_index = sample_index, cs_qday_height = 0, cs_shield_blocks = 0, cs_defend_bits = 0,
     cs_v1_height = 0, cs_network_name = ''sample'', cs_rest = []\<rparr>"

definition sample_output :: "u8 \<Rightarrow> currency \<Rightarrow> siacoin_element" where
  "sample_output i v = \<lparr>se_id = [i], se_state = [],
     se_output = \<lparr>so_value = v, so_address = classical sample_keys\<rparr>, se_maturity = 0\<rparr>"

text \<open>Transactions are numbered in a table; the encoding of one that is not listed fails.\<close>

fun position :: "'a \<Rightarrow> 'a list \<Rightarrow> nat option" where
  "position t [] = None"
| "position t (u # us) = (if u = t then Some 0 else map_option Suc (position t us))"

lemma position_nth: "position t us = Some n \<Longrightarrow> n < length us \<and> us ! n = t"
  by (induction us arbitrary: n) (auto split: if_splits)

definition sample_encode :: "v2txn list \<Rightarrow> v2txn \<Rightarrow> error + bytes" where
  "sample_encode txns t =
     (case position t txns of
        None \<Rightarrow> Inl (Foreign ''unknown transaction'')
      | Some n \<Rightarrow> if n < 256 then Inr [of_nat n] else Inl (Foreign ''unknown transaction''))"

definition sample_decode :: "v2txn list \<Rightarrow> bytes \<Rightarrow> error + v2txn" where
  "sample_decode txns raw =
     (case raw of [b] \<Rightarrow> if unat b < length txns then Inr (txns ! unat b) else Inl (Foreign ''bad encoding'')
      | _ \<Rightarrow> Inl (Foreign ''bad encoding''))"

lemma sample_codec: "sample_encode txns t = Inr raw \<Longrightarrow> sample_decode txns raw = Inr t \<and> raw \<noteq> []"
  by (auto simp: sample_encode_def sample_decode_def unat_of_nat dest: position_nth split: option.splits if_splits)

text \<open>The instance leaves the world as it is, whatever its type; the examples run on the empty one.\<close>

definition sample_calls :: "v2txn list \<Rightarrow> siacoin_element list \<Rightarrow> 'x env" where
  "sample_calls txns outs = \<lparr>
     qaddr_string = bytes_text, parse_qaddr = (\<lambda>s. Inr (text_bytes s)),
     parse_output_id = (\<lambda>s. Some (text_bytes s)), output_id_string = bytes_text, id_string = bytes_text,
     block_id_string = bytes_text, hash_string = bytes_text,
     index_string = (\<lambda>i. bytes_text (ci_id i)),
     encode_txn = sample_encode txns, decode_txn = sample_decode txns,
     txn_id = (\<lambda>t. [9]), txn_output_id = (\<lambda>i n. i @ [of_nat n]),
     transfer_data = [1], parse_envelope = (\<lambda>b. Inr \<lparr>env_nonce = 0, env_rest = b\<rparr>), encode_envelope = env_rest,
     driver_text = (\<lambda>e. ''driver''),
     keys_bytes = (\<lambda>k. classical k @ reserve k), keys_validate = (\<lambda>k. None), keys_address = classical,
     keys_policy = (\<lambda>k. PolicyOpaque (classical k)),
     policy_address = (\<lambda>p. case p of PolicyOpaque a \<Rightarrow> a | _ \<Rightarrow> []),
     keys_from_seed = (\<lambda>seed. Inr \<lparr>pk_public = sample_keys, pk_secret = []\<rparr>),
     keys_sign = (\<lambda>k h. Inr \<lparr>sp_policy = PolicyOpaque (classical (pk_public k)), sp_signatures = [h], sp_preimages = []\<rparr>),
     contract_policy = (\<lambda>c. Inr (PolicyHash (sc_secret_hash c))), contract_address = (\<lambda>c. Inr (sc_secret_hash c)),
     is_swap_spend_policy = (\<lambda>p. False),
     cur_add = (\<lambda>a b. if a + b < 2 ^ 128 then Some (a + b) else None),
     cur_sub = (\<lambda>a b. if b \<le> a then Some (a - b) else None),
     cur_add_overflow = (\<lambda>a b. ((a + b) mod 2 ^ 128, 2 ^ 128 \<le> a + b)),
     cur_cmp = (\<lambda>a b. if a < b then - 1 else if a = b then 0 else 1),
     cur_is_zero = (\<lambda>a. a = 0), cur_exact = decimal_digits, cur_parse = sample_parse, fee_default = 1,
     format_amount = (\<lambda>v u. decimal_digits v),
     qday_value = (\<lambda>cs el h. so_value (se_output el) mod 2 ^ 128), qday_units = (\<lambda>cs h. 1),
     qday_active = (\<lambda>cs h. False), qday_v1_active = (\<lambda>cs h. True),
     input_sig_hash = (\<lambda>cs t. [5]), work_intent = (\<lambda>cs t. []), work_valid = (\<lambda>i n b. True),
     validate_txn = (\<lambda>cs t. None),
     now = (\<lambda>w. (0, w)), db_fault = (\<lambda>w. (None, w)), read_key = (\<lambda>p pw w. (Inr [1], w)),
     ctx_err = (\<lambda>c w. (None, w)), op_try_lock = (\<lambda>w. (True, w)),
     cm_tip_state = (\<lambda>w. (sample_cs, w)), cm_tip = (\<lambda>w. (sample_index, w)),
     cm_best_index = (\<lambda>h w. (if h \<le> 10 then Some \<lparr>ci_height = h, ci_id = replicate 32 7\<rparr> else None, w)),
     cm_block_parent = (\<lambda>i w. (Some (replicate 32 7), w)), cm_pool = (\<lambda>w. ([], w)),
     cm_add_pool = (\<lambda>i ts w. (None, w)), cm_update_set = (\<lambda>ts a b w. ((ts, None), w)),
     wm_tip = (\<lambda>w. (Inr sample_index, w)),
     wm_unspent = (\<lambda>wid k n w. (Inr (take n (drop k outs), sample_index), w)),
     wm_address_outputs = (\<lambda>a k n w. (Inr (take n (drop k outs), sample_index), w)),
     wm_add_addresses = (\<lambda>wid as w. (None, w)), wm_events = (\<lambda>ids w. (Inr [], w)),
     wm_wallet_events = (\<lambda>wid k n w. (Inr [], w)), wm_address_events = (\<lambda>a k n w. (Inr [], w)),
     wm_unconfirmed = (\<lambda>a w. (Inr [], w)), wm_immature = (\<lambda>wid w. (Inr 0, w)),
     sy_peers = (\<lambda>w. ([], w)), sy_broadcast = (\<lambda>i ts w. (None, w)),
     sign_claim = (\<lambda>c cs t sc k sec w. (Inr t, w)), sign_refund = (\<lambda>c cs t sc k w. (Inr t, w)),
     map_order = (\<lambda>ks w. (ks, w)), sort_indices = (\<lambda>lt n. insertion_sort lt [0..<n])\<rparr>"

definition sample_env :: "v2txn list \<Rightarrow> siacoin_element list \<Rightarrow> unit env" where
  "sample_env = sample_calls"

lemma sample_env_simps [simp]:
  "qaddr_string (sample_env txns outs) = bytes_text"
  "parse_qaddr (sample_env txns outs) = (\<lambda>s. Inr (text_bytes s))"
  "parse_output_id (sample_env txns outs) = (\<lambda>s. Some (text_bytes s))"
  "output_id_string (sample_env txns outs) = bytes_text"
  "id_string (sample_env txns outs) = bytes_text"
  "block_id_string (sample_env txns outs) = bytes_text"
  "hash_string (sample_env txns outs) = bytes_text"
  "index_string (sample_env txns outs) = (\<lambda>i. bytes_text (ci_id i))"
  "encode_txn (sample_env txns outs) = sample_encode txns"
  "decode_txn (sample_env txns outs) = sample_decode txns"
  "txn_id (sample_env txns outs) = (\<lambda>t. [9])"
  "txn_output_id (sample_env txns outs) = (\<lambda>i n. i @ [of_nat n])"
  "transfer_data (sample_env txns outs) = [1]"
  "parse_envelope (sample_env txns outs) = (\<lambda>b. Inr \<lparr>env_nonce = 0, env_rest = b\<rparr>)"
  "encode_envelope (sample_env txns outs) = env_rest"
  "driver_text (sample_env txns outs) = (\<lambda>e. ''driver'')"
  "keys_bytes (sample_env txns outs) = (\<lambda>k. classical k @ reserve k)"
  "keys_validate (sample_env txns outs) = (\<lambda>k. None)"
  "keys_address (sample_env txns outs) = classical"
  "keys_policy (sample_env txns outs) = (\<lambda>k. PolicyOpaque (classical k))"
  "policy_address (sample_env txns outs) = (\<lambda>p. case p of PolicyOpaque a \<Rightarrow> a | _ \<Rightarrow> [])"
  "keys_from_seed (sample_env txns outs) = (\<lambda>seed. Inr \<lparr>pk_public = sample_keys, pk_secret = []\<rparr>)"
  "keys_sign (sample_env txns outs) = (\<lambda>k h. Inr \<lparr>sp_policy = PolicyOpaque (classical (pk_public k)), sp_signatures = [h], sp_preimages = []\<rparr>)"
  "contract_policy (sample_env txns outs) = (\<lambda>c. Inr (PolicyHash (sc_secret_hash c)))"
  "contract_address (sample_env txns outs) = (\<lambda>c. Inr (sc_secret_hash c))"
  "is_swap_spend_policy (sample_env txns outs) = (\<lambda>p. False)"
  "cur_add (sample_env txns outs) = (\<lambda>a b. if a + b < 2 ^ 128 then Some (a + b) else None)"
  "cur_sub (sample_env txns outs) = (\<lambda>a b. if b \<le> a then Some (a - b) else None)"
  "cur_add_overflow (sample_env txns outs) = (\<lambda>a b. ((a + b) mod 2 ^ 128, 2 ^ 128 \<le> a + b))"
  "cur_cmp (sample_env txns outs) = (\<lambda>a b. if a < b then - 1 else if a = b then 0 else 1)"
  "cur_is_zero (sample_env txns outs) = (\<lambda>a. a = 0)"
  "cur_exact (sample_env txns outs) = decimal_digits"
  "cur_parse (sample_env txns outs) = sample_parse"
  "fee_default (sample_env txns outs) = 1"
  "format_amount (sample_env txns outs) = (\<lambda>v u. decimal_digits v)"
  "qday_value (sample_env txns outs) = (\<lambda>cs el h. so_value (se_output el) mod 2 ^ 128)"
  "qday_units (sample_env txns outs) = (\<lambda>cs h. 1)"
  "qday_active (sample_env txns outs) = (\<lambda>cs h. False)"
  "qday_v1_active (sample_env txns outs) = (\<lambda>cs h. True)"
  "input_sig_hash (sample_env txns outs) = (\<lambda>cs t. [5])"
  "work_intent (sample_env txns outs) = (\<lambda>cs t. [])"
  "work_valid (sample_env txns outs) = (\<lambda>i n b. True)"
  "validate_txn (sample_env txns outs) = (\<lambda>cs t. None)"
  "now (sample_env txns outs) = (\<lambda>w. (0, w))"
  "db_fault (sample_env txns outs) = (\<lambda>w. (None, w))"
  "read_key (sample_env txns outs) = (\<lambda>p pw w. (Inr [1], w))"
  "ctx_err (sample_env txns outs) = (\<lambda>c w. (None, w))"
  "op_try_lock (sample_env txns outs) = (\<lambda>w. (True, w))"
  "cm_tip_state (sample_env txns outs) = (\<lambda>w. (sample_cs, w))"
  "cm_tip (sample_env txns outs) = (\<lambda>w. (sample_index, w))"
  "cm_best_index (sample_env txns outs) = (\<lambda>h w. (if h \<le> 10 then Some \<lparr>ci_height = h, ci_id = replicate 32 7\<rparr> else None, w))"
  "cm_block_parent (sample_env txns outs) = (\<lambda>i w. (Some (replicate 32 7), w))"
  "cm_pool (sample_env txns outs) = (\<lambda>w. ([], w))"
  "cm_add_pool (sample_env txns outs) = (\<lambda>i ts w. (None, w))"
  "cm_update_set (sample_env txns outs) = (\<lambda>ts a b w. ((ts, None), w))"
  "wm_tip (sample_env txns outs) = (\<lambda>w. (Inr sample_index, w))"
  "wm_unspent (sample_env txns outs) = (\<lambda>wid k n w. (Inr (take n (drop k outs), sample_index), w))"
  "wm_address_outputs (sample_env txns outs) = (\<lambda>a k n w. (Inr (take n (drop k outs), sample_index), w))"
  "wm_add_addresses (sample_env txns outs) = (\<lambda>wid as w. (None, w))"
  "wm_events (sample_env txns outs) = (\<lambda>ids w. (Inr [], w))"
  "wm_wallet_events (sample_env txns outs) = (\<lambda>wid k n w. (Inr [], w))"
  "wm_address_events (sample_env txns outs) = (\<lambda>a k n w. (Inr [], w))"
  "wm_unconfirmed (sample_env txns outs) = (\<lambda>a w. (Inr [], w))"
  "wm_immature (sample_env txns outs) = (\<lambda>wid w. (Inr 0, w))"
  "sy_peers (sample_env txns outs) = (\<lambda>w. ([], w))"
  "sy_broadcast (sample_env txns outs) = (\<lambda>i ts w. (None, w))"
  "sign_claim (sample_env txns outs) = (\<lambda>c cs t sc k sec w. (Inr t, w))"
  "sign_refund (sample_env txns outs) = (\<lambda>c cs t sc k w. (Inr t, w))"
  "map_order (sample_env txns outs) = (\<lambda>ks w. (ks, w))"
  "sort_indices (sample_env txns outs) = (\<lambda>lt n. insertion_sort lt [0..<n])"
  by (simp_all add: sample_env_def sample_calls_def)

lemma sample_sort [simp]: "sort_elements (sample_env txns outs) = insertion_sort"
proof (intro ext)
  fix lt and xs :: "'a list"
  have "insertion_sort lt xs = insertion_sort lt (map ((!) xs) [0..<length xs])" by (simp add: map_nth)
  then show "sort_elements (sample_env txns outs) lt xs = insertion_sort lt xs"
    by (simp add: sort_elements_def insertion_sort_map)
qed

lemma sample_currency_laws [simp]: "currency_laws (sample_env txns outs)"
  by (simp add: currency_laws_def sample_parse_def)

lemma sample_codec_laws [simp]: "codec_laws (sample_env txns outs)"
  using sample_codec by (auto simp: codec_laws_def sample_parse_def)

lemma sample_key_laws [simp]: "key_laws (sample_env txns outs)"
  by (simp add: key_laws_def sound_keys_def full_keys_def sample_keys_def)

lemma sample_slice_laws [simp]: "slice_laws (sample_env txns outs)"
proof -
  have "strict_weak (set [0..<n]) lt \<Longrightarrow> sorted_wrt (\<lambda>i j. \<not> lt j i) (insertion_sort lt [0..<n])" for n :: nat and lt
    by (rule sort_laws_sorted [OF insertion_sort_laws])
  then show ?thesis
    by (simp add: slice_laws_def sort_laws_mset [OF insertion_sort_laws] atLeast0LessThan)
qed

section \<open>A daemon with one address\<close>

definition sample_row :: address_row where
  "sample_row = \<lparr>ar_index = 0, ar_address = bytes_text (classical sample_keys),
     ar_public = classical sample_keys @ reserve sample_keys, ar_reference = Some ''order-1'',
     ar_kind = ''deposit'', ar_created = 0\<rparr>"

definition sample_owner :: addr_rec where
  "sample_owner = \<lparr>a_index = 0, a_address = classical sample_keys, a_public = sample_keys,
     a_reference = ''order-1'', a_kind = ''deposit'', a_created = 0\<rparr>"

definition empty_store :: store where
  "empty_store = \<lparr>t_addresses = [], t_withdrawals = [], t_swap_keys = [], t_swaps = [], t_actions = []\<rparr>"

definition sample_sys :: "unit sys" where
  "sample_sys = \<lparr>world = (), tables = empty_store\<lparr>t_addresses := [sample_row]\<rparr>, mst_seed = Some [1],
     the_node = \<lparr>n_development = True, n_has_syncer = True, n_genesis = [], n_wallet = 1, n_swap_wallet = 2\<rparr>,
     key_path = ''wallet.key'', wake = False\<rparr>"

text \<open>The states with this one address in this one wallet.\<close>

definition sample_wallet :: "unit sys \<Rightarrow> bool" where
  "sample_wallet s \<longleftrightarrow> t_addresses (tables s) = [sample_row] \<and> n_wallet (the_node s) = 1"

lemma sample_wallet_sys [simp]: "sample_wallet sample_sys"
  by (simp add: sample_wallet_def sample_sys_def)

lemma world_unit: "s\<lparr>world := ()\<rparr> = (s :: unit sys)"
  by simp

lemma sample_decode_row: "decode_address (sample_env txns outs) sample_row = Inr sample_owner"
  by (simp add: decode_address_def sample_row_def sample_owner_def scan_uint64_def
      sample_keys_def unix_time_def numeral_eq_Suc)

text \<open>The definitions an example is evaluated with.\<close>

lemmas sample_run = bnd_def statement_def ext_err_def ext_sum_def ext_def attempt_def guard_err_def
  lift_err_def query_row_def Let_def

lemmas sample_state = sample_sys_def empty_store_def

end
