(* ===== verification/Selection.thy ===== *)
theory Selection
  imports Custody_Facts Sample
begin

text \<open>
  The selection of inputs of a custody transfer. Largest first is optimal: no set of outputs of
  the same size is worth more, so a refusal means that no 128 spendable outputs are enough, and
  a selection never uses more inputs than another one that would do.
\<close>

section \<open>Largest first\<close>

lemma greedy_bound:
  fixes f :: "'a \<Rightarrow> nat"
  assumes "sorted_wrt (\<lambda>a b. f b \<le> f a) xs" and "mset ys \<subseteq># mset xs"
  shows "sum_list (map f ys) \<le> sum_list (map f (take (length ys) xs))"
  using assms
proof (induction xs arbitrary: ys)
  case Nil
  then show ?case by simp
next
  case (Cons x xs)
  have sorted: "sorted_wrt (\<lambda>a b. f b \<le> f a) xs" and top: "\<And>y. y \<in> set xs \<Longrightarrow> f y \<le> f x"
    using Cons.prems(1) by simp_all
  show ?case
  proof (cases "x \<in> set ys")
    case True
    let ?ys = "remove1 x ys"
    have "mset ?ys \<subseteq># mset xs"
      using Cons.prems(2) True by (simp add: insert_subset_eq_iff subset_eq_diff_conv)
    with sorted have IH: "sum_list (map f ?ys) \<le> sum_list (map f (take (length ?ys) xs))"
      by (rule Cons.IH)
    have "sum_list (map f ys) = f x + sum_list (map f ?ys)"
      using True by (rule sum_list_map_remove1)
    moreover have "length ys = Suc (length ?ys)"
      using True by (simp add: length_remove1) (metis Suc_pred length_pos_if_in_set)
    ultimately show ?thesis using IH by simp
  next
    case False
    have "count (mset ys) a \<le> count (mset xs) a" for a
    proof (cases "a = x")
      case True
      with False have "count (mset ys) a = 0" by (metis not_in_iff set_mset_mset)
      then show ?thesis by linarith
    next
      case False
      then show ?thesis using mset_subset_eq_count [OF Cons.prems(2), of a] by simp
    qed
    then have sub: "mset ys \<subseteq># mset xs" by (simp add: subseteq_mset_def)
    show ?thesis
    proof (cases ys)
      case (Cons y ys')
      with sub have "y \<in> set xs" using mset_subset_eqD by fastforce
      then have "f y \<le> f x" by (rule top)
      moreover have "mset ys' \<subseteq># mset xs"
        using sub Cons by (simp add: subset_mset.order_trans [OF _ sub])
      with sorted have "sum_list (map f ys') \<le> sum_list (map f (take (length ys') xs))"
        by (rule Cons.IH)
      ultimately show ?thesis using Cons by simp
    qed simp
  qed
qed

section \<open>The loop\<close>

definition value_sum :: "('x, 'z) env_scheme \<Rightarrow> cstate \<Rightarrow> siacoin_element list \<Rightarrow> nat" where
  "value_sum E cs outputs = sum_list (map (spend_value E cs) outputs)"

lemma value_sum_simps [simp]:
  "value_sum E cs [] = 0"
  "value_sum E cs (x # xs) = spend_value E cs x + value_sum E cs xs"
  "value_sum E cs (xs @ ys) = value_sum E cs xs + value_sum E cs ys"
  by (simp_all add: value_sum_def)

lemma spend_value_bound: "currency_laws E \<Longrightarrow> spend_value E cs x < 2 ^ 128"
  unfolding spend_value_def by (rule currency_bounds(3))

text \<open>An owner is a record the table holds under the address of the output it owns.\<close>

definition owns :: "('x, 'z) env_scheme \<Rightarrow> address_row list \<Rightarrow> siacoin_element \<Rightarrow> addr_rec \<Rightarrow> bool" where
  "owns E rows output owner \<longleftrightarrow>
     (\<exists>row\<in>set rows. ar_address row = qaddr_string E (so_address (se_output output)) \<and>
        decode_address E row = Inr owner)"

lemma address_by_hash_ok:
  assumes "address_by_hash E addr s = (Ok r, t)"
  shows "tables t = tables s" and "the_node t = the_node s" and "mst_seed t = mst_seed s"
    and "case r of None \<Rightarrow> qaddr_string E addr \<notin> ar_address ` set (t_addresses (tables s))
      | Some a \<Rightarrow> \<exists>row\<in>set (t_addresses (tables s)).
          ar_address row = qaddr_string E addr \<and> decode_address E row = Inr a"
  using assms
  by (auto simp: address_by_hash_def run_iffs query_row_def find_Some_iff find_None_iff
      split: option.splits sum.splits)

definition input_of :: "('x, 'z) env_scheme \<Rightarrow> siacoin_element \<Rightarrow> addr_rec \<Rightarrow> v2input" where
  "input_of E output owner =
     \<lparr>in_parent = output, in_satisfied = policy_only (keys_policy E (a_public owner))\<rparr>"

lemma select_step_ok:
  assumes laws: "currency_laws E" and tot: "sel_total sel < 2 ^ 128" and req: "required < 2 ^ 128"
    and ok: "select_step E cs required output sel s = (Ok r, t)"
  obtains owner sel' where "owns E (t_addresses (tables s)) output owner"
    and "tables t = tables s" and "the_node t = the_node s" and "mst_seed t = mst_seed s"
    and "sel_inputs sel' = sel_inputs sel @ [input_of E output owner]"
    and "sel_owners sel' = sel_owners sel @ [owner]"
    and "sel_total sel' = sel_total sel + spend_value E cs output" and "sel_total sel' < 2 ^ 128"
    and "r = (if required \<le> sel_total sel' \<or> length (sel_inputs sel') = max_inputs then Inr sel' else Inl sel')"
proof -
  from ok obtain found u where a: "address_by_hash E (so_address (se_output output)) s = (Ok found, u)"
    and f: "(case found of None \<Rightarrow> fail (Svc UnknownKey)
      | Some owner \<Rightarrow> bnd (lift_panic (cur_add E (sel_total sel) (spend_value E cs output))) (\<lambda>total.
         let sel' = \<lparr>sel_inputs = sel_inputs sel @ [input_of E output owner],
             sel_owners = sel_owners sel @ [owner], sel_total = total\<rparr> in
         if cur_cmp E total required \<ge> 0 \<or> length (sel_inputs sel') = max_inputs
         then ret (Inr sel') else ret (Inl sel'))) u = (Ok r, t)"
    unfolding select_step_def bnd_Ok_iff input_of_def by blast
  then obtain owner where found: "found = Some owner" by (cases found) auto
  let ?v = "spend_value E cs output"
  have add: "cur_add E (sel_total sel) ?v = (if sel_total sel + ?v < 2 ^ 128 then Some (sel_total sel + ?v) else None)"
    using laws tot spend_value_bound [OF laws] by (rule currency_lawsD(1))
  with f found have bound: "sel_total sel + ?v < 2 ^ 128"
    by (auto simp: bnd_Ok_iff lift_panic_Ok_iff split: if_splits)
  let ?sel = "\<lparr>sel_inputs = sel_inputs sel @ [input_of E output owner],
      sel_owners = sel_owners sel @ [owner], sel_total = sel_total sel + ?v\<rparr>"
  have "cur_cmp E (sel_total sel + ?v) required \<ge> 0 \<longleftrightarrow> required \<le> sel_total sel + ?v"
    using currency_lawsD(4) [OF laws bound req] by (auto simp: not_less)
  with f found add bound have r: "r = (if required \<le> sel_total ?sel \<or> length (sel_inputs ?sel) = max_inputs
      then Inr ?sel else Inl ?sel)" and t: "t = u"
    by (auto simp: Let_def split: if_splits)
  note hash = address_by_hash_ok [OF a]
  show thesis
    by (rule that [where owner = owner and sel' = ?sel])
      (use hash found t r bound in \<open>auto simp: owns_def\<close>)
qed

text \<open>Where the loop stops: the least number of outputs that reaches the sum, or the limit.\<close>

definition stops_at :: "('x, 'z) env_scheme \<Rightarrow> cstate \<Rightarrow> currency \<Rightarrow> siacoin_element list \<Rightarrow> nat \<Rightarrow> bool" where
  "stops_at E cs required outputs n \<longleftrightarrow> n \<le> length outputs \<and> n \<le> max_inputs \<and>
     (\<forall>k. 0 < k \<longrightarrow> k < n \<longrightarrow> value_sum E cs (take k outputs) < required) \<and>
     (n < length outputs \<longrightarrow> n = max_inputs \<or> 0 < n \<and> required \<le> value_sum E cs (take n outputs))"

lemma select_foreach:
  assumes laws: "currency_laws E" and req: "required < 2 ^ 128"
    and "foreach (select_step E cs required) rest sel s = (Ok r, t)"
    and "sel_total sel < 2 ^ 128" and "sel_total sel = value_sum E cs done"
    and "map in_parent (sel_inputs sel) = done" and "length done < max_inputs"
    and "list_all2 (\<lambda>i owner. i = input_of E (in_parent i) owner \<and> owns E (t_addresses (tables s)) (in_parent i) owner)
      (sel_inputs sel) (sel_owners sel)"
    and "\<forall>k. 0 < k \<longrightarrow> k \<le> length done \<longrightarrow> value_sum E cs (take k done) < required"
  shows "\<exists>n sel'. r \<in> {Inl sel', Inr sel'} \<and> tables t = tables s \<and> the_node t = the_node s \<and> mst_seed t = mst_seed s \<and>
    sel_total sel' < 2 ^ 128 \<and> stops_at E cs required (done @ rest) n \<and>
    map in_parent (sel_inputs sel') = take n (done @ rest) \<and>
    sel_total sel' = value_sum E cs (take n (done @ rest)) \<and>
    list_all2 (\<lambda>i owner. i = input_of E (in_parent i) owner \<and> owns E (t_addresses (tables s)) (in_parent i) owner)
      (sel_inputs sel') (sel_owners sel')"
  using assms(3-)
proof (induction rest arbitrary: sel s "done")
  case Nil
  then show ?case
    by (intro exI [of _ "length done"] exI [of _ sel]) (auto simp: stops_at_def)
next
  case (Cons outp rest)
  from Cons.prems(1) obtain r1 s1 where step: "select_step E cs required outp sel s = (Ok r1, s1)"
    and cont: "(case r1 of Inl acc' \<Rightarrow> foreach (select_step E cs required) rest acc' | Inr c \<Rightarrow> ret (Inr c)) s1 = (Ok r, t)"
    by (auto simp: bnd_Ok_iff)
  obtain owner sel1 where o: "owns E (t_addresses (tables s)) outp owner"
    and frame: "tables s1 = tables s" "the_node s1 = the_node s" "mst_seed s1 = mst_seed s"
    and ins: "sel_inputs sel1 = sel_inputs sel @ [input_of E outp owner]"
    and own: "sel_owners sel1 = sel_owners sel @ [owner]"
    and tot: "sel_total sel1 = sel_total sel + spend_value E cs outp" "sel_total sel1 < 2 ^ 128"
    and r1: "r1 = (if required \<le> sel_total sel1 \<or> length (sel_inputs sel1) = max_inputs then Inr sel1 else Inl sel1)"
    using select_step_ok [OF laws Cons.prems(2) req step] by metis
  let ?done = "done @ [outp]"
  have sum: "sel_total sel1 = value_sum E cs ?done" using tot Cons.prems(3) by simp
  have par: "map in_parent (sel_inputs sel1) = ?done"
    using ins Cons.prems(4) by (simp add: input_of_def)
  then have len: "length (sel_inputs sel1) = Suc (length done)" by (metis length_append_singleton length_map)
  have all: "list_all2 (\<lambda>i owner. i = input_of E (in_parent i) owner \<and> owns E (t_addresses (tables s)) (in_parent i) owner)
      (sel_inputs sel1) (sel_owners sel1)"
    using Cons.prems(6) ins own o by (simp add: list_all2_appendI input_of_def)
  show ?case
  proof (cases "required \<le> sel_total sel1 \<or> length (sel_inputs sel1) = max_inputs")
    case True
    with r1 cont have r: "r = Inr sel1" "t = s1" by auto
    have "stops_at E cs required (done @ outp # rest) (Suc (length done))"
      unfolding stops_at_def
    proof (intro conjI allI impI)
      fix k assume "0 < k" "k < Suc (length done)"
      then show "value_sum E cs (take k (done @ outp # rest)) < required"
        using Cons.prems(7) by simp
    qed (use Cons.prems(5) True sum len in auto)
    with r frame tot par sum all show ?thesis
      by (intro exI [of _ "Suc (length done)"] exI [of _ sel1]) simp
  next
    case False
    with r1 cont have rest: "foreach (select_step E cs required) rest sel1 s1 = (Ok r, t)" by simp
    have pre: "\<forall>k. 0 < k \<longrightarrow> k \<le> length ?done \<longrightarrow> value_sum E cs (take k ?done) < required"
    proof (intro allI impI)
      fix k assume "0 < k" "k \<le> length ?done"
      then show "value_sum E cs (take k ?done) < required"
        using Cons.prems(7) False sum by (cases "k = Suc (length done)") auto
    qed
    have lt: "length ?done < max_inputs" using False len Cons.prems(5) by auto
    from Cons.IH [OF rest tot(2) sum par lt _ pre] all frame show ?thesis by simp
  qed
qed

lemma select_inputs_ok:
  assumes laws: "currency_laws E" and req: "required < 2 ^ 128"
    and ok: "select_inputs E cs required outputs s = (Ok sel, t)"
  obtains n where "tables t = tables s" and "the_node t = the_node s" and "mst_seed t = mst_seed s"
    and "sel_total sel < 2 ^ 128" and "stops_at E cs required outputs n"
    and "map in_parent (sel_inputs sel) = take n outputs"
    and "sel_total sel = value_sum E cs (take n outputs)"
    and "list_all2 (\<lambda>i owner. i = input_of E (in_parent i) owner \<and>
        owns E (t_addresses (tables s)) (in_parent i) owner) (sel_inputs sel) (sel_owners sel)"
proof -
  let ?z = "\<lparr>sel_inputs = [], sel_owners = [], sel_total = 0\<rparr>"
  from ok obtain r where f: "foreach (select_step E cs required) outputs ?z s = (Ok r, t)"
    and sel: "sel = (case r of Inl sel \<Rightarrow> sel | Inr sel \<Rightarrow> sel)"
    by (auto simp: select_inputs_def bnd_Ok_iff)
  from select_foreach [OF laws req f, of "[]"]
  obtain n sel' where "r \<in> {Inl sel', Inr sel'}" "tables t = tables s" "the_node t = the_node s"
    "mst_seed t = mst_seed s" "sel_total sel' < 2 ^ 128" "stops_at E cs required outputs n"
    "map in_parent (sel_inputs sel') = take n outputs"
    "sel_total sel' = value_sum E cs (take n outputs)"
    "list_all2 (\<lambda>i owner. i = input_of E (in_parent i) owner \<and>
        owns E (t_addresses (tables s)) (in_parent i) owner) (sel_inputs sel') (sel_owners sel')"
    by (auto simp: max_inputs_def)
  moreover from this sel have "sel = sel'" by auto
  ultimately show thesis using that by blast
qed

lemma larger_first_iff:
  assumes "currency_laws E"
  shows "larger_first E cs a b \<longleftrightarrow> spend_value E cs b < spend_value E cs a"
proof -
  have b: "spend_value E cs a < 2 ^ 128" "spend_value E cs b < 2 ^ 128"
    using spend_value_bound [OF assms] by simp_all
  from currency_lawsD(4,5) [OF assms b] show ?thesis
    unfolding larger_first_def by linarith
qed

lemma sorted_outputs:
  assumes "currency_laws E" and "slice_laws E"
  shows "sorted_wrt (\<lambda>a b. spend_value E cs b \<le> spend_value E cs a)
    (sort_elements E (larger_first E cs) outputs)"
proof -
  have "strict_weak A (larger_first E cs)" for A
    unfolding strict_weak_def larger_first_iff [OF assms(1)] by auto
  from sort_laws_sorted [OF slice_sort [OF assms(2)] this]
  show ?thesis by (simp add: larger_first_iff [OF assms(1)] not_less)
qed

lemma value_sum_take_mono:
  "k \<le> n \<Longrightarrow> value_sum E cs (take k xs) \<le> value_sum E cs (take n xs)"
  by (metis le_add1 le_add_diff_inverse take_add value_sum_simps(3))

text \<open>
  C5. The selection of inputs is optimal. When the sum is not reached, no choice of at most 128
  spendable outputs is worth the amount plus the fee, so the refusal with "insufficient
  confirmed spendable balance" is never wrong; when it is reached, no sufficient choice has
  fewer outputs. The selection's total is the value of its inputs, and it has at most 128.
\<close>

theorem selection_optimal:
  assumes "currency_laws E" and "slice_laws E" and "0 < required" and "required < 2 ^ 128"
    and "select_inputs E cs required (sort_elements E (larger_first E cs) outputs) s = (Ok sel, t)"
    and "mset ys \<subseteq># mset outputs"
  shows "(sel_total sel < required \<longrightarrow> length ys \<le> max_inputs \<longrightarrow> value_sum E cs ys < required) \<and>
    (required \<le> sel_total sel \<longrightarrow> required \<le> value_sum E cs ys \<longrightarrow> length (sel_inputs sel) \<le> length ys) \<and>
    sel_total sel = value_sum E cs (map in_parent (sel_inputs sel)) \<and>
    length (sel_inputs sel) \<le> max_inputs"
proof -
  let ?xs = "sort_elements E (larger_first E cs) outputs"
  obtain n where stop: "stops_at E cs required ?xs n"
    and par: "map in_parent (sel_inputs sel) = take n ?xs"
    and tot: "sel_total sel = value_sum E cs (take n ?xs)"
    using select_inputs_ok [OF assms(1,4,5)] by metis
  from stop have n: "n \<le> length ?xs" "n \<le> max_inputs"
    and before: "\<And>k. 0 < k \<Longrightarrow> k < n \<Longrightarrow> value_sum E cs (take k ?xs) < required"
    and reach: "n < length ?xs \<Longrightarrow> n \<noteq> max_inputs \<Longrightarrow> required \<le> value_sum E cs (take n ?xs)"
    by (auto simp: stops_at_def)
  from par n have len: "length (sel_inputs sel) = n" by (metis length_map length_take min.absorb2)
  have "mset ys \<subseteq># mset ?xs" using assms(6) by (simp add: sort_laws_mset [OF slice_sort [OF assms(2)]])
  with sorted_outputs [OF assms(1,2)]
  have greedy: "value_sum E cs ys \<le> value_sum E cs (take (length ys) ?xs)"
    unfolding value_sum_def by (rule greedy_bound)
  have 1: "value_sum E cs ys < required" if "sel_total sel < required" "length ys \<le> max_inputs"
  proof -
    have "n = length ?xs \<or> n = max_inputs" using reach n tot that(1) by fastforce
    then have "value_sum E cs (take (length ys) ?xs) \<le> value_sum E cs (take n ?xs)"
    proof
      assume "n = length ?xs"
      then show ?thesis
        using value_sum_take_mono [of "length ys" n E cs ?xs] by (cases "length ys \<le> n") simp_all
    next
      assume "n = max_inputs"
      then show ?thesis using that(2) by (auto intro: value_sum_take_mono)
    qed
    with greedy tot that(1) show ?thesis by simp
  qed
  have 2: "n \<le> length ys" if "required \<le> value_sum E cs ys"
  proof (rule ccontr)
    assume "\<not> n \<le> length ys"
    then have "value_sum E cs (take (length ys) ?xs) < required"
      using before [of "length ys"] assms(3) by (cases "length ys = 0") simp_all
    with greedy that show False by simp
  qed
  show ?thesis using 1 2 len par tot n by simp
qed

text \<open>Two outputs of 500 and 700 units and 600 to pay: the larger one alone is selected.\<close>

definition sample_outputs :: "siacoin_element list" where
  "sample_outputs = [sample_output 1 500, sample_output 2 700]"

lemma sample_by_hash:
  "sample_wallet s \<Longrightarrow> address_by_hash (sample_env txns outs) (classical sample_keys) s = (Ok (Some sample_owner), s)"
  using sample_decode_row [of txns outs]
  by (simp add: address_by_hash_def statement_def ext_err_def ext_def sample_wallet_def world_unit
      query_row_def bnd_def) (simp add: sample_row_def)

lemma sample_sorted:
  "insertion_sort (larger_first (sample_env txns outs) sample_cs) sample_outputs
    = [sample_output 2 700, sample_output 1 500]"
  by (simp add: insertion_sort_def sample_outputs_def larger_first_def spend_value_def sample_output_def)

lemma sample_selected:
  "r \<le> 700 \<Longrightarrow> sample_wallet s \<Longrightarrow>
    select_inputs (sample_env txns outs) sample_cs r [sample_output 2 700, sample_output 1 500] s
    = (Ok \<lparr>sel_inputs = [input_of (sample_env txns outs) (sample_output 2 700) sample_owner],
           sel_owners = [sample_owner], sel_total = 700\<rparr>, s)"
  by (simp add: select_inputs_def select_step_def bnd_def sample_by_hash sample_output_def
      spend_value_def input_of_def max_inputs_def)

theorem selection_optimal_witness:
  "\<exists>sel. select_inputs (sample_env [] []) sample_cs 600
      (insertion_sort (larger_first (sample_env [] []) sample_cs) sample_outputs) sample_sys = (Ok sel, sample_sys) \<and>
    length (sel_inputs sel) \<le> length [sample_output 2 700] \<and>
    sel_total sel = value_sum (sample_env [] []) sample_cs (map in_parent (sel_inputs sel))"
proof -
  let ?E = "sample_env [] []"
  let ?sel = "\<lparr>sel_inputs = [input_of ?E (sample_output 2 700) sample_owner], sel_owners = [sample_owner], sel_total = 700\<rparr>"
  have run: "select_inputs ?E sample_cs 600 (sort_elements ?E (larger_first ?E sample_cs) sample_outputs) sample_sys
      = (Ok ?sel, sample_sys)"
    by (simp add: sample_sorted sample_selected)
  have worth: "600 \<le> value_sum ?E sample_cs [sample_output 2 700]"
    by (simp add: spend_value_def sample_output_def)
  have sub: "mset [sample_output 2 700] \<subseteq># mset sample_outputs"
    by (simp add: sample_outputs_def)
  show ?thesis
    using selection_optimal [OF _ _ _ _ run sub] worth run by auto
qed

end
