(* ===== verification/Address_Facts.thy ===== *)
theory Address_Facts
  imports Service Sample
begin

text \<open>
  What the allocation of addresses guarantees: the validators in terms of bytes, the address a
  call issues, the idempotency of deposit addresses (also after a failure half way), and the
  invariant that the table is the list of the wallet's children in order.
\<close>

section \<open>Validators\<close>

text \<open>
  C15. The reference and request-identifier validators range over runes, yet they accept exactly
  the strings of 1 to 128 bytes in which every byte is an allowed ASCII character: no multi-byte
  or malformed UTF-8 sequence gets through. A reference takes the graphic characters from '!' to
  '~'. The documentation and the text of the error promise the printable ones, but the space,
  which is the only other printable ASCII character, is refused.
\<close>

theorem validators_bytewise:
  "(valid_reference v \<longleftrightarrow> length v \<in> {1..128} \<and> list_all (char_between CHR ''!'' CHR ''~'') v) \<and>
   (valid_request_id v \<longleftrightarrow> length v \<in> {1..128} \<and>
      list_all (\<lambda>c. char_between CHR ''0'' CHR ''9'' c \<or> char_between CHR ''A'' CHR ''Z'' c \<or>
        char_between CHR ''a'' CHR ''z'' c \<or> c \<in> set ''._:-'') v) \<and>
   \<not> valid_reference (v @ CHR '' '' # v')"
proof -
  have mem: "c \<in> set ''._:-'' \<longleftrightarrow> byte_of c \<in> set (map byte_of ''._:-'')" for c
    using byte_of_inj by auto
  have ne: "v \<noteq> [] \<longleftrightarrow> 1 \<le> length v" for v :: string by (cases v) simp_all
  have "valid_reference v \<longleftrightarrow> length v \<in> {1..128} \<and> list_all (char_between CHR ''!'' CHR ''~'') v" for v
    using ne [of v] unfolding valid_reference_def char_between_def
    by (subst runes_ascii) (auto simp: byte_of_def list_all_iff not_less)
  with ne [of v] show ?thesis
    unfolding valid_request_id_def mem char_between_def
    by (subst runes_ascii) (auto simp: byte_of_def list_all_iff not_less)
qed

section \<open>Issuing an address\<close>

text \<open>The record a call of \<open>newAddress\<close> issues.\<close>

definition issued :: "('x, 'z) env_scheme \<Rightarrow> 'x sys \<Rightarrow> string \<Rightarrow> string \<Rightarrow> addr_rec \<Rightarrow> bool" where
  "issued E s ref kind a \<longleftrightarrow> (\<exists>mst keys.
     mst_seed s = Some mst \<and> uint (a_index a) = next_value (t_addresses (tables s)) \<and>
     uint (a_index a) < 2 ^ 63 \<and>
     derive_keys E mst (a_index a) = Inr keys \<and> a_public a = pk_public keys \<and>
     a_address a = keys_address E (pk_public keys) \<and> a_reference a = ref \<and> a_kind a = kind \<and>
     address_constraints (t_addresses (tables s)) (address_row_of E a (uint (a_index a))))"

definition with_address :: "('x, 'z) env_scheme \<Rightarrow> addr_rec \<Rightarrow> 'x sys \<Rightarrow> 'x sys" where
  "with_address E a s = s\<lparr>tables := (tables s)\<lparr>t_addresses := t_addresses (tables s) @
     [address_row_of E a (uint (a_index a))]\<rparr>\<rparr>"

lemma frame_world: "frame s (s\<lparr>world := w\<rparr>)"
  by (simp add: frame_def)

lemma register_address_frame: "evolves frame (register_address E a)"
  unfolding register_address_def by (intro frame_intros)

lemma scan_uint64_Inr: "scan_uint64 v = Inr i \<Longrightarrow> uint i = v \<and> v < 2 ^ 63"
  by (auto simp: scan_uint64_def word_uint_eq_iff uint_word_of_int split: if_splits)

lemma sql_uint64_Inr: "sql_uint64 i = Inr v \<Longrightarrow> uint i = v \<and> v < 2 ^ 63"
  by (auto simp: sql_uint64_def split: if_splits)

lemma add_address_cases:
  assumes "add_address E a s = (r, t)"
  shows "(\<exists>e. r = Err e) \<and> frame s t \<or>
    r = Ok () \<and> frame (with_address E a s) t \<and>
      address_constraints (t_addresses (tables s)) (address_row_of E a (uint (a_index a)))"
proof (cases "sql_uint64 (a_index a)")
  case (Inl e)
  with assms show ?thesis by (auto simp: add_address_def frame_def)
next
  case (Inr i)
  then have i: "i = uint (a_index a)" by (simp add: sql_uint64_def split: if_splits)
  obtain f w where f: "db_fault E (world s) = (f, w)" by fastforce
  show ?thesis
  proof (cases f)
    case (Some e)
    with assms Inr f show ?thesis
      by (auto simp: add_address_def statement_def ext_err_def ext_def bnd_def frame_def)
  next
    case None
    then have st: "statement E s = (Ok (), s\<lparr>world := w\<rparr>)"
      using f by (simp add: statement_Ok_iff)
    show ?thesis
      using assms Inr
      by (cases "address_constraints (t_addresses (tables s)) (address_row_of E a i)")
        (auto simp: add_address_def bnd_def st i with_address_def frame_def Let_def)
  qed
qed

text \<open>Every outcome of \<open>newAddress\<close>: nothing is stored, or the issued record is, even where
  registering it with the wallet index fails afterwards.\<close>

lemma new_address_cases:
  assumes "new_address E ref kind s = (r, t)"
  shows "(\<forall>a. r \<noteq> Ok a) \<and> frame s t \<or>
    (\<exists>a. issued E s ref kind a \<and> frame (with_address E a s) t \<and> (\<forall>a'. r = Ok a' \<longrightarrow> a' = a))"
proof (cases "mst_seed s")
  case None
  with assms show ?thesis by (auto simp: new_address_def master_seed_def bnd_def frame_def)
next
  case (Some mst)
  then have m: "master_seed s = (Ok mst, s)" by (simp add: master_seed_def bnd_eq_Ok)
  obtain ri s1 where ni: "next_index E s = (ri, s1)" by fastforce
  have f1: "frame s s1" using frame_reads(7) ni by (rule evolvesD)
  show ?thesis
  proof (cases ri)
    case (Ok index)
    from ni Ok have idx: "uint index = next_value (t_addresses (tables s)) \<and> uint index < 2 ^ 63"
      by (auto simp: next_index_def run_iffs dest!: scan_uint64_Inr)
    show ?thesis
    proof (cases "derive_keys E mst index")
      case (Inl e)
      with assms m ni Ok f1 show ?thesis
        by (auto simp: new_address_def bnd_eq_Ok)
    next
      case (Inr keys)
      obtain tm w where now: "now E (world s1) = (tm, w)" by fastforce
      define s2 where "s2 = s1\<lparr>world := w\<rparr>"
      have n: "ext (now E) s1 = (Ok tm, s2)" using now by (simp add: ext_app s2_def)
      have f2: "frame s s2" using f1 by (simp add: s2_def frame_def)
      define a where "a = \<lparr>a_index = index, a_address = keys_address E (pk_public keys),
        a_public = pk_public keys, a_reference = ref, a_kind = kind, a_created = tm\<rparr>"
      obtain ra s3 where add: "add_address E a s2 = (ra, s3)" by fastforce
      have run: "new_address E ref kind s = bnd (add_address E a) (\<lambda>_. bnd (register_address E a) (\<lambda>_. ret a)) s2"
        using m ni Ok Inr n by (simp add: new_address_def bnd_eq_Ok a_def Let_def)
      from add_address_cases [OF add] show ?thesis
      proof (elim disjE conjE exE)
        fix e assume "ra = Err e" "frame s2 s3"
        with run assms add f2 frame.le_trans show ?thesis by (auto simp: bnd_def)
      next
        assume ra: "ra = Ok ()" and fr: "frame (with_address E a s2) s3"
          and con: "address_constraints (t_addresses (tables s2)) (address_row_of E a (uint (a_index a)))"
        obtain rr s4 where reg: "register_address E a s3 = (rr, s4)" by fastforce
        have f4: "frame s3 s4" using register_address_frame reg by (rule evolvesD)
        have res: "t = s4 \<and> (\<forall>a'. r = Ok a' \<longrightarrow> a' = a)"
          using run assms add ra reg by (cases rr) (auto simp: bnd_def)
        have "issued E s ref kind a"
          unfolding issued_def using Some idx Inr con f2 by (auto simp: a_def frame_def)
        moreover have "frame (with_address E a s) t"
          using res fr f4 f2 by (auto simp: frame_def with_address_def)
        ultimately show ?thesis using res by blast
      qed
    qed
  qed (use assms m ni f1 in \<open>auto simp: new_address_def bnd_def\<close>)
qed

lemma new_address_ok:
  assumes "new_address E ref kind s = (Ok a, t)"
  shows "issued E s ref kind a" and "frame (with_address E a s) t"
  using new_address_cases [OF assms] by auto

lemma grow_new_address: "evolves store_le (new_address E ref kind)"
  unfolding new_address_def master_seed_def
  by (intro grow_intros store_grow register_address_frame [THEN grow_frame])

section \<open>Deposit addresses are idempotent\<close>

lemma find_prefix: "prefix xs ys \<Longrightarrow> List.find P xs = Some x \<Longrightarrow> List.find P ys = Some x"
proof -
  have "List.find P (xs @ zs) = Some x" if "List.find P xs = Some x" for zs
    using that by (induction xs) auto
  then show "prefix xs ys \<Longrightarrow> List.find P xs = Some x \<Longrightarrow> List.find P ys = Some x"
    by (auto elim!: prefixE)
qed

lemma find_append_None: "List.find P xs = None \<Longrightarrow> List.find P (xs @ ys) = List.find P ys"
  by (induction xs) auto

text \<open>The row of a reference.\<close>

definition reference_row :: "'x sys \<Rightarrow> string \<Rightarrow> address_row option" where
  "reference_row s ref = List.find (\<lambda>r. ar_reference r = Some ref) (t_addresses (tables s))"

lemma reference_row_le: "store_le s t \<Longrightarrow> reference_row s ref = Some r \<Longrightarrow> reference_row t ref = Some r"
  by (auto simp: reference_row_def store_le_def tables_le_def intro: find_prefix)

lemma address_by_reference_ok:
  assumes "address_by_reference E ref s = (Ok found, t)"
  shows "frame s t" and "case reference_row s ref of None \<Rightarrow> found = None
    | Some r \<Rightarrow> \<exists>a. decode_address E r = Inr a \<and> found = Some a"
proof -
  show "frame s t" using frame_reads(4) assms by (rule evolvesD)
  show "case reference_row s ref of None \<Rightarrow> found = None
    | Some r \<Rightarrow> \<exists>a. decode_address E r = Inr a \<and> found = Some a"
    using assms by (auto simp: address_by_reference_def run_iffs query_row_def reference_row_def
        split: option.splits sum.splits)
qed

lemma decode_address_fields:
  assumes "decode_address E r = Inr a"
  shows "qaddr_string E (a_address a) = ar_address r \<or> parse_qaddr E (ar_address r) = Inr (a_address a)"
    and "uint (a_index a) = ar_index r" and "a_created a = unix_time (ar_created r)"
    and "a_kind a = ar_kind r" and "a_reference a = (case ar_reference r of None \<Rightarrow> [] | Some ref \<Rightarrow> ref)"
    and "parse_qaddr E (ar_address r) = Inr (a_address a)"
  using assms by (auto simp: decode_address_def Let_def scan_uint64_Inr split: sum.splits if_splits option.splits)

lemma decode_issued:
  assumes "codec_laws E" and "a_reference a \<noteq> []"
    and "decode_address E (address_row_of E a (uint (a_index a))) = Inr b"
  shows "view_address E b = (view_address E a)\<lparr>av_created := unix_time (unix_seconds (a_created a))\<rparr>"
proof -
  let ?r = "address_row_of E a (uint (a_index a))"
  note f = decode_address_fields [OF assms(3)]
  have "a_index b = a_index a" using f(2) by (simp add: address_row_of_def word_uint_eq_iff)
  moreover have "a_address b = a_address a"
    using f(6) codec_lawsD(1) [OF assms(1)] by (simp add: address_row_of_def)
  ultimately show ?thesis using f assms(2) by (simp add: view_address_def address_row_of_def)
qed

lemma new_deposit_address_ok:
  assumes laws: "codec_laws E" and ok: "new_deposit_address E ref s = (Ok v, t)"
  obtains r where "reference_row t ref = Some r"
    and "\<And>b. decode_address E r = Inr b \<Longrightarrow>
      view_address E b = v\<lparr>av_created := unix_time (unix_seconds (av_created v))\<rparr>"
    and "reference_row s ref = Some r \<and> frame s t \<or>
      reference_row s ref = None \<and> (\<exists>a. issued E s ref ''deposit'' a \<and> v = view_address E a \<and>
        r = address_row_of E a (uint (a_index a)) \<and> frame (with_address E a s) t)"
proof -
  from ok obtain found u where ref: "valid_reference ref"
    and look: "address_by_reference E ref s = (Ok found, u)"
    and rest: "(case found of
       Some a \<Rightarrow> bnd (register_address E a) (\<lambda>_. ret (view_address E a))
     | None \<Rightarrow> bnd (new_address E ref ''deposit'') (\<lambda>a. ret (view_address E a))) u = (Ok v, t)"
    by (auto simp: new_deposit_address_def bnd_Ok_iff guard_err_Ok_iff)
  have ne: "ref \<noteq> []" using ref by (simp add: valid_reference_def)
  note found = address_by_reference_ok [OF look]
  show thesis
  proof (cases "reference_row s ref")
    case (Some r)
    with found(2) obtain a where a: "decode_address E r = Inr a" "found = Some a" by auto
    with rest obtain z where z: "register_address E a u = (z, t)" and v: "v = view_address E a"
      by (auto simp: bnd_Ok_iff)
    have fr: "frame s t"
      using found(1) evolvesD [OF register_address_frame z] by (rule frame.le_trans)
    have "v\<lparr>av_created := unix_time (unix_seconds (av_created v))\<rparr> = v"
      using decode_address_fields(3) [OF a(1)] v by (simp add: view_address_def)
    with a v Some fr show thesis
      by (intro that [of r]) (auto simp: reference_row_def frame_def)
  next
    case None
    with found(2) rest obtain a where na: "new_address E ref ''deposit'' u = (Ok a, t)"
      and v: "v = view_address E a"
      by (auto simp: bnd_Ok_iff)
    have iss: "issued E s ref ''deposit'' a" and fr: "frame (with_address E a s) t"
      using new_address_ok [OF na] found(1) by (auto simp: issued_def with_address_def frame_def)
    let ?r = "address_row_of E a (uint (a_index a))"
    have ar: "a_reference a = ref" using iss by (auto simp: issued_def)
    have "reference_row t ref = Some ?r"
      using None fr ar ne by (simp add: reference_row_def frame_def with_address_def
          find_append_None address_row_of_def)
    moreover have "view_address E b = v\<lparr>av_created := unix_time (unix_seconds (av_created v))\<rparr>"
      if "decode_address E ?r = Inr b" for b
      using decode_issued [OF laws _ that] ar ne v by (simp add: view_address_def)
    ultimately show thesis using None iss v fr by (intro that [of ?r]) auto
  qed
qed

text \<open>An issued row is read back, and so is the row that answers a reference.\<close>

lemma address_reads:
  assumes laws: "codec_laws E" "key_laws E" and new: "issued E s ref kind a"
  shows "reads (decode_address E (address_row_of E a (uint (a_index a))))"
proof -
  from new obtain mst keys where small: "uint (a_index a) < 2 ^ 63" and keys: "derive_keys E mst (a_index a) = Inr keys"
    and a: "a_public a = pk_public keys" "a_address a = keys_address E (pk_public keys)"
    unfolding issued_def by blast
  have "sound_keys E (a_public a)" using key_lawsD [OF laws(2)] keys a by (simp add: derive_keys_def)
  with a small codec_lawsD(1,5) [OF laws(1)] show ?thesis
    by (simp add: decode_address_def address_row_of_def scan_uint64_def sound_keys_def full_keys_def Let_def qkeys_split)
qed

lemma new_deposit_address_reads:
  assumes laws: "codec_laws E" "key_laws E" and ok: "new_deposit_address E ref s = (Ok v, t)"
  obtains r b where "reference_row t ref = Some r" and "decode_address E r = Inr b"
    and "view_address E b = v\<lparr>av_created := unix_time (unix_seconds (av_created v))\<rparr>"
proof -
  from ok obtain found u where look: "address_by_reference E ref s = (Ok found, u)"
    by (auto simp: new_deposit_address_def bnd_Ok_iff guard_err_Ok_iff)
  obtain r where r: "reference_row t ref = Some r"
    and v: "\<And>b. decode_address E r = Inr b \<Longrightarrow>
      view_address E b = v\<lparr>av_created := unix_time (unix_seconds (av_created v))\<rparr>"
    and old: "reference_row s ref = Some r \<and> frame s t \<or>
      reference_row s ref = None \<and> (\<exists>a. issued E s ref ''deposit'' a \<and> v = view_address E a \<and>
        r = address_row_of E a (uint (a_index a)) \<and> frame (with_address E a s) t)"
    using new_deposit_address_ok [OF laws(1) ok] by metis
  have "reads (decode_address E r)"
    using old address_by_reference_ok(2) [OF look] address_reads [OF laws] by (auto simp: reads_iff)
  with r v that show thesis by (auto simp: reads_iff)
qed

text \<open>
  C8. Asking again for the deposit address of a reference, at any later state of the daemon,
  issues nothing and answers with the first answer, whether or not the wallet is locked: the only
  errors are one of the database and one of the wallet index, which is told the address again.
  Only the creation time is rounded to the second the table stores.
\<close>

theorem deposit_address_idempotent:
  assumes "codec_laws E" and "key_laws E"
    and "new_deposit_address E ref s = (Ok v, t)"
    and "store_le t u"
    and "new_deposit_address E ref u = (r, w)"
  shows "frame u w \<and> (\<exists>entry. wa_description entry = ref \<and>
    r = (case db_fault E (world u) of (Some e, _) \<Rightarrow> Err e
       | (None, x) \<Rightarrow> (case fst (wm_add_addresses E (n_wallet (the_node u)) [entry] x) of
             Some e \<Rightarrow> Err e
           | None \<Rightarrow> Ok (v\<lparr>av_created := unix_time (unix_seconds (av_created v))\<rparr>))))"
proof -
  from assms(3) have ref: "valid_reference ref"
    by (auto simp: new_deposit_address_def bnd_Ok_iff guard_err_Ok_iff)
  obtain row b where row: "reference_row t ref = Some row" and b: "decode_address E row = Inr b"
    and v: "view_address E b = v\<lparr>av_created := unix_time (unix_seconds (av_created v))\<rparr>"
    using new_deposit_address_reads [OF assms(1-3)] by blast
  from reference_row_le [OF assms(4) row] have u: "reference_row u ref = Some row" .
  then have "a_reference b = ref"
    using decode_address_fields(5) [OF b] by (auto simp: reference_row_def find_Some_iff)
  let ?entry = "\<lparr>wa_address = policy_address E (keys_policy E (a_public b)), wa_policy = keys_policy E (a_public b),
      wa_description = a_reference b\<rparr>"
  obtain f x where f: "db_fault E (world u) = (f, x)" by fastforce
  obtain g y where g: "wm_add_addresses E (n_wallet (the_node u)) [?entry] x = (g, y)" by fastforce
  have look: "address_by_reference E ref u = (case f of Some e \<Rightarrow> Err e | None \<Rightarrow> Ok (Some b), u\<lparr>world := x\<rparr>)"
    using f b u by (cases f) (simp_all add: address_by_reference_def sample_run reference_row_def get_st_app)
  have reg: "register_address E b (u\<lparr>world := x\<rparr>) = (case g of Some e \<Rightarrow> Err e | None \<Rightarrow> Ok (), u\<lparr>world := y\<rparr>)"
    using g by (cases g) (simp_all add: register_address_def sample_run get_st_app)
  have run: "(r, w) = (case f of Some e \<Rightarrow> (Err e, u\<lparr>world := x\<rparr>) | None \<Rightarrow>
      (case g of Some e \<Rightarrow> Err e | None \<Rightarrow> Ok (view_address E b), u\<lparr>world := y\<rparr>))"
    using assms(5) ref look reg by (cases f; cases g) (simp_all add: new_deposit_address_def bnd_def guard_err_def)
  show ?thesis
    using run f g v \<open>a_reference b = ref\<close>
    by (intro conjI exI [of _ ?entry]) (cases f; cases g; simp add: frame_def)+
qed

text \<open>The first request issues child 0, the second one, made while the wallet is locked, finds it.\<close>

definition sample_new :: "unit sys" where
  "sample_new = sample_sys\<lparr>tables := empty_store\<rparr>"

lemma sample_reference: "valid_reference ''order-1''"
  unfolding valid_reference_def by (subst runes_ascii) (simp_all add: byte_of_def)

lemma sample_issue:
  "new_deposit_address (sample_env txns outs) ''order-1'' sample_new
    = (Ok (view_address (sample_env txns outs) sample_owner), sample_sys)"
  by (simp add: new_deposit_address_def sample_reference address_by_reference_def sample_run
      sample_new_def sample_state new_address_def
      master_seed_def next_index_def next_value_def scan_uint64_def derive_keys_def add_address_def
      sql_uint64_def address_row_of_def address_constraints_def sample_keys_def register_address_def
      sample_owner_def sample_row_def unix_seconds_def numeral_eq_Suc)

lemma sample_again:
  "new_deposit_address (sample_env txns outs) ''order-1'' (sample_sys\<lparr>mst_seed := None\<rparr>)
    = (Ok (view_address (sample_env txns outs) sample_owner), sample_sys\<lparr>mst_seed := None\<rparr>)"
  using sample_decode_row [of txns outs]
  by (simp add: new_deposit_address_def sample_reference address_by_reference_def sample_run
      sample_state register_address_def)
    (simp add: sample_row_def)

theorem deposit_address_idempotent_witness:
  "new_deposit_address (sample_env [] []) ''order-1'' (sample_sys\<lparr>mst_seed := None\<rparr>)
     = (Ok ((view_address (sample_env [] []) sample_owner)\<lparr>av_created := unix_time (unix_seconds 0)\<rparr>),
        sample_sys\<lparr>mst_seed := None\<rparr>)"
proof -
  have "store_le sample_sys (sample_sys\<lparr>mst_seed := None\<rparr>)"
    by (simp add: store_le_def tables_le_refl)
  from deposit_address_idempotent [OF sample_codec_laws sample_key_laws sample_issue this sample_again]
  show ?thesis using sample_again [of "[]" "[]"] by (simp add: view_address_def sample_owner_def)
qed

section \<open>The table is the list of the wallet's children\<close>

text \<open>A row holds the public keys and the address of child \<open>i\<close> of the master seed.\<close>

definition child_row :: "('x, 'z) env_scheme \<Rightarrow> bytes \<Rightarrow> u64 \<Rightarrow> address_row \<Rightarrow> bool" where
  "child_row E mst i r \<longleftrightarrow> (\<exists>keys. derive_keys E mst i = Inr keys \<and>
     ar_public r = keys_bytes E (pk_public keys) \<and>
     ar_address r = qaddr_string E (keys_address E (pk_public keys)))"

definition children :: "('x, 'z) env_scheme \<Rightarrow> bytes \<Rightarrow> address_row list \<Rightarrow> bool" where
  "children E mst rows \<longleftrightarrow>
     map ar_index rows = map int [0..<length rows] \<and>
     distinct (map ar_address rows) \<and>
     distinct (filter (\<lambda>ref. ref \<noteq> None) (map ar_reference rows)) \<and>
     (\<forall>r\<in>set rows. child_row E mst (word_of_int (ar_index r)) r)"

text \<open>The seed in memory, when there is one, is the wallet's.\<close>

definition wallet_ok :: "('x, 'z) env_scheme \<Rightarrow> bytes \<Rightarrow> 'x sys \<Rightarrow> bool" where
  "wallet_ok E mst s \<longleftrightarrow> children E mst (t_addresses (tables s)) \<and>
     (\<forall>m. mst_seed s = Some m \<longrightarrow> m = mst)"

lemma wallet_ok_frame: "frame s t \<Longrightarrow> wallet_ok E mst t = wallet_ok E mst s"
  by (simp add: wallet_ok_def frame_def)

lemma next_value_children:
  assumes "map ar_index rows = map int [0..<length rows]"
  shows "next_value rows = int (length rows)"
proof (cases "rows = []")
  case False
  have "ar_index ` set rows = int ` {0..<length rows}"
    using assms by (metis atLeastLessThan_upt list.set_map)
  moreover have "Max (int ` {0..<length rows}) = int (length rows - 1)"
    using False by (intro Max_eqI) auto
  ultimately show ?thesis using False by (cases rows) (simp_all add: next_value_def)
qed (simp add: next_value_def)

lemma issued_children:
  assumes iss: "issued E s ref kind a" and ok: "wallet_ok E mst s"
  shows "unat (a_index a) = length (t_addresses (tables s))"
    and "children E mst (t_addresses (tables s) @ [address_row_of E a (uint (a_index a))])"
proof -
  let ?rows = "t_addresses (tables s)" and ?r = "address_row_of E a (uint (a_index a))"
  from ok have ch: "children E mst ?rows" by (simp add: wallet_ok_def)
  from iss ok obtain keys where keys: "derive_keys E mst (a_index a) = Inr keys"
    "a_public a = pk_public keys" "a_address a = keys_address E (pk_public keys)"
    by (auto simp: issued_def wallet_ok_def)
  from iss have con: "address_constraints ?rows ?r" by (auto simp: issued_def)
  have idx: "uint (a_index a) = int (length ?rows)"
    using iss ch next_value_children by (auto simp: issued_def children_def)
  then show "unat (a_index a) = length ?rows" by (simp add: unat_eq_nat_uint)
  have "child_row E mst (word_of_int (ar_index ?r)) ?r"
    using keys by (auto simp: child_row_def address_row_of_def)
  moreover have "map ar_index (?rows @ [?r]) = map int [0..<length (?rows @ [?r])]"
    using ch idx by (simp add: children_def address_row_of_def)
  moreover have "distinct (map ar_address (?rows @ [?r]))"
    using ch con by (auto simp: children_def address_constraints_def)
  moreover have "distinct (filter (\<lambda>ref. ref \<noteq> None) (map ar_reference (?rows @ [?r])))"
    using ch con by (auto simp: children_def address_constraints_def)
  ultimately show "children E mst (?rows @ [?r])"
    using ch by (simp add: children_def)
qed

text \<open>
  C7. The address table is the list of the wallet's children: row \<open>i\<close> holds the keys and the
  address of child \<open>i\<close> of the master seed, no address and no reference occurs twice. Every call
  of \<open>newAddress\<close> keeps that, however it ends, and a successful one issues the next child in
  order, whose address was never given out before.
\<close>

theorem new_address_next_child:
  assumes "wallet_ok E mst s" and "new_address E ref kind s = (r, t)"
  shows "wallet_ok E mst t \<and>
    (\<forall>a. r = Ok a \<longrightarrow> unat (a_index a) = length (t_addresses (tables s)) \<and>
      qaddr_string E (a_address a) \<notin> ar_address ` set (t_addresses (tables s)) \<and>
      t_addresses (tables t) = t_addresses (tables s) @ [address_row_of E a (uint (a_index a))])"
proof -
  consider "\<forall>a. r \<noteq> Ok a" "frame s t"
    | a where "issued E s ref kind a" "frame (with_address E a s) t" "\<forall>a'. r = Ok a' \<longrightarrow> a' = a"
    using new_address_cases [OF assms(2)] by blast
  then show ?thesis
  proof cases
    case 1
    with assms(1) show ?thesis by (simp add: wallet_ok_frame)
  next
    case (2 a)
    note ch = issued_children [OF 2(1) assms(1)]
    have "wallet_ok E mst (with_address E a s)"
      using ch(2) assms(1) by (simp add: wallet_ok_def with_address_def)
    moreover have "qaddr_string E (a_address a) \<notin> ar_address ` set (t_addresses (tables s))"
      using 2(1) by (auto simp: issued_def address_constraints_def address_row_of_def)
    moreover have "t_addresses (tables t) = t_addresses (tables s) @ [address_row_of E a (uint (a_index a))]"
      using 2(2) by (simp add: frame_def with_address_def)
    ultimately show ?thesis
      using 2(2,3) ch(1) by (auto simp: wallet_ok_frame)
  qed
qed

lemma sample_wallet_ok: "wallet_ok (sample_env txns outs) [1] sample_new"
  by (simp add: wallet_ok_def children_def sample_new_def sample_state)

theorem new_address_next_child_witness:
  "wallet_ok (sample_env [] []) [1] sample_sys \<and>
    fst (new_address (sample_env [] []) ''order-1'' ''deposit'' sample_new) = Ok sample_owner"
proof -
  have run: "new_address (sample_env [] []) ''order-1'' ''deposit'' sample_new = (Ok sample_owner, sample_sys)"
    by (simp add: sample_run sample_new_def sample_state new_address_def
        master_seed_def next_index_def next_value_def scan_uint64_def derive_keys_def add_address_def
        sql_uint64_def address_row_of_def address_constraints_def sample_keys_def register_address_def
        sample_owner_def sample_row_def unix_seconds_def numeral_eq_Suc)
  from new_address_next_child [OF sample_wallet_ok run] run show ?thesis by simp
qed

end
