(* ===== verification/Custody_Transfer.thy ===== *)
theory Custody_Transfer
  imports Selection Address_Facts
begin

text \<open>
  What \<open>buildCustodyTransfer\<close> returns: value is conserved, the inputs are spendable outputs of
  the wallet, the change goes to a fresh address of the wallet, every input carries the
  signature of its owner, and the work and the last checks were done.
\<close>

section \<open>Spendable outputs\<close>

text \<open>An output the wallet index returned for the state \<open>cs\<close>, unspent in the pool and worth
  something at the next height.\<close>

definition spendable :: "('x, 'z) env_scheme \<Rightarrow> cstate \<Rightarrow> nat \<Rightarrow> v2txn list \<Rightarrow> siacoin_element \<Rightarrow> bool" where
  "spendable E cs wid pool out \<longleftrightarrow>
     se_id out \<notin> set (pool_spent pool) \<and> \<not> cur_is_zero E (spend_value E cs out) \<and>
     (\<exists>k w pg w'. wm_unspent E wid k page_size w = (Inr (pg, cs_index cs), w') \<and> out \<in> set pg)"

lemma spendable_outputs_frame: "evolves frame (spendable_outputs E cs)"
  unfolding spendable_outputs_def by (intro frame_intros)

lemma spendable_outputs_ok:
  assumes "spendable_outputs E cs s = (Ok outs, t)"
  shows "list_all (spendable E cs (n_wallet (the_node s)) (fst (cm_pool E (world s)))) outs"
proof -
  let ?pool = "fst (cm_pool E (world s))" and ?wid = "n_wallet (the_node s)"
  let ?body = "\<lambda>(offset, result).
       bnd (ext_sum (wm_unspent E ?wid offset page_size)) (\<lambda>(pg, basis).
       bnd (guard_err (basis \<noteq> cs_index cs) (Svc IndexSynchronizing)) (\<lambda>_.
       let result' = result @ filter (\<lambda>output. se_id output \<notin> set (pool_spent ?pool) \<and>
             \<not> cur_is_zero E (spend_value E cs output)) pg in
       if length pg < page_size then ret (Inr result')
       else ret (Inl (offset + page_size, result'))))"
  from assms obtain u w where "loop ?body (0, []) u = (Ok outs, w)"
    by (auto simp: spendable_outputs_def run_iffs Let_def split: prod.splits)
  then show ?thesis
    by (rule loop_yields [where I = "\<lambda>(k, res) s. list_all (spendable E cs ?wid ?pool) res"
          and Q = "\<lambda>res s. list_all (spendable E cs ?wid ?pool) res", rotated 2])
      (auto simp: run_iffs Let_def spendable_def list_all_iff split: if_splits, blast+)
qed

section \<open>The last steps\<close>

text \<open>The proof of work: where QDAY is active at the next height, the first valid nonce from the
  envelope's own is written into the envelope; nothing else changes.\<close>

definition work_done :: "('x, 'z) env_scheme \<Rightarrow> cstate \<Rightarrow> v2txn \<Rightarrow> v2txn \<Rightarrow> bool" where
  "work_done E cs txn worked \<longleftrightarrow>
     (if qday_active E cs (ci_height (cs_index cs) + 1)
      then \<exists>envelope n. parse_envelope E (tx_arbitrary txn) = Inr envelope \<and>
        first_valid E (work_intent E cs txn) (cs_defend_bits cs) (env_nonce envelope) n \<and>
        worked = txn\<lparr>tx_arbitrary := encode_envelope E (envelope\<lparr>env_nonce := n\<rparr>)\<rparr>
      else worked = txn)"

lemma work_done_ok: "perform_defend_work E ctx cs txn s = (Ok worked, t) \<Longrightarrow> work_done E cs txn worked"
  unfolding work_done_def by (rule perform_defend_work_result)

lemma finish_transfer_ok:
  assumes "finish_transfer E ctx cs txn owners mst s = (Ok txn', t)" and "consistent_owners owners"
  obtains worked where "signed_like worked txn'" and "work_done E cs txn worked"
    and "length owners = length (tx_inputs txn')"
    and "\<And>i. i < length owners \<Longrightarrow>
      sign_owner E mst (input_sig_hash E cs worked) (owners ! i) = Inr (in_satisfied (tx_inputs txn' ! i))"
    and "validate_txn E cs txn' = None"
proof -
  from assms(1) obtain worked u v where work: "perform_defend_work E ctx cs txn s = (Ok worked, u)"
    and sign: "sign_inputs E ctx cs worked owners mst u = (Ok txn', v)"
    and valid: "validate_txn E cs txn' = None"
    by (auto simp: finish_transfer_def run_iffs)
  note signed = sign_inputs_ok [OF sign assms(2)]
  have "length (tx_inputs txn') = length (tx_inputs worked)"
    using signed(2) by (metis signed_like_def length_map)
  with signed valid work_done_ok [OF work] show thesis
    by (intro that [of worked]) auto
qed

lemma sign_step_frame: "evolves frame (sign_step E ctx mst hash x acc)"
  by (cases x; cases acc) (simp add: sign_step_def, intro frame_intros)

lemma custody_frame:
  "evolves frame (broadcast E basis txns)" "evolves frame (perform_defend_work E ctx cs txn)"
  "evolves frame (sign_inputs E ctx cs txn owners mst)" "evolves frame (select_inputs E cs required outs)"
  unfolding broadcast_def perform_defend_work_def sign_inputs_def select_inputs_def
    work_step_def select_step_def
  by (intro frame_intros frame_reads sign_step_frame)+

lemma finish_transfer_frame: "evolves frame (finish_transfer E ctx cs txn owners mst)"
  unfolding finish_transfer_def by (intro frame_intros custody_frame)

section \<open>The transfer\<close>

lemma owns_consistent:
  assumes "distinct (map ar_index rows)" and "\<forall>a\<in>set owners. \<exists>outp. owns E rows outp a"
  shows "consistent_owners owners"
  unfolding consistent_owners_def
proof (intro ballI impI)
  fix a b
  assume "a \<in> set owners" "b \<in> set owners" and eq: "a_index a = a_index b"
  with assms(2) obtain ra rb where rows: "ra \<in> set rows" "rb \<in> set rows"
    and dec: "decode_address E ra = Inr a" "decode_address E rb = Inr b"
    unfolding owns_def by blast
  from eq have "ar_index ra = ar_index rb"
    using decode_address_fields(2) [OF dec(1)] decode_address_fields(2) [OF dec(2)] by simp
  with rows assms(1) have "ra = rb" by (auto simp: distinct_map dest: inj_onD)
  with dec show "a_public a = a_public b" by simp
qed

text \<open>The outputs of a transfer of \<open>v\<close>: the destination first, then the change, if any, to an
  address of the wallet that was issued for it.\<close>

definition change_step :: "('x, 'z) env_scheme \<Rightarrow> 'x sys \<Rightarrow> 'x sys \<Rightarrow> siacoin_output list \<Rightarrow> currency \<Rightarrow> bool" where
  "change_step E s t outs change \<longleftrightarrow>
     (if change = 0 then outs = [] \<and> tables t = tables s
      else \<exists>a. issued E s [] ''change'' a \<and> outs = [\<lparr>so_value = change, so_address = a_address a\<rparr>] \<and>
        t_addresses (tables t) = t_addresses (tables s) @ [address_row_of E a (uint (a_index a))])"

text \<open>The run of a transfer that succeeds, taken apart.\<close>

lemma build_transfer_run:
  assumes laws: "currency_laws E" "slice_laws E"
    and v: "v < 2 ^ 128" and fee: "fee < 2 ^ 128"
    and ok: "build_custody_transfer E ctx cs mst dest v fee s = (Ok txn, t)"
  obtains outs and sel :: selection and change outputs u where "v + fee < 2 ^ 128"
    and "list_all (spendable E cs (n_wallet (the_node s)) (fst (cm_pool E (world s)))) outputs"
    and "mset (map in_parent (sel_inputs sel)) \<subseteq># mset outputs" and "length (sel_inputs sel) \<le> max_inputs"
    and "value_sum E cs (map in_parent (sel_inputs sel)) = v + fee + change"
    and "list_all2 (\<lambda>i owner. i = input_of E (in_parent i) owner \<and>
        owns E (t_addresses (tables s)) (in_parent i) owner) (sel_inputs sel) (sel_owners sel)"
    and "change_step E s t outs change"
    and "finish_transfer E ctx cs
        \<lparr>tx_inputs = sel_inputs sel, tx_outputs = \<lparr>so_value = v, so_address = dest\<rparr> # outs,
         tx_fee = fee, tx_arbitrary = transfer_data E, tx_rest = []\<rparr> (sel_owners sel) mst u = (Ok txn, t)"
proof -
  have over: "v + fee < 2 ^ 128" and req: "cur_add_overflow E v fee = (v + fee, False)"
    using ok currency_lawsD(3) [OF laws(1) v fee]
    by (auto simp: build_custody_transfer_def bnd_Ok_iff guard_err_Ok_iff not_le)
  from ok req obtain outputs s1 sel s2 change s3 outs u where
    out: "spendable_outputs E cs s = (Ok outputs, s1)"
    and sel: "select_inputs E cs (v + fee) (sort_elements E (larger_first E cs) outputs) s1 = (Ok sel, s2)"
    and ge: "\<not> cur_cmp E (sel_total sel) (v + fee) < 0"
    and sub: "cur_sub E (sel_total sel) (v + fee) = Some change"
    and chg: "(if \<not> cur_is_zero E change
           then bnd (new_address E [] ''change'') (\<lambda>a. ret [\<lparr>so_value = change, so_address = a_address a\<rparr>])
           else ret []) s2 = (Ok outs, u)"
    and fin: "finish_transfer E ctx cs
        \<lparr>tx_inputs = sel_inputs sel, tx_outputs = \<lparr>so_value = v, so_address = dest\<rparr> # outs,
         tx_fee = fee, tx_arbitrary = transfer_data E, tx_rest = []\<rparr> (sel_owners sel) mst u = (Ok txn, t)"
    by (auto simp: build_custody_transfer_def run_iffs simp del: ext_Ok_iff)
  let ?xs = "sort_elements E (larger_first E cs) outputs"
  obtain n where keep: "tables s2 = tables s1" "the_node s2 = the_node s1" "mst_seed s2 = mst_seed s1"
    and tot: "sel_total sel < 2 ^ 128" and stop: "stops_at E cs (v + fee) ?xs n"
    and par: "map in_parent (sel_inputs sel) = take n ?xs"
    and sum: "sel_total sel = value_sum E cs (take n ?xs)"
    and own: "list_all2 (\<lambda>i owner. i = input_of E (in_parent i) owner \<and>
        owns E (t_addresses (tables s1)) (in_parent i) owner) (sel_inputs sel) (sel_owners sel)"
    using select_inputs_ok [OF laws(1) over sel] by metis
  have f1: "frame s s1" using spendable_outputs_frame out by (rule evolvesD)
  have f2: "frame s1 s2" using custody_frame(4) sel by (rule evolvesD)
  have f3: "frame u t" using finish_transfer_frame fin by (rule evolvesD)
  have len: "length (sel_inputs sel) \<le> max_inputs"
  proof -
    have "length (sel_inputs sel) = length (take n ?xs)" using par by (metis length_map)
    with stop show ?thesis by (simp add: stops_at_def)
  qed
  have "mset ?xs = mset (take n ?xs) + mset (drop n ?xs)"
    by (metis append_take_drop_id mset_append)
  then have "mset (take n ?xs) \<subseteq># mset ?xs" by simp
  then have ms: "mset (map in_parent (sel_inputs sel)) \<subseteq># mset outputs"
    using par sort_laws_mset [OF slice_sort [OF laws(2)]] by metis
  have eq: "sel_total sel = v + fee + change" and cz: "cur_is_zero E change \<longleftrightarrow> change = 0"
    using sub currency_lawsD(2) [OF laws(1) tot over] currency_lawsD(6) [OF laws(1), of change] tot
    by (auto split: if_splits)
  have step: "change_step E s t outs change"
  proof (cases "change = 0")
    case True
    with chg cz f1 f2 f3 show ?thesis by (simp add: change_step_def frame_def)
  next
    case False
    with chg cz obtain a where na: "new_address E [] ''change'' s2 = (Ok a, u)"
      and outs: "outs = [\<lparr>so_value = change, so_address = a_address a\<rparr>]"
      by (auto simp: bnd_Ok_iff)
    from new_address_ok [OF na] f1 f2 f3 have "issued E s [] ''change'' a"
      and "t_addresses (tables t) = t_addresses (tables s) @ [address_row_of E a (uint (a_index a))]"
      by (simp_all add: issued_def frame_def with_address_def)
    with False outs show ?thesis by (auto simp: change_step_def)
  qed
  have own': "list_all2 (\<lambda>i owner. i = input_of E (in_parent i) owner \<and>
        owns E (t_addresses (tables s)) (in_parent i) owner) (sel_inputs sel) (sel_owners sel)"
    using own f1 by (simp add: frame_def)
  have val: "value_sum E cs (map in_parent (sel_inputs sel)) = v + fee + change"
    using eq par sum by simp
  show thesis
    by (rule that [OF over spendable_outputs_ok [OF out] ms len val own' step fin])
qed

text \<open>Every input is signed by the key of the address its output pays, which is a record of the
  table, derived from the master seed.\<close>

definition authorised :: "('x, 'z) env_scheme \<Rightarrow> cstate \<Rightarrow> bytes \<Rightarrow> address_row list \<Rightarrow> bytes \<Rightarrow> v2txn \<Rightarrow> bool" where
  "authorised E cs mst rows hash txn \<longleftrightarrow>
     (\<exists>owners. list_all2 (\<lambda>i owner. owns E rows (in_parent i) owner \<and>
        sign_owner E mst hash owner = Inr (in_satisfied i)) (tx_inputs txn) owners)"

lemma work_done_keeps:
  assumes "work_done E cs txn worked"
  shows "tx_inputs worked = tx_inputs txn" "tx_outputs worked = tx_outputs txn" "tx_fee worked = tx_fee txn"
  using assms by (auto simp: work_done_def split: if_splits)

lemma signed_authorised:
  assumes sel: "list_all2 (\<lambda>i owner. i = input_of E (in_parent i) owner \<and>
      owns E rows (in_parent i) owner) ins owners"
    and par: "map in_parent (tx_inputs txn) = map in_parent ins"
    and sig: "\<And>i. i < length owners \<Longrightarrow> sign_owner E mst hash (owners ! i) = Inr (in_satisfied (tx_inputs txn ! i))"
  shows "authorised E cs mst rows hash txn"
  unfolding authorised_def
proof (rule exI [of _ owners], rule list_all2_all_nthI)
  have len: "length (tx_inputs txn) = length ins" using par by (metis length_map)
  then show "length (tx_inputs txn) = length owners" using sel by (simp add: list_all2_lengthD)
  fix n
  assume n: "n < length (tx_inputs txn)"
  with par len have "in_parent (tx_inputs txn ! n) = in_parent (ins ! n)" by (metis nth_map)
  with n len sel sig [of n] list_all2_lengthD [OF sel] list_all2_nthD [OF sel, of n]
  show "owns E rows (in_parent (tx_inputs txn ! n)) (owners ! n) \<and>
      sign_owner E mst hash (owners ! n) = Inr (in_satisfied (tx_inputs txn ! n))" by simp
qed

lemma selected_consistent:
  assumes "wallet_ok E mst s"
    and "list_all2 (\<lambda>i owner. i = input_of E (in_parent i) owner \<and>
      owns E (t_addresses (tables s)) (in_parent i) owner) ins owners"
  shows "consistent_owners owners"
proof (rule owns_consistent)
  show "distinct (map ar_index (t_addresses (tables s)))"
    using assms(1) by (simp add: wallet_ok_def children_def distinct_map)
  show "\<forall>a\<in>set owners. \<exists>outp. owns E (t_addresses (tables s)) outp a"
    using assms(2) by (fastforce simp: list_all2_conv_all_nth in_set_conv_nth)
qed

text \<open>What a transfer of \<open>v\<close> with fee \<open>fee\<close> from the state \<open>s\<close> is: value is conserved, the
  destination is paid first and in full, the rest is change, the inputs are spendable.\<close>

definition pays :: "('x, 'z) env_scheme \<Rightarrow> cstate \<Rightarrow> 'x sys \<Rightarrow> 'x sys \<Rightarrow> address \<Rightarrow> currency \<Rightarrow> currency \<Rightarrow> v2txn \<Rightarrow> bool" where
  "pays E cs s t dest v fee txn \<longleftrightarrow>
    value_sum E cs (map in_parent (tx_inputs txn)) = sum_list (map so_value (tx_outputs txn)) + tx_fee txn \<and>
    tx_fee txn = fee \<and>
    (\<exists>outs change. tx_outputs txn = \<lparr>so_value = v, so_address = dest\<rparr> # outs \<and> change_step E s t outs change) \<and>
    length (tx_inputs txn) \<le> max_inputs \<and>
    list_all (spendable E cs (n_wallet (the_node s)) (fst (cm_pool E (world s)))) (map in_parent (tx_inputs txn)) \<and>
    validate_txn E cs txn = None"

lemma build_transfer_pays:
  assumes "currency_laws E" and "slice_laws E" and "v < 2 ^ 128" and "fee < 2 ^ 128"
    and "wallet_ok E mst s"
    and "build_custody_transfer E ctx cs mst dest v fee s = (Ok txn, t)"
  shows "pays E cs s t dest v fee txn"
proof -
  obtain outs and sel :: selection and change outputs u
    where ins: "list_all (spendable E cs (n_wallet (the_node s)) (fst (cm_pool E (world s)))) outputs"
      "mset (map in_parent (sel_inputs sel)) \<subseteq># mset outputs" "length (sel_inputs sel) \<le> max_inputs"
    and val: "value_sum E cs (map in_parent (sel_inputs sel)) = v + fee + change"
    and own: "list_all2 (\<lambda>i owner. i = input_of E (in_parent i) owner \<and>
        owns E (t_addresses (tables s)) (in_parent i) owner) (sel_inputs sel) (sel_owners sel)"
    and chg: "change_step E s t outs change"
    and fin: "finish_transfer E ctx cs
        \<lparr>tx_inputs = sel_inputs sel, tx_outputs = \<lparr>so_value = v, so_address = dest\<rparr> # outs,
         tx_fee = fee, tx_arbitrary = transfer_data E, tx_rest = []\<rparr> (sel_owners sel) mst u = (Ok txn, t)"
    by (rule build_transfer_run [OF assms(1-4,6)])
  obtain worked where like: "signed_like worked txn" and "validate_txn E cs txn = None"
    and "work_done E cs \<lparr>tx_inputs = sel_inputs sel, tx_outputs = \<lparr>so_value = v, so_address = dest\<rparr> # outs,
         tx_fee = fee, tx_arbitrary = transfer_data E, tx_rest = []\<rparr> worked"
    using finish_transfer_ok [OF fin selected_consistent [OF assms(5) own]] by metis
  from like work_done_keeps [OF this(3)]
  have par: "map in_parent (tx_inputs txn) = map in_parent (sel_inputs sel)"
    and out: "tx_outputs txn = \<lparr>so_value = v, so_address = dest\<rparr> # outs" and fee: "tx_fee txn = fee"
    by (simp_all add: signed_like_def)
  have "sum_list (map so_value outs) = change"
    using chg by (auto simp: change_step_def split: if_splits)
  moreover have "length (tx_inputs txn) \<le> max_inputs" using par ins(3) by (metis length_map)
  moreover have "set (map in_parent (sel_inputs sel)) \<subseteq> set outputs"
    using ins(2) by (metis mset_subset_eqD set_mset_mset subsetI)
  then have "list_all (spendable E cs (n_wallet (the_node s)) (fst (cm_pool E (world s)))) (map in_parent (tx_inputs txn))"
    using ins(1) par by (auto simp: list_all_iff)
  ultimately show ?thesis
    using par out fee val chg \<open>validate_txn E cs txn = None\<close> unfolding pays_def by auto
qed

text \<open>
  C1. A custody transfer conserves value: what its inputs are worth at the next height is exactly
  the amount, the change and the fee. The destination is paid first and in full; the rest, if
  any, goes to one change address that is issued for it. The inputs are at most 128, each of
  them spendable, and the transaction passed the consensus check.
\<close>

theorem transfer_conserves:
  assumes "currency_laws E" and "slice_laws E" and "v < 2 ^ 128" and "fee < 2 ^ 128"
    and "wallet_ok E mst s"
    and "build_custody_transfer E ctx cs mst dest v fee s = (Ok txn, t)"
  shows "value_sum E cs (map in_parent (tx_inputs txn))
      = sum_list (map so_value (tx_outputs txn)) + tx_fee txn \<and> tx_fee txn = fee \<and>
    (\<exists>outs change. tx_outputs txn = \<lparr>so_value = v, so_address = dest\<rparr> # outs \<and> change_step E s t outs change) \<and>
    length (tx_inputs txn) \<le> max_inputs \<and>
    list_all (spendable E cs (n_wallet (the_node s)) (fst (cm_pool E (world s)))) (map in_parent (tx_inputs txn)) \<and>
    validate_txn E cs txn = None"
  using build_transfer_pays [OF assms] by (simp add: pays_def)

text \<open>
  C4. Every input of a custody transfer carries the signature, by the key derived from the master
  seed for the address the spent output pays, of the transaction after the proof of work; the
  signature cache of the loop never hands one address the signature of another. Where QDAY is
  active the envelope holds the first valid nonce, and signing changes nothing but the
  satisfied policies.
\<close>

theorem transfer_authorised:
  assumes "currency_laws E" and "slice_laws E" and "v < 2 ^ 128" and "fee < 2 ^ 128"
    and "wallet_ok E mst s"
    and "build_custody_transfer E ctx cs mst dest v fee s = (Ok txn, t)"
  shows "\<exists>draft worked. work_done E cs draft worked \<and> signed_like worked txn \<and>
    tx_arbitrary draft = transfer_data E \<and> tx_rest txn = [] \<and>
    authorised E cs mst (t_addresses (tables s)) (input_sig_hash E cs worked) txn"
proof -
  obtain outs and sel :: selection and change outputs u
    where own: "list_all2 (\<lambda>i owner. i = input_of E (in_parent i) owner \<and>
        owns E (t_addresses (tables s)) (in_parent i) owner) (sel_inputs sel) (sel_owners sel)"
    and fin: "finish_transfer E ctx cs
        \<lparr>tx_inputs = sel_inputs sel, tx_outputs = \<lparr>so_value = v, so_address = dest\<rparr> # outs,
         tx_fee = fee, tx_arbitrary = transfer_data E, tx_rest = []\<rparr> (sel_owners sel) mst u = (Ok txn, t)"
    by (rule build_transfer_run [OF assms(1-4,6)])
  let ?draft = "\<lparr>tx_inputs = sel_inputs sel, tx_outputs = \<lparr>so_value = v, so_address = dest\<rparr> # outs,
         tx_fee = fee, tx_arbitrary = transfer_data E, tx_rest = []\<rparr>"
  obtain worked where like: "signed_like worked txn" and work: "work_done E cs ?draft worked"
    and sig: "\<And>i. i < length (sel_owners sel) \<Longrightarrow>
      sign_owner E mst (input_sig_hash E cs worked) (sel_owners sel ! i) = Inr (in_satisfied (tx_inputs txn ! i))"
    using finish_transfer_ok [OF fin selected_consistent [OF assms(5) own]] by metis
  have par: "map in_parent (tx_inputs txn) = map in_parent (sel_inputs sel)"
    using like work_done_keeps [OF work] by (simp add: signed_like_def)
  have "tx_rest txn = []"
    using like work by (auto simp: signed_like_def work_done_def split: if_splits)
  with like work signed_authorised [OF own par sig]
  show ?thesis by (intro exI [of _ ?draft] exI [of _ worked]) simp
qed

text \<open>
  C9. The nonce search for DEFEND ends whenever some nonce is valid, wherever it starts and
  although the 64-bit counter may wrap; what it returns differs from the transaction only in the
  nonce, which is the first valid one.
\<close>

theorem defend_work_first:
  assumes "\<exists>v. work_valid E (work_intent E cs txn) v (cs_defend_bits cs)"
  shows "fst (perform_defend_work E ctx cs txn s) \<noteq> Hang \<and>
    (\<forall>worked t. perform_defend_work E ctx cs txn s = (Ok worked, t) \<longrightarrow> work_done E cs txn worked)"
  using perform_defend_work_returns [OF assms] work_done_ok by blast

section \<open>Examples\<close>

text \<open>Two outputs of 500 and 700 units; 500 and a fee of 200 are paid from the larger one.\<close>

definition sample_payment :: "address \<Rightarrow> v2txn" where
  "sample_payment dest = \<lparr>tx_inputs = [\<lparr>in_parent = sample_output 2 700, in_satisfied =
       \<lparr>sp_policy = PolicyOpaque (classical sample_keys), sp_signatures = [[5]], sp_preimages = []\<rparr>\<rparr>],
     tx_outputs = [\<lparr>so_value = 500, so_address = dest\<rparr>], tx_fee = 200, tx_arbitrary = [1], tx_rest = []\<rparr>"

definition sample_transfer :: v2txn where
  "sample_transfer = sample_payment [100]"

lemma sample_sys_wallet_ok: "wallet_ok (sample_env txns outs) [1] sample_sys"
  by (simp add: wallet_ok_def children_def child_row_def derive_keys_def sample_state)
    (simp add: sample_row_def)

lemma sample_spendable:
  "sample_wallet s \<Longrightarrow> spendable_outputs (sample_env txns sample_outputs) sample_cs s = (Ok sample_outputs, s)"
proof -
  assume s: "sample_wallet s"
  let ?E = "sample_env txns sample_outputs"
  let ?body = "\<lambda>(offset, result).
       bnd (ext_sum (wm_unspent ?E 1 offset page_size)) (\<lambda>(pg, basis).
       bnd (guard_err (basis \<noteq> cs_index sample_cs) (Svc IndexSynchronizing)) (\<lambda>_.
       let result' = result @ filter (\<lambda>output. se_id output \<notin> set (pool_spent []) \<and>
             \<not> cur_is_zero ?E (spend_value ?E sample_cs output)) pg in
       if length pg < page_size then ret (Inr result')
       else ret (Inl (offset + page_size, result'))))"
  have "loop ?body (0, []) s = (Ok sample_outputs, s)"
    by (rule loop_done) (simp add: sample_run world_unit page_size_def sample_cs_def sample_outputs_def
        pool_spent_def spend_value_def sample_output_def)
  with s show ?thesis
    by (simp add: spendable_outputs_def bnd_def ext_def Let_def guard_err_def sample_wallet_def world_unit sample_cs_def
        cong: if_cong)
qed

lemma sample_sign:
  "finish_transfer (sample_env txns outs) ctx sample_cs
     ((sample_payment dest)\<lparr>tx_inputs := [input_of (sample_env txns outs) (sample_output 2 700) sample_owner]\<rparr>)
     [sample_owner] [1] s = (Ok (sample_payment dest), s)"
  by (simp add: finish_transfer_def perform_defend_work_def sign_inputs_def sign_step_def sign_owner_def
      derive_keys_def set_satisfied_def sample_run world_unit sample_payment_def input_of_def sample_owner_def
      sample_cs_def)

lemma sample_pay:
  "sample_wallet s \<Longrightarrow> build_custody_transfer (sample_env txns sample_outputs) ctx sample_cs [1] dest 500 200 s
    = (Ok (sample_payment dest), s)"
proof -
  assume s: "sample_wallet s"
  let ?E = "sample_env txns sample_outputs"
  have d: "\<lparr>tx_inputs = [input_of ?E (sample_output 2 700) sample_owner],
      tx_outputs = [\<lparr>so_value = 500, so_address = dest\<rparr>], tx_fee = 200, tx_arbitrary = [1], tx_rest = []\<rparr>
    = (sample_payment dest)\<lparr>tx_inputs := [input_of ?E (sample_output 2 700) sample_owner]\<rparr>"
    by (simp add: sample_payment_def)
  show ?thesis
    using s by (simp add: build_custody_transfer_def bnd_def sample_spendable sample_sorted sample_selected d sample_sign)
qed

lemma sample_build:
  "build_custody_transfer (sample_env txns sample_outputs) ctx sample_cs [1] [100] 500 200 sample_sys
    = (Ok sample_transfer, sample_sys)"
  using sample_pay [OF sample_wallet_sys] by (simp add: sample_transfer_def)

theorem transfer_conserves_witness:
  "value_sum (sample_env [] sample_outputs) sample_cs (map in_parent (tx_inputs sample_transfer))
     = sum_list (map so_value (tx_outputs sample_transfer)) + 200"
  using transfer_conserves [OF sample_currency_laws _ _ _ sample_sys_wallet_ok sample_build] by simp

theorem transfer_authorised_witness:
  "\<exists>draft worked. work_done (sample_env [] sample_outputs) sample_cs draft worked \<and>
    signed_like worked sample_transfer"
  using transfer_authorised [OF sample_currency_laws _ _ _ sample_sys_wallet_ok sample_build [where txns = "[]"]]
  by auto

text \<open>A search that has to count up to the nonce 3.\<close>

theorem defend_work_first_witness:
  "fst (perform_defend_work ((sample_env [] [])\<lparr>qday_active := (\<lambda>cs h. True), work_valid := (\<lambda>i n b. n = 3)\<rparr>)
     ServiceCtx sample_cs sample_transfer sample_sys) \<noteq> Hang"
  by (rule defend_work_first [THEN conjunct1]) simp

end
