(* ===== verification/Withdrawal_Facts.thy ===== *)
theory Withdrawal_Facts
  imports Withdrawals Custody_Transfer
begin

text \<open>
  What a withdrawal request guarantees: the journal row is written before the transaction leaves
  the daemon, it describes the transaction that pays the request, and a request identifier is
  bound to one payment for good.
\<close>

section \<open>Frames\<close>

lemma submit_frame: "evolves frame (submit E basis txn)"
  unfolding submit_def by (intro frame_intros custody_frame)

lemma still_best_frame: "evolves frame (still_best E ci)"
  unfolding still_best_def by (intro frame_intros)

lemma view_withdrawal_frame: "evolves frame (view_withdrawal E w)"
  unfolding view_withdrawal_def by (intro frame_intros still_best_frame)

lemma network_synced_frame: "evolves frame (network_synced E)"
  unfolding network_synced_def by (intro frame_intros)

lemma synced_state_frame: "evolves frame (synced_state E)"
  unfolding synced_state_def by (intro frame_intros network_synced_frame)

lemma ready_state_frame: "evolves frame (ready_state E)"
  unfolding ready_state_def master_seed_def by (intro frame_intros synced_state_frame)

text \<open>What every view of a journal row shows of the payment.\<close>

definition shows_payment :: "('x, 'z) env_scheme \<Rightarrow> withdrawal \<Rightarrow> withdrawal_view \<Rightarrow> bool" where
  "shows_payment E w v \<longleftrightarrow> wv_request v = w_request w \<and> wv_kind v = w_kind w \<and>
     wv_txn v = id_string E (txn_id E (w_txn w)) \<and> wv_destination v = qaddr_string E (w_destination w) \<and>
     am_atomic (wv_amount v) = cur_exact E (w_amount w) \<and> am_atomic (wv_fee v) = cur_exact E (w_fee w)"

lemma shows_payment_intros:
  "shows_payment E w (queued_view E unt w)"
  "shows_payment E w v \<Longrightarrow> shows_payment E w (confirmed_view E ci n v)"
  "shows_payment E w v \<Longrightarrow> shows_payment E w (v\<lparr>wv_status := st\<rparr>)"
  "shows_payment E w v \<Longrightarrow> shows_payment E w (v\<lparr>wv_status := st, wv_error := e\<rparr>)"
  by (simp_all add: shows_payment_def queued_view_def confirmed_view_def amount_of_def)

lemma view_withdrawal_ok: "oks (shows_payment E w) (view_withdrawal E w)"
  unfolding view_withdrawal_def by (intro oks_intros) (simp_all add: shows_payment_intros)

section \<open>The journal is written first\<close>

text \<open>The states after the row was inserted.\<close>

definition journalled :: "('x, 'z) env_scheme \<Rightarrow> withdrawal \<Rightarrow> 'x sys \<Rightarrow> 'x sys \<Rightarrow> bool" where
  "journalled E w s t \<longleftrightarrow> (\<exists>raw h e. encode_txn E (w_txn w) = Inr raw \<and> sql_uint64 (ci_height (w_basis w)) = Inr h \<and>
     withdrawal_admits (t_withdrawals (tables s)) (withdrawal_row_of E w raw h) \<and>
     frame (s\<lparr>tables := (tables s)\<lparr>t_withdrawals := t_withdrawals (tables s) @
       [(withdrawal_row_of E w raw h)\<lparr>wr_error := e\<rparr>]\<rparr>\<rparr>) t)"

lemma add_withdrawal_cases:
  assumes "add_withdrawal E w s = (r, t)"
  shows "(\<exists>e. r = Err e) \<and> frame s t \<or> r = Ok () \<and> journalled E w s t"
proof -
  obtain f x where f: "db_fault E (world s) = (f, x)" by fastforce
  show ?thesis
    using assms f
    by (cases "encode_txn E (w_txn w)"; cases "sql_uint64 (ci_height (w_basis w))"; cases f)
      (auto simp: add_withdrawal_def statement_def ext_err_def ext_def bnd_def Let_def frame_def
        guard_err_def journalled_def withdrawal_admits_def withdrawal_row_of_def split: if_splits)
qed

lemma update_withdrawals_cases:
  "evolves (at_most (\<lambda>s. s\<lparr>tables := (tables s)\<lparr>t_withdrawals :=
      update_where (\<lambda>r. wr_request r = rid) f (t_withdrawals (tables s))\<rparr>\<rparr>)) (update_withdrawals E rid f)"
  unfolding update_withdrawals_def
  by (intro at_most_after at_most_do frame_intros) (simp_all add: framed_def frame_def)

text \<open>Overwriting the fresh row with the same transaction and a \<open>LastError\<close>.\<close>

lemma update_fresh_row:
  assumes upd: "update_withdrawal E (w_request w) (w_basis w) (w_txn w) msg s' = (r, t)"
    and j: "journalled E w s s'"
  shows "journalled E w s t"
proof -
  from j obtain raw h e where raw: "encode_txn E (w_txn w) = Inr raw"
    and h: "sql_uint64 (ci_height (w_basis w)) = Inr h"
    and adm: "withdrawal_admits (t_withdrawals (tables s)) (withdrawal_row_of E w raw h)"
    and fr: "frame (s\<lparr>tables := (tables s)\<lparr>t_withdrawals := t_withdrawals (tables s) @
       [(withdrawal_row_of E w raw h)\<lparr>wr_error := e\<rparr>]\<rparr>\<rparr>) s'"
    unfolding journalled_def by blast
  let ?row = "withdrawal_row_of E w raw h"
  let ?f = "\<lambda>r. r\<lparr>wr_blob := raw, wr_basis_height := h, wr_basis_id := ci_id (w_basis w), wr_error := msg\<rparr>"
  have key: "wr_request ?row = w_request w" by (simp add: withdrawal_row_of_def)
  have "t_withdrawals (tables s') = t_withdrawals (tables s) @ [?row\<lparr>wr_error := e\<rparr>]"
    using fr by (simp add: frame_def)
  with wtab.update_inserted [OF adm, of "?row\<lparr>wr_error := e\<rparr>" ?f] key
  have rows: "update_where (\<lambda>r. wr_request r = w_request w) ?f (t_withdrawals (tables s'))
     = t_withdrawals (tables s) @ [?row\<lparr>wr_error := msg\<rparr>]"
    by (simp add: withdrawal_row_of_def)
  from upd raw h have "update_withdrawals E (w_request w) ?f s' = (r, t)"
    by (simp add: update_withdrawal_def)
  with update_withdrawals_cases have "at_most (\<lambda>s. s\<lparr>tables := (tables s)\<lparr>t_withdrawals :=
      update_where (\<lambda>r. wr_request r = w_request w) ?f (t_withdrawals (tables s))\<rparr>\<rparr>) s' t"
    by (rule evolvesD)
  then have "\<exists>e. frame (s\<lparr>tables := (tables s)\<lparr>t_withdrawals := t_withdrawals (tables s) @
       [?row\<lparr>wr_error := e\<rparr>]\<rparr>\<rparr>) t"
    unfolding at_most_def
  proof
    assume "frame s' t"
    with fr show ?thesis by (blast intro: frame.le_trans)
  next
    assume "frame (s'\<lparr>tables := (tables s')\<lparr>t_withdrawals :=
      update_where (\<lambda>r. wr_request r = w_request w) ?f (t_withdrawals (tables s'))\<rparr>\<rparr>) t"
    then show ?thesis unfolding rows using fr by (intro exI [of _ msg]) (simp add: frame_def)
  qed
  with raw h adm show ?thesis unfolding journalled_def by blast
qed

lemma journalled_frame: "journalled E w s t \<Longrightarrow> frame t u \<Longrightarrow> journalled E w s u"
  unfolding journalled_def by (meson frame.le_trans)

lemma attempt_run: "attempt m s = (r, t) \<Longrightarrow> \<exists>r'. m s = (r', t)"
  by (cases "m s") (auto simp: attempt_def split: outcome.splits)

lemma journal_withdrawal_cases:
  assumes "journal_withdrawal E w s = (r, t)"
  shows "(\<forall>w'. r \<noteq> Ok w') \<and> frame s t \<or>
    journalled E w s t \<and> (\<forall>w'. r = Ok w' \<longrightarrow> (\<exists>msg. w' = w\<lparr>w_error := msg\<rparr>))"
proof -
  obtain ra s1 where add: "add_withdrawal E w s = (ra, s1)" by fastforce
  from add_withdrawal_cases [OF add] show ?thesis
  proof (elim disjE conjE exE)
    fix e assume "ra = Err e" "frame s s1"
    with assms add show ?thesis by (auto simp: journal_withdrawal_def bnd_def)
  next
    assume ra: "ra = Ok ()" and j: "journalled E w s s1"
    obtain rs s2 where sub: "submit E (w_basis w) (w_txn w) s1 = (rs, s2)" by fastforce
    have j2: "journalled E w s s2"
      using j evolvesD [OF submit_frame sub] by (rule journalled_frame)
    have w: "\<exists>msg. w = w\<lparr>w_error := msg\<rparr>" by (rule exI [of _ "w_error w"]) simp
    show ?thesis
    proof (cases "\<exists>msg. rs = Ok (Some msg)")
      case True
      then obtain msg where rs: "rs = Ok (Some msg)" by blast
      obtain ru s3 where att: "attempt (update_withdrawal E (w_request w) (w_basis w) (w_txn w) msg) s2 = (ru, s3)"
        by fastforce
      obtain r' where "update_withdrawal E (w_request w) (w_basis w) (w_txn w) msg s2 = (r', s3)"
        using attempt_run [OF att] by (elim exE)
      then have "journalled E w s s3" using j2 by (rule update_fresh_row)
      then show ?thesis
        using assms add ra sub rs att by (cases ru) (auto simp: journal_withdrawal_def bnd_def)
    next
      case False
      then show ?thesis
        using assms add ra sub j2 w by (cases rs) (auto simp: journal_withdrawal_def bnd_def split: option.splits)
    qed
  qed
qed

section \<open>A new withdrawal\<close>

text \<open>Building a transfer does not touch the journals.\<close>

definition same_journals :: "'x sys \<Rightarrow> 'x sys \<Rightarrow> bool" where
  "same_journals s t \<longleftrightarrow> t_withdrawals (tables t) = t_withdrawals (tables s) \<and>
     t_actions (tables t) = t_actions (tables s)"

interpretation journals: state_order same_journals
  by unfold_locales (auto simp: same_journals_def)

lemma journals_frame: "evolves frame m \<Longrightarrow> evolves same_journals m"
  by (erule evolves_weaken) (simp add: frame_def same_journals_def)

lemma journals_new_address: "evolves same_journals (new_address E ref kind)"
proof (rule evolvesI)
  fix s r and t :: "'a sys"
  assume "new_address E ref kind s = (r, t)"
  from new_address_cases [OF this] show "same_journals s t"
    by (auto simp: same_journals_def frame_def with_address_def)
qed

lemma journals_build: "evolves same_journals (build_custody_transfer E ctx cs mst dest v fee)"
  unfolding build_custody_transfer_def
  by (intro journals.ev_intros journals_new_address custody_frame [THEN journals_frame]
      finish_transfer_frame [THEN journals_frame] spendable_outputs_frame [THEN journals_frame])

lemma parse_positive_ok:
  assumes "parse_positive_currency E inp name = Inr c"
  shows "cur_parse E inp = Inr c" and "\<not> cur_is_zero E c"
  using assms by (auto simp: parse_positive_currency_def split: if_splits sum.splits)

lemma default_fee_bound:
  assumes "currency_laws E" and "default_fee E inp = Inr c"
  shows "c < 2 ^ 128"
  using assms(2) currency_bounds(1) [OF assms(1)] currency_bounds(2) [OF assms(1) parse_positive_ok(1)]
  by (auto simp: default_fee_def split: if_splits)

lemma parse_destination_ok: "parse_destination E inp = Inr a \<Longrightarrow> parse_qaddr E inp = Inr a"
  by (simp add: parse_destination_def split: sum.splits)

lemma withdrawal_get_ok:
  assumes "withdrawal_get E rid s = (Ok found, t)"
  shows "frame s t" and "case wtab.lookup rid (t_withdrawals (tables s)) of None \<Rightarrow> found = None
    | Some row \<Rightarrow> \<exists>w. scan_withdrawal E row = Inr w \<and> found = Some w"
proof -
  show "frame s t" using frame_reads(8) assms by (rule evolvesD)
  show "case wtab.lookup rid (t_withdrawals (tables s)) of None \<Rightarrow> found = None
    | Some row \<Rightarrow> \<exists>w. scan_withdrawal E row = Inr w \<and> found = Some w"
    using assms unfolding withdrawal_get_def find_withdrawal_lookup
    by (auto simp: run_iffs query_row_def split: option.splits sum.splits)
qed

text \<open>The run of a request that is carried out, taken apart.\<close>

lemma create_withdrawal_new:
  assumes "create_withdrawal E ctx rq s = (Ok (v, True), t)"
  obtains dest amnt fee mst cs s1 txn s2 w s3 where
    "valid_request_id (rq_id rq)" and "parse_qaddr E (rq_destination rq) = Inr dest"
    and "cur_parse E (rq_amount rq) = Inr amnt" and "\<not> cur_is_zero E amnt"
    and "default_fee E (rq_fee rq) = Inr fee"
    and "rq_unit rq = cur_exact E (qday_units E cs (ci_height (cs_index cs)))"
    and "frame s s1" and "mst_seed s = Some mst" and "wtab.lookup (rq_id rq) (t_withdrawals (tables s)) = None"
    and "build_custody_transfer E ctx cs mst dest amnt fee s1 = (Ok txn, s2)"
    and "w_request w = rq_id rq" "w_kind w = ''withdrawal''" "w_txn w = txn" "w_basis w = cs_index cs"
      "w_destination w = dest" "w_amount w = amnt" "w_fee w = fee"
    and "journalled E w s2 s3" and "frame (s3\<lparr>wake := True\<rparr>) t" and "shows_payment E w v"
proof -
  from assms obtain dest amnt fee found s0 where
    valid: "valid_request_id (rq_id rq)" and dest: "parse_destination E (rq_destination rq) = Inr dest"
    and amnt: "parse_positive_currency E (rq_amount rq) ''amountAtomic'' = Inr amnt"
    and fee: "default_fee E (rq_fee rq) = Inr fee"
    and get: "withdrawal_get E (rq_id rq) s = (Ok found, s0)"
    and rest: "(case found of
       Some w \<Rightarrow>
         bnd (guard_err (w_destination w \<noteq> dest \<or> w_amount w \<noteq> amnt \<or> w_fee w \<noteq> fee)
           (Svc BoundWithdrawal)) (\<lambda>_.
         bnd (view_withdrawal E w) (\<lambda>view. ret (view, False)))
     | None \<Rightarrow>
         bnd (ready_state E) (\<lambda>(mst, cs).
         bnd (check_unit E cs (rq_unit rq)) (\<lambda>_.
         bnd (build_custody_transfer E ctx cs mst dest amnt fee) (\<lambda>txn.
         bnd (ext (now E)) (\<lambda>created.
         bnd (journal_withdrawal E \<lparr>w_request = rq_id rq, w_kind = ''withdrawal'', w_txn = txn,
           w_basis = cs_index cs, w_confirmed = None, w_destination = dest, w_amount = amnt,
           w_fee = fee, w_created = created, w_error = []\<rparr>) (\<lambda>w.
         bnd wake_rebroadcast (\<lambda>_.
         bnd (view_withdrawal E w) (\<lambda>view. ret (view, True)))))))) ) s0 = (Ok (v, True), t)"
    unfolding create_withdrawal_def bnd_Ok_iff guard_err_Ok_iff lift_sum_Ok_iff by blast
  have none: "found = None"
    using rest by (cases found) (auto simp: bnd_Ok_iff guard_err_Ok_iff)
  with rest obtain mst cs s1 txn s2 created s2' w' s3 view s4 where
    ready: "ready_state E s0 = (Ok (mst, cs), s1)" and unt: "check_unit E cs (rq_unit rq) s1 = (Ok (), s1)"
    and build: "build_custody_transfer E ctx cs mst dest amnt fee s1 = (Ok txn, s2)"
    and now: "ext (now E) s2 = (Ok created, s2')"
    and jour: "journal_withdrawal E \<lparr>w_request = rq_id rq, w_kind = ''withdrawal'', w_txn = txn,
           w_basis = cs_index cs, w_confirmed = None, w_destination = dest, w_amount = amnt,
           w_fee = fee, w_created = created, w_error = []\<rparr> s2' = (Ok w', s3)"
    and view: "view_withdrawal E w' (s3\<lparr>wake := True\<rparr>) = (Ok v, t)"
    by (auto simp: bnd_Ok_iff wake_rebroadcast_def check_unit_def guard_err_Ok_iff simp del: ext_Ok_iff)
  let ?w = "\<lparr>w_request = rq_id rq, w_kind = ''withdrawal'', w_txn = txn,
           w_basis = cs_index cs, w_confirmed = None, w_destination = dest, w_amount = amnt,
           w_fee = fee, w_created = created, w_error = []\<rparr>"
  have f0: "frame s s0" using withdrawal_get_ok(1) [OF get] .
  have f1: "frame s s1" using f0 evolvesD [OF ready_state_frame ready] by (rule frame.le_trans)
  have f2: "frame s2 s2'" using frame_ext now by (rule evolvesD)
  have mst: "mst_seed s = Some mst"
    using ready f0 by (auto simp: ready_state_def bnd_Ok_iff master_seed_def frame_def split: option.splits)
  have look: "wtab.lookup (rq_id rq) (t_withdrawals (tables s)) = None"
    using withdrawal_get_ok(2) [OF get] none by (auto split: option.splits)
  from journal_withdrawal_cases [OF jour] obtain msg where j: "journalled E ?w s2' s3" and w': "w' = ?w\<lparr>w_error := msg\<rparr>"
    by auto
  from j f2 have j': "journalled E ?w s2 s3"
    by (auto simp: journalled_def frame_def)
  have "shows_payment E ?w v"
    using oksD [OF view_withdrawal_ok view] w' by (simp add: shows_payment_def)
  moreover have "rq_unit rq = cur_exact E (qday_units E cs (ci_height (cs_index cs)))"
    using unt by (simp add: check_unit_def guard_err_Ok_iff)
  ultimately show thesis
    using that [of dest amnt fee cs s1 mst txn s2 ?w s3] valid parse_destination_ok [OF dest]
      parse_positive_ok [OF amnt] fee f1 mst look build j' evolvesD [OF view_withdrawal_frame view]
    by simp
qed

lemma journalled_row:
  assumes "journalled E w s t"
  obtains row raw where "t_withdrawals (tables t) = t_withdrawals (tables s) @ [row]"
    and "encode_txn E (w_txn w) = Inr raw" and "wr_blob row = raw"
    and "wtab.lookup (w_request w) (t_withdrawals (tables t)) = Some row"
    and "withdrawal_identity row = (w_request w, w_kind w, qaddr_string E (w_destination w),
       cur_exact E (w_amount w), cur_exact E (w_fee w), unix_seconds (w_created w))"
    and "tables t = (tables s)\<lparr>t_withdrawals := t_withdrawals (tables t)\<rparr>" and "mst_seed t = mst_seed s"
proof -
  from assms obtain raw h e where raw: "encode_txn E (w_txn w) = Inr raw"
    and adm: "withdrawal_admits (t_withdrawals (tables s)) (withdrawal_row_of E w raw h)"
    and fr: "frame (s\<lparr>tables := (tables s)\<lparr>t_withdrawals := t_withdrawals (tables s) @
       [(withdrawal_row_of E w raw h)\<lparr>wr_error := e\<rparr>]\<rparr>\<rparr>) t"
    unfolding journalled_def by blast
  let ?row = "(withdrawal_row_of E w raw h)\<lparr>wr_error := e\<rparr>"
  have key: "wr_request ?row = w_request w" by (simp add: withdrawal_row_of_def)
  have "withdrawal_admits (t_withdrawals (tables s)) ?row"
    using adm by (simp add: withdrawal_admits_def withdrawal_checks_def)
  from wtab.lookup_inserted [OF this] key
  have look: "wtab.lookup (w_request w) (t_withdrawals (tables s) @ [?row]) = Some ?row" by simp
  show thesis
    by (rule that [of ?row raw]) (use fr raw look in \<open>simp_all add: frame_def withdrawal_row_of_def
        withdrawal_identity_def\<close>)
qed

text \<open>
  C3. A withdrawal that is carried out pays what was asked: the journal gains exactly one row, under
  the request's identifier, whose transaction pays the parsed amount to the parsed destination,
  conserves value with the parsed or default fee, spends at most 128 spendable outputs of the
  wallet and passed the consensus check, in the denomination the caller expected.
\<close>

theorem withdrawal_paid:
  assumes "currency_laws E" and "codec_laws E" and "slice_laws E" and "wallet_ok E mst s"
    and "create_withdrawal E ctx rq s = (Ok (v, True), t)"
  shows "\<exists>row txn cs dest amnt fee s1 s2.
    t_withdrawals (tables t) = t_withdrawals (tables s) @ [row] \<and> wr_request row = rq_id rq \<and>
    decode_txn E (wr_blob row) = Inr txn \<and>
    parse_qaddr E (rq_destination rq) = Inr dest \<and> cur_parse E (rq_amount rq) = Inr amnt \<and> 0 < amnt \<and>
    default_fee E (rq_fee rq) = Inr fee \<and>
    rq_unit rq = cur_exact E (qday_units E cs (ci_height (cs_index cs))) \<and>
    frame s s1 \<and> pays E cs s1 s2 dest amnt fee txn \<and>
    t_addresses (tables t) = t_addresses (tables s2)"
proof -
  obtain dest amnt fee mst' cs s1 txn s2 w s3 where
    dest: "parse_qaddr E (rq_destination rq) = Inr dest"
    and amnt: "cur_parse E (rq_amount rq) = Inr amnt" "\<not> cur_is_zero E amnt"
    and fee: "default_fee E (rq_fee rq) = Inr fee"
    and unt: "rq_unit rq = cur_exact E (qday_units E cs (ci_height (cs_index cs)))"
    and fr: "frame s s1" and seed: "mst_seed s = Some mst'"
    and build: "build_custody_transfer E ctx cs mst' dest amnt fee s1 = (Ok txn, s2)"
    and w: "w_request w = rq_id rq" "w_txn w = txn"
    and j: "journalled E w s2 s3" and end_st: "frame (s3\<lparr>wake := True\<rparr>) t"
    by (rule create_withdrawal_new [OF assms(5)])
  have mst: "mst' = mst" using seed assms(4) by (simp add: wallet_ok_def)
  have b: "amnt < 2 ^ 128" "fee < 2 ^ 128"
    using currency_bounds(2) [OF assms(1) amnt(1)] default_fee_bound [OF assms(1) fee] by simp_all
  have ok: "wallet_ok E mst s1" using assms(4) fr by (simp add: wallet_ok_frame)
  have pays: "pays E cs s1 s2 dest amnt fee txn"
    by (rule build_transfer_pays [OF assms(1,3) b ok build [unfolded mst]])
  have keep: "t_withdrawals (tables s2) = t_withdrawals (tables s)"
    using evolvesD [OF journals_build build] fr by (simp add: same_journals_def frame_def)
  from journalled_row [OF j] obtain row raw where row: "t_withdrawals (tables s3) = t_withdrawals (tables s2) @ [row]"
    and raw: "encode_txn E (w_txn w) = Inr raw" "wr_blob row = raw"
    and id: "withdrawal_identity row = (w_request w, w_kind w, qaddr_string E (w_destination w),
       cur_exact E (w_amount w), cur_exact E (w_fee w), unix_seconds (w_created w))"
    and tab: "tables s3 = (tables s2)\<lparr>t_withdrawals := t_withdrawals (tables s3)\<rparr>" by metis
  have "decode_txn E (wr_blob row) = Inr txn"
    using codec_lawsD(2) [OF assms(2) raw(1)] raw(2) w by simp
  moreover have "0 < amnt" using amnt(2) currency_lawsD(6) [OF assms(1) b(1) b(1)] by simp
  moreover have "t_addresses (tables t) = t_addresses (tables s2)"
    using end_st arg_cong [OF tab, of t_addresses] by (simp add: frame_def)
  moreover have "t_withdrawals (tables t) = t_withdrawals (tables s) @ [row]"
    using end_st row keep by (simp add: frame_def)
  moreover have "wr_request row = rq_id rq" using id w by (simp add: withdrawal_identity_def)
  ultimately show ?thesis using dest amnt(1) fee unt fr pays by blast
qed

section \<open>One payment per request\<close>

lemma scan_withdrawal_ok:
  assumes "scan_withdrawal E row = Inr w"
  shows "parse_qaddr E (wr_destination row) = Inr (w_destination w)"
    and "cur_parse E (wr_amount row) = Inr (w_amount w)" and "cur_parse E (wr_fee row) = Inr (w_fee w)"
    and "w_request w = wr_request row" and "w_kind w = wr_kind row" and "w_error w = wr_error row"
    and "w_created w = unix_time (wr_created row)"
  using assms by (auto simp: scan_withdrawal_def split: sum.splits if_splits)

text \<open>A request whose identifier is in the journal only reads, whatever it asks for.\<close>

lemma create_withdrawal_known:
  assumes "wtab.lookup (rq_id rq) (t_withdrawals (tables s)) = Some row"
    and "create_withdrawal E ctx rq s = (r, t)"
  shows "frame s t"
    and "\<And>v c. r = Ok (v, c) \<Longrightarrow> \<not> c \<and> (\<exists>w. scan_withdrawal E row = Inr w \<and> shows_payment E w v \<and>
      parse_qaddr E (rq_destination rq) = Inr (w_destination w) \<and> cur_parse E (rq_amount rq) = Inr (w_amount w) \<and>
      default_fee E (rq_fee rq) = Inr (w_fee w))"
proof -
  let ?J = "\<lambda>s :: 'a sys. wtab.lookup (rq_id rq) (t_withdrawals (tables s)) = Some row"
  have J: "stable ?J" by (simp add: stable_def frame_def)
  have found: "withdrawal_get E (rq_id rq) u \<noteq> (Ok None, u')" if "?J u" for u u'
    using withdrawal_get_ok(2) [of E "rq_id rq" u None u'] that by auto
  have "quiet ?J (create_withdrawal E ctx rq)"
    unfolding create_withdrawal_def
    by (rule quiet_bnd [OF J], intro frame_intros)+
      (rule quiet_found [OF J frame_reads(8) found], assumption, intro quiet_frame frame_intros view_withdrawal_frame)
  then show "frame s t" using assms by (rule quietD)
  show "\<not> c \<and> (\<exists>w. scan_withdrawal E row = Inr w \<and> shows_payment E w v \<and>
      parse_qaddr E (rq_destination rq) = Inr (w_destination w) \<and> cur_parse E (rq_amount rq) = Inr (w_amount w) \<and>
      default_fee E (rq_fee rq) = Inr (w_fee w))" if r: "r = Ok (v, c)" for v c
  proof -
    obtain rg s0 where get: "withdrawal_get E (rq_id rq) s = (rg, s0)" by fastforce
    from assms(2) r get have "\<exists>found. rg = Ok found"
      by (cases rg) (auto simp: create_withdrawal_def bnd_def guard_err_def lift_sum_def split: sum.splits if_splits)
    with withdrawal_get_ok(2) [of E "rq_id rq" s] get assms(1)
    obtain w where rg: "rg = Ok (Some w)" and w: "scan_withdrawal E row = Inr w" by force
    from assms(2) r get rg obtain d a f u where
      d: "parse_destination E (rq_destination rq) = Inr d"
      and a: "parse_positive_currency E (rq_amount rq) ''amountAtomic'' = Inr a"
      and f: "default_fee E (rq_fee rq) = Inr f"
      and eq: "w_destination w = d" "w_amount w = a" "w_fee w = f" and c: "\<not> c"
      and view: "view_withdrawal E w u = (Ok v, t)"
      by (auto simp: create_withdrawal_def bnd_Ok_iff guard_err_Ok_iff lift_sum_Ok_iff)
    from oksD [OF view_withdrawal_ok view] w c eq parse_destination_ok [OF d] parse_positive_ok(1) [OF a] f
    show ?thesis by blast
  qed
qed

text \<open>
  C2. A request identifier pays once. After a withdrawal was carried out, every later request with
  its identifier, at any later state of the daemon, builds and stores nothing; when it succeeds it
  reports the same payment as the first (destination, amount and fee), and it succeeds for no
  other payment.
\<close>

theorem withdrawal_once:
  assumes "currency_laws E" and "codec_laws E"
    and "create_withdrawal E ctx rq s = (Ok (v, True), t)"
    and "store_le t u" and "rq_id rq' = rq_id rq"
    and "create_withdrawal E ctx' rq' u = (r, w)"
  shows "frame u w \<and> (\<forall>v' c. r = Ok (v', c) \<longrightarrow> \<not> c \<and> wv_destination v' = wv_destination v \<and>
      am_atomic (wv_amount v') = am_atomic (wv_amount v) \<and> am_atomic (wv_fee v') = am_atomic (wv_fee v) \<and>
      parse_qaddr E (rq_destination rq') = parse_qaddr E (rq_destination rq) \<and>
      cur_parse E (rq_amount rq') = cur_parse E (rq_amount rq) \<and>
      default_fee E (rq_fee rq') = default_fee E (rq_fee rq))"
proof -
  obtain dest amnt fee s2 wd s3 where
    dest: "parse_qaddr E (rq_destination rq) = Inr dest"
    and amnt: "cur_parse E (rq_amount rq) = Inr amnt" and fee: "default_fee E (rq_fee rq) = Inr fee"
    and wd: "w_request wd = rq_id rq" "w_destination wd = dest" "w_amount wd = amnt" "w_fee wd = fee"
    and j: "journalled E wd s2 s3" and end_st: "frame (s3\<lparr>wake := True\<rparr>) t" and v: "shows_payment E wd v"
    using create_withdrawal_new [OF assms(3)] by metis
  from journalled_row [OF j] obtain row where
    look: "wtab.lookup (w_request wd) (t_withdrawals (tables s3)) = Some row"
    and id: "withdrawal_identity row = (w_request wd, w_kind wd, qaddr_string E (w_destination wd),
       cur_exact E (w_amount wd), cur_exact E (w_fee wd), unix_seconds (w_created wd))" by metis
  have "wtab.lookup (rq_id rq) (t_withdrawals (tables t)) = Some row"
    using look end_st wd(1) by (simp add: frame_def)
  moreover have "prefix (map withdrawal_identity (t_withdrawals (tables t))) (map withdrawal_identity (t_withdrawals (tables u)))"
    using assms(4) by (simp add: store_le_def tables_le_def)
  ultimately obtain row' where look': "wtab.lookup (rq_id rq') (t_withdrawals (tables u)) = Some row'"
    and id': "withdrawal_identity row' = withdrawal_identity row"
    using wtab.lookup_lasting [of withdrawal_identity] assms(5) by (force simp: withdrawal_identity_def)
  note known = create_withdrawal_known [OF look' assms(6)]
  have b: "amnt < 2 ^ 128" "fee < 2 ^ 128"
    using currency_bounds(2) [OF assms(1) amnt] default_fee_bound [OF assms(1) fee] by simp_all
  have "w_destination w' = dest \<and> w_amount w' = amnt \<and> w_fee w' = fee" if "scan_withdrawal E row' = Inr w'" for w'
    using scan_withdrawal_ok(1-3) [OF that] id id' wd codec_lawsD(1,4) [OF assms(2)] b
    by (simp add: withdrawal_identity_def)
  with known dest amnt fee v wd show ?thesis
    by (fastforce simp: shows_payment_def)
qed

section \<open>Examples\<close>

definition sample_request :: withdrawal_request where
  "sample_request = \<lparr>rq_id = ''pay-1'', rq_destination = ''d'', rq_amount = ''500'', rq_fee = ''200'', rq_unit = ''1''\<rparr>"

abbreviation sample_pay_env :: "unit env" where
  "sample_pay_env \<equiv> sample_env [sample_transfer] sample_outputs"

definition sample_withdrawal :: withdrawal where
  "sample_withdrawal = \<lparr>w_request = ''pay-1'', w_kind = ''withdrawal'', w_txn = sample_transfer,
     w_basis = sample_index, w_confirmed = None, w_destination = [100], w_amount = 500, w_fee = 200,
     w_created = 0, w_error = []\<rparr>"

definition sample_paid :: "unit sys" where
  "sample_paid = sample_sys\<lparr>tables := (tables sample_sys)\<lparr>t_withdrawals :=
     [withdrawal_row_of sample_pay_env sample_withdrawal [0] 10]\<rparr>, wake := True\<rparr>"

definition sample_view :: withdrawal_view where
  "sample_view = queued_view sample_pay_env 1 sample_withdrawal"

lemma sample_request_id: "valid_request_id ''pay-1''"
  unfolding valid_request_id_def by (subst runes_ascii) (auto simp: byte_of_def)

lemma sample_parsed:
  "parse_destination sample_pay_env ''d'' = Inr [100]"
  "parse_positive_currency sample_pay_env ''500'' name = Inr 500"
  "default_fee sample_pay_env ''200'' = Inr 200"
  by (simp_all add: parse_destination_def text_bytes_def parse_positive_currency_def default_fee_def
      sample_parse_def digits_value_def byte_of_def)

lemma sample_journal:
  "journal_withdrawal sample_pay_env sample_withdrawal sample_sys
    = (Ok sample_withdrawal, sample_paid\<lparr>wake := False\<rparr>)"
  by (simp add: journal_withdrawal_def add_withdrawal_def submit_def broadcast_def sample_run sample_state
      sample_encode_def sample_withdrawal_def withdrawal_checks_def withdrawal_row_of_def sql_uint64_def
      sample_index_def sample_paid_def sample_transfer_def sample_payment_def)

lemma sample_viewed: "view_withdrawal sample_pay_env sample_withdrawal s = (Ok sample_view, s)"
  by (simp add: view_withdrawal_def sample_run still_best_def sample_view_def sample_withdrawal_def)

lemma sample_create:
  "create_withdrawal sample_pay_env ctx sample_request sample_sys = (Ok (sample_view, True), sample_paid)"
proof -
  have get: "withdrawal_get sample_pay_env ''pay-1'' sample_sys = (Ok None, sample_sys)"
    by (simp add: withdrawal_get_def sample_run sample_state find_withdrawal_def)
  have ready: "ready_state sample_pay_env sample_sys = (Ok ([1], sample_cs), sample_sys)"
    by (simp add: ready_state_def synced_state_def master_seed_def network_synced_def sample_run sample_state sample_cs_def)
  have w: "\<lparr>w_request = ''pay-1'', w_kind = ''withdrawal'', w_txn = sample_transfer,
       w_basis = cs_index sample_cs, w_confirmed = None, w_destination = [100], w_amount = 500,
       w_fee = 200, w_created = 0, w_error = []\<rparr> = sample_withdrawal"
    by (simp add: sample_withdrawal_def sample_cs_def)
  have "char_of (of_char CHR ''1'' :: nat) = CHR ''1''" by (rule char_of_char)
  then have one: "decimal_digits (Suc 0) = ''1''" by (subst decimal_digits.simps) simp
  have now: "ext (Pair 0) sample_sys = (Ok 0, sample_sys)"
    by (simp add: ext_def)
  have wake: "wake_rebroadcast (sample_paid\<lparr>wake := False\<rparr>) = (Ok (), sample_paid)"
    by (simp add: wake_rebroadcast_def sample_paid_def)
  show ?thesis
    unfolding create_withdrawal_def
    by (simp add: sample_request_def sample_request_id sample_parsed bnd_def get ready check_unit_def one
        sample_build now w sample_journal wake sample_viewed)
qed

theorem withdrawal_paid_witness:
  "\<exists>row. t_withdrawals (tables sample_paid) = t_withdrawals (tables sample_sys) @ [row] \<and>
    wr_request row = ''pay-1'' \<and> decode_txn sample_pay_env (wr_blob row) = Inr sample_transfer"
proof -
  obtain row where "t_withdrawals (tables sample_paid) = t_withdrawals (tables sample_sys) @ [row]"
    and "wr_request row = rq_id sample_request"
    using withdrawal_paid [OF sample_currency_laws sample_codec_laws _ sample_sys_wallet_ok sample_create] by auto
  moreover from this(1) have "row = withdrawal_row_of sample_pay_env sample_withdrawal [0] 10"
    by (simp add: sample_paid_def sample_state)
  then have "decode_txn sample_pay_env (wr_blob row) = Inr sample_transfer"
    by (simp add: withdrawal_row_of_def sample_decode_def)
  ultimately show ?thesis by (simp add: sample_request_def)
qed

theorem withdrawal_once_witness:
  "frame sample_paid (snd (create_withdrawal sample_pay_env ServiceCtx sample_request sample_paid))"
proof -
  obtain r w where run: "create_withdrawal sample_pay_env ServiceCtx sample_request sample_paid = (r, w)"
    by fastforce
  have "store_le sample_paid sample_paid" by (rule grow.le_refl)
  from withdrawal_once [OF sample_currency_laws sample_codec_laws sample_create this _ run] run
  show ?thesis by simp
qed

end
