(* ===== verification/Defend_Facts.thy ===== *)
theory Defend_Facts
  imports Rebroadcast Withdrawal_Facts
begin

text \<open>
  The automatic DEFEND: it spends the outputs whose shield runs out first, at most 128 of them,
  to a fresh address of the wallet, and journals that payment before it leaves the daemon.
\<close>

section \<open>The selection\<close>

definition expiring :: "cstate \<Rightarrow> siacoin_element \<Rightarrow> bool" where
  "expiring cs outp \<longleftrightarrow> shield_expiry cs outp \<le> ci_height (cs_index cs) + defend_threshold cs"

definition owned_inputs :: "('x, 'z) env_scheme \<Rightarrow> address_row list \<Rightarrow> selection \<Rightarrow> bool" where
  "owned_inputs E rows sel \<longleftrightarrow> list_all2 (\<lambda>i owner. i = input_of E (in_parent i) owner \<and>
     owns E rows (in_parent i) owner) (sel_inputs sel) (sel_owners sel)"

text \<open>The selection holds its first 128 outputs, their owners and their value.\<close>

definition selected :: "('x, 'z) env_scheme \<Rightarrow> cstate \<Rightarrow> address_row list \<Rightarrow> siacoin_element list \<Rightarrow> selection \<Rightarrow> bool" where
  "selected E cs rows outputs sel \<longleftrightarrow> map in_parent (sel_inputs sel) = take max_inputs outputs \<and>
     sel_total sel = value_sum E cs (take max_inputs outputs) \<and> sel_total sel < 2 ^ 128 \<and> owned_inputs E rows sel"

lemma defend_step_ok:
  assumes laws: "currency_laws E" and sel: "selected E cs (t_addresses (tables s)) outputs sel"
    and few: "length outputs < max_inputs" and ok: "defend_step E cs outp sel s = (Ok r, t)"
  shows "frame s t \<and> (if expiring cs outp
    then \<exists>sel'. selected E cs (t_addresses (tables s)) (outputs @ [outp]) sel' \<and>
      r = (if length outputs + 1 = max_inputs then Inr sel' else Inl sel')
    else r = Inl sel)"
proof (cases "expiring cs outp")
  case False
  with ok show ?thesis by (auto simp: defend_step_def expiring_def not_le frame.le_refl)
next
  case True
  let ?v = "spend_value E cs outp"
  from True have due: "(ci_height (cs_index cs) + defend_threshold cs < shield_expiry cs outp) = False"
    by (simp add: expiring_def not_less)
  from ok obtain found u where a: "address_by_hash E (so_address (se_output outp)) s = (Ok found, u)"
    and f: "(case found of None \<Rightarrow> fail (Svc UnknownKey)
      | Some owner \<Rightarrow> bnd (lift_panic (cur_add E (sel_total sel) ?v)) (\<lambda>total.
         let sel' = \<lparr>sel_inputs = sel_inputs sel @ [input_of E outp owner],
             sel_owners = sel_owners sel @ [owner], sel_total = total\<rparr> in
         ret (if length (sel_inputs sel') = max_inputs then Inr sel' else Inl sel'))) u = (Ok r, t)"
    unfolding defend_step_def due if_False bnd_Ok_iff input_of_def by blast
  then obtain owner where found: "found = Some owner" by (cases found) auto
  have tot: "sel_total sel < 2 ^ 128" using sel by (simp add: selected_def)
  have add: "cur_add E (sel_total sel) ?v = (if sel_total sel + ?v < 2 ^ 128 then Some (sel_total sel + ?v) else None)"
    using laws tot spend_value_bound [OF laws] by (rule currency_lawsD(1))
  with f found have bound: "sel_total sel + ?v < 2 ^ 128"
    by (auto simp: bnd_Ok_iff lift_panic_Ok_iff split: if_splits)
  let ?sel = "\<lparr>sel_inputs = sel_inputs sel @ [input_of E outp owner],
      sel_owners = sel_owners sel @ [owner], sel_total = sel_total sel + ?v\<rparr>"
  have par: "map in_parent (sel_inputs sel) = outputs" and sum: "sel_total sel = value_sum E cs outputs"
    using sel few by (simp_all add: selected_def)
  have len: "length (sel_inputs sel) = length outputs" using par by (metis length_map)
  have "owns E (t_addresses (tables s)) outp owner"
    using address_by_hash_ok(4) [OF a] found by (auto simp: owns_def)
  then have "owned_inputs E (t_addresses (tables s)) ?sel"
    using sel unfolding selected_def owned_inputs_def by (simp add: list_all2_appendI input_of_def)
  then have "selected E cs (t_addresses (tables s)) (outputs @ [outp]) ?sel"
    using par sum bound few by (simp add: selected_def input_of_def)
  moreover have "r = (if length outputs + 1 = max_inputs then Inr ?sel else Inl ?sel)" and "t = u"
    using f found add bound len by (auto simp: Let_def split: if_splits)
  moreover have "frame s u" using frame_reads(6) a by (rule evolvesD)
  ultimately show ?thesis using True by auto
qed

lemma defend_loop_ok:
  assumes laws: "currency_laws E" and "foreach (defend_step E cs) rest sel s = (Ok r, t)"
    and "selected E cs (t_addresses (tables s)) outputs sel" and "length outputs < max_inputs"
  shows "frame s t \<and> (\<exists>sel'. (r = Inl sel' \<or> r = Inr sel') \<and>
    selected E cs (t_addresses (tables s)) (outputs @ filter (expiring cs) rest) sel')"
  using assms(2-)
proof (induction rest arbitrary: sel s outputs)
  case Nil
  then show ?case by (auto simp: frame.le_refl)
next
  case (Cons outp rest)
  from Cons.prems(1) obtain r1 s1 where step: "defend_step E cs outp sel s = (Ok r1, s1)"
    and cont: "(case r1 of Inl acc' \<Rightarrow> foreach (defend_step E cs) rest acc' | Inr c \<Rightarrow> ret (Inr c)) s1 = (Ok r, t)"
    by (auto simp: bnd_Ok_iff)
  note one = defend_step_ok [OF laws Cons.prems(2,3) step]
  have rows: "t_addresses (tables s1) = t_addresses (tables s)" using one by (simp add: frame_def)
  show ?case
  proof (cases "expiring cs outp")
    case False
    with one cont have "foreach (defend_step E cs) rest sel s1 = (Ok r, t)" by simp
    from Cons.IH [OF this, of outputs] Cons.prems(2,3) rows one False show ?thesis
      by (auto intro: frame.le_trans)
  next
    case True
    with one obtain sel' where sel': "selected E cs (t_addresses (tables s)) (outputs @ [outp]) sel'"
      and r1: "r1 = (if length outputs + 1 = max_inputs then Inr sel' else Inl sel')" by auto
    show ?thesis
    proof (cases "length outputs + 1 = max_inputs")
      case len: True
      with r1 cont have "r = Inr sel'" "t = s1" by auto
      moreover have "selected E cs (t_addresses (tables s)) (outputs @ filter (expiring cs) (outp # rest)) sel'"
      proof -
        have "max_inputs - length outputs = 1" using len by simp
        then show ?thesis using sel' True by (simp add: selected_def)
      qed
      ultimately show ?thesis using one by blast
    next
      case False
      with r1 cont have loop: "foreach (defend_step E cs) rest sel' s1 = (Ok r, t)" by simp
      from False Cons.prems(3) have "length (outputs @ [outp]) < max_inputs" by simp
      with Cons.IH [OF loop, of "outputs @ [outp]"] sel' rows one True show ?thesis
        by (auto intro: frame.le_trans)
    qed
  qed
qed

section \<open>The transaction\<close>

lemma bnd_OkE:
  assumes "bnd m f s = (Ok b, t)"
  obtains a u where "m s = (Ok a, u)" and "f a u = (Ok b, t)"
  using assms unfolding bnd_Ok_iff by blast

lemma skipE:
  assumes "(if b then ret None else m) s = (Ok (Some w), t)"
  obtains "\<not> b" and "m s = (Ok (Some w), t)"
  using assms by (auto split: if_splits)

text \<open>The spendable outputs the wallet lists at the state of the chain, read without any change.\<close>

definition lists_outputs :: "('x, 'z) env_scheme \<Rightarrow> 'x sys \<Rightarrow> cstate \<Rightarrow> siacoin_element list \<Rightarrow> bool" where
  "lists_outputs E s cs outputs \<longleftrightarrow> (\<exists>x u u'. cs = fst (cm_tip_state E x) \<and> frame s u \<and>
     spendable_outputs E cs u = (Ok outputs, u'))"

text \<open>What the automatic DEFEND journals from the state \<open>s\<close>.\<close>

definition reshields :: "('x, 'z) env_scheme \<Rightarrow> cstate \<Rightarrow> bytes \<Rightarrow> 'x sys \<Rightarrow> siacoin_element list \<Rightarrow> withdrawal \<Rightarrow> bool" where
  "reshields E cs mst s chosen w \<longleftrightarrow> chosen \<noteq> [] \<and>
     map in_parent (tx_inputs (w_txn w)) = chosen \<and>
     tx_outputs (w_txn w) = [\<lparr>so_value = w_amount w, so_address = w_destination w\<rparr>] \<and>
     tx_fee (w_txn w) = w_fee w \<and> w_fee w = fee_default E \<and>
     value_sum E cs chosen = w_amount w + w_fee w \<and> 0 < w_amount w \<and>
     (\<exists>a. issued E s [] ''change'' a \<and> w_destination w = a_address a) \<and>
     (\<exists>hash. authorised E cs mst (t_addresses (tables s)) hash (w_txn w)) \<and>
     validate_txn E cs (w_txn w) = None \<and> w_kind w = ''defend'' \<and> w_basis w = cs_index cs"

lemma draft_transfer_run:
  assumes laws: "currency_laws E" and ok: "wallet_ok E mst s"
    and sel: "selected E cs (t_addresses (tables s)) outputs sel"
    and run: "draft_transfer E cs mst sel (fee_default E) s = (Ok (Some w), t)"
  shows "reshields E cs mst s (take max_inputs outputs) w"
proof -
  let ?fee = "fee_default E"
  from run have ne: "sel_inputs sel \<noteq> []" and pos: "0 < cur_cmp E (sel_total sel) ?fee"
    by (auto simp: draft_transfer_def not_le split: if_splits)
  with run obtain a s1 rest txn s2 where na: "new_address E [] ''change'' s = (Ok a, s1)"
    and sub: "cur_sub E (sel_total sel) ?fee = Some rest"
    and fin: "finish_transfer E ServiceCtx cs
       \<lparr>tx_inputs = sel_inputs sel, tx_outputs = [\<lparr>so_value = rest, so_address = a_address a\<rparr>],
        tx_fee = ?fee, tx_arbitrary = transfer_data E, tx_rest = []\<rparr> (sel_owners sel) mst s1 = (Ok txn, s2)"
    and w: "w_kind w = ''defend''" "w_txn w = txn" "w_basis w = cs_index cs" "w_destination w = a_address a"
      "w_amount w = rest" "w_fee w = ?fee"
    by (auto simp: draft_transfer_def run_iffs)
  have tot: "sel_total sel < 2 ^ 128" "sel_total sel = value_sum E cs (take max_inputs outputs)"
    and par: "map in_parent (sel_inputs sel) = take max_inputs outputs"
    and own: "list_all2 (\<lambda>i owner. i = input_of E (in_parent i) owner \<and>
     owns E (t_addresses (tables s)) (in_parent i) owner) (sel_inputs sel) (sel_owners sel)"
    using sel by (simp_all add: selected_def owned_inputs_def)
  note cmp = currency_lawsD [OF laws tot(1) currency_bounds(1) [OF laws]]
  have lt: "?fee < sel_total sel" using pos cmp(4,5) by (metis less_irrefl linorder_neqE_nat not_less_iff_gr_or_eq)
  with sub cmp(2) have rest: "sel_total sel = rest + ?fee" "0 < rest" by (auto split: if_splits)
  obtain worked where like: "signed_like worked txn"
    and work: "work_done E cs \<lparr>tx_inputs = sel_inputs sel, tx_outputs = [\<lparr>so_value = rest, so_address = a_address a\<rparr>],
        tx_fee = ?fee, tx_arbitrary = transfer_data E, tx_rest = []\<rparr> worked"
    and sig: "\<And>i. i < length (sel_owners sel) \<Longrightarrow>
      sign_owner E mst (input_sig_hash E cs worked) (sel_owners sel ! i) = Inr (in_satisfied (tx_inputs txn ! i))"
    and valid: "validate_txn E cs txn = None"
    using finish_transfer_ok [OF fin selected_consistent [OF ok own]] by metis
  from like work_done_keeps [OF work] have keep: "map in_parent (tx_inputs txn) = map in_parent (sel_inputs sel)"
    "tx_outputs txn = [\<lparr>so_value = rest, so_address = a_address a\<rparr>]" "tx_fee txn = ?fee"
    by (simp_all add: signed_like_def)
  have "authorised E cs mst (t_addresses (tables s)) (input_sig_hash E cs worked) txn"
    using own keep(1) sig by (rule signed_authorised)
  moreover have "issued E s [] ''change'' a" using new_address_ok [OF na] by blast
  moreover have "take max_inputs outputs \<noteq> []" using ne par by (metis map_is_Nil_conv)
  ultimately show ?thesis
    unfolding reshields_def using w keep par tot rest valid by auto
qed

lemma draft_defend_run:
  assumes laws: "currency_laws E" and ok: "wallet_ok E mst s" and run: "draft_defend E s = (Ok (Some w), t)"
  shows "\<exists>cs outputs. reshields E cs mst s
      (take max_inputs (filter (expiring cs) (sort_elements E (expires_first cs) outputs))) w \<and>
    lists_outputs E s cs outputs \<and> qday_active E cs (ci_height (cs_index cs) + 1)"
proof -
  from run obtain cs outputs s1 s2 r s3 seed where seed: "mst_seed s = Some seed"
    and tip: "cs = fst (cm_tip_state E (world s))" and f1: "frame s s1" and outs: "spendable_outputs E cs s1 = (Ok outputs, s2)"
    and active: "qday_active E cs (ci_height (cs_index cs) + 1)"
    and loop: "foreach (defend_step E cs) (sort_elements E (expires_first cs) outputs)
       \<lparr>sel_inputs = [], sel_owners = [], sel_total = 0\<rparr> s2 = (Ok r, s3)"
    and draft: "draft_transfer E cs seed (case r of Inl sel \<Rightarrow> sel | Inr sel \<Rightarrow> sel) (fee_default E) s3 = (Ok (Some w), t)"
    unfolding draft_defend_def
  proof (elim bnd_OkE skipE)
    fix cs s1 scan s2 seed s3 outputs s4 r s5
    assume "\<not> \<not> qday_active E cs (ci_height (cs_index cs) + 1)" and tip: "ext (cm_tip_state E) s = (Ok cs, s1)"
      and scan: "ext_sum (wm_tip E) s1 = (Ok scan, s2)" and seed: "master_seed s2 = (Ok seed, s3)"
      and "spendable_outputs E cs s3 = (Ok outputs, s4)"
      and "foreach (defend_step E cs) (sort_elements E (expires_first cs) outputs)
       \<lparr>sel_inputs = [], sel_owners = [], sel_total = 0\<rparr> s4 = (Ok r, s5)"
      and "draft_transfer E cs seed (case r of Inl sel \<Rightarrow> sel | Inr sel \<Rightarrow> sel) (fee_default E) s5 = (Ok (Some w), t)"
    moreover have "frame s s2" using evolvesD [OF frame_ext tip] evolvesD [OF frame_ext_sum scan] by (rule frame.le_trans)
    then have "mst_seed s = Some seed" "frame s s3"
      using seed by (auto simp: master_seed_def bnd_Ok_iff frame_def split: option.splits)
    moreover have "cs = fst (cm_tip_state E (world s))" using tip by (simp add: ext_Ok_iff)
    ultimately show thesis by (intro that) simp_all
  qed
  have listed: "lists_outputs E s cs outputs"
    unfolding lists_outputs_def using tip f1 outs by blast
  have f2: "frame s s2" using f1 evolvesD [OF spendable_outputs_frame outs] by (rule frame.le_trans)
  have "selected E cs (t_addresses (tables s2)) [] \<lparr>sel_inputs = [], sel_owners = [], sel_total = 0\<rparr>"
    by (simp add: selected_def owned_inputs_def)
  from defend_loop_ok [OF laws loop this] obtain sel where f3: "frame s2 s3" and r: "r = Inl sel \<or> r = Inr sel"
    and sel: "selected E cs (t_addresses (tables s2)) (filter (expiring cs) (sort_elements E (expires_first cs) outputs)) sel"
    by (auto simp: max_inputs_def)
  have f: "frame s s3" using f2 f3 by (rule frame.le_trans)
  have ok3: "wallet_ok E mst s3" using ok by (simp only: wallet_ok_frame [OF f])
  have rows: "t_addresses (tables s2) = t_addresses (tables s3)"
    using f3 unfolding frame_def by (elim conjE) simp
  have "seed = mst" using ok seed by (simp add: wallet_ok_def)
  with draft_transfer_run [OF laws ok3 sel [unfolded rows]] draft r
  have "reshields E cs mst s3 (take max_inputs (filter (expiring cs) (sort_elements E (expires_first cs) outputs))) w"
    by auto
  then have "reshields E cs mst s (take max_inputs (filter (expiring cs) (sort_elements E (expires_first cs) outputs))) w"
    using f by (simp add: reshields_def issued_def frame_def)
  with listed active show ?thesis by blast
qed

section \<open>The journal row\<close>

lemma submit_defend_cases:
  assumes "submit_defend E w s = (r, t)"
  shows "frame s t \<or> journalled E w s t"
proof -
  obtain ra s1 where add: "add_withdrawal E w s = (ra, s1)" by fastforce
  from add_withdrawal_cases [OF add] show ?thesis
  proof (elim disjE conjE exE)
    fix e assume ra: "ra = Err e" and fr: "frame s s1"
    have "evolves frame (bnd (attempt (withdrawal_get E (w_request w))) (\<lambda>_. ret ()))"
      by (intro frame_intros frame_reads)
    moreover have "bnd (attempt (withdrawal_get E (w_request w))) (\<lambda>_. ret ()) s1 = (r, t)"
      using assms add ra by (simp add: submit_defend_def bnd_def attempt_def)
    ultimately have "frame s1 t" by (rule evolvesD)
    with fr show ?thesis by (blast intro: frame.le_trans)
  next
    assume ra: "ra = Ok ()" and j: "journalled E w s s1"
    obtain rs s2 where sub: "submit E (w_basis w) (w_txn w) s1 = (rs, s2)" by fastforce
    have j2: "journalled E w s s2" using j evolvesD [OF submit_frame sub] by (rule journalled_frame)
    show ?thesis
    proof (cases rs)
      case (Ok failure)
      let ?msg = "case failure of None \<Rightarrow> w_error w | Some msg \<Rightarrow> msg"
      obtain ru s3 where upd: "update_withdrawal E (w_request w) (w_basis w) (w_txn w) ?msg s2 = (ru, s3)" by fastforce
      have "t = s3"
        using assms add ra sub Ok upd by (cases ru) (simp_all add: submit_defend_def bnd_def attempt_def)
      with update_fresh_row [OF upd j2] show ?thesis by simp
    qed (use assms add ra sub j2 in \<open>auto simp: submit_defend_def bnd_def attempt_def\<close>)
  qed
qed

lemma defend_step_frame: "evolves frame (defend_step E cs outp sel)"
  unfolding defend_step_def by (intro frame_intros frame_reads)

lemma journals_draft: "evolves same_journals (draft_defend E)"
proof -
  have "evolves same_journals (draft_transfer E cs mst sel fee)" for cs mst sel fee
    unfolding draft_transfer_def
    by (intro journals.ev_intros journals_new_address finish_transfer_frame [THEN journals_frame]
        frame_ext [THEN journals_frame])
  then show ?thesis
    unfolding draft_defend_def master_seed_def
    by (intro journals.ev_intros frame_ext [THEN journals_frame] frame_ext_sum [THEN journals_frame]
        spendable_outputs_frame [THEN journals_frame] defend_step_frame [THEN journals_frame])
qed

lemma sorted_wrt_take_drop:
  "sorted_wrt R xs \<Longrightarrow> a \<in> set (take n xs) \<Longrightarrow> b \<in> set (drop n xs) \<Longrightarrow> R a b"
  by (metis append_take_drop_id sorted_wrt_append)

text \<open>The chosen outputs are outputs of the wallet that expire, as many as there are up to the limit,
  and what is left out expires no earlier than what is chosen.\<close>

definition most_urgent :: "cstate \<Rightarrow> siacoin_element list \<Rightarrow> siacoin_element list \<Rightarrow> bool" where
  "most_urgent cs outputs chosen \<longleftrightarrow> mset chosen \<subseteq># mset outputs \<and> (\<forall>c\<in>set chosen. expiring cs c) \<and>
     length chosen = min 128 (length (filter (expiring cs) outputs)) \<and>
     (\<forall>c\<in>set chosen. \<forall>x\<in>#mset outputs - mset chosen. expiring cs x \<longrightarrow> shield_expiry cs c \<le> shield_expiry cs x)"

lemma chosen_urgent:
  assumes "sort_laws srt"
  shows "most_urgent cs outputs (take max_inputs (filter (expiring cs) (srt (expires_first cs) outputs)))"
proof -
  let ?ys = "filter (expiring cs) (srt (expires_first cs) outputs)"
  let ?chosen = "take max_inputs ?ys" and ?left = "drop max_inputs ?ys"
  have "strict_weak (set outputs) (expires_first cs)"
    by (auto simp: strict_weak_def expires_first_def)
  with assms have ys: "sorted_wrt (\<lambda>a b. \<not> expires_first cs b a) ?ys"
    by (intro sorted_wrt_filter) (rule sort_laws_sorted)
  have all: "mset ?ys = filter_mset (expiring cs) (mset outputs)"
    by (simp add: mset_filter sort_laws_mset [OF assms])
  have split: "mset ?chosen + mset ?left = mset ?ys" by (metis append_take_drop_id mset_append)
  have "x \<in> set ?left" if x: "x \<in># mset outputs - mset ?chosen" "expiring cs x" for x
  proof -
    have "x \<in># filter_mset (expiring cs) (mset outputs) - mset ?chosen"
      using x by (simp add: in_diff_count)
    also have "filter_mset (expiring cs) (mset outputs) - mset ?chosen = mset ?left"
      by (metis all split add_diff_cancel_left')
    finally show ?thesis by simp
  qed
  then have "\<forall>c\<in>set ?chosen. \<forall>x\<in>#mset outputs - mset ?chosen. expiring cs x \<longrightarrow> shield_expiry cs c \<le> shield_expiry cs x"
    using sorted_wrt_take_drop [OF ys] by (force simp: expires_first_def not_less)
  moreover have "mset ?chosen \<subseteq># mset outputs"
    using split all by (metis mset_subset_eq_add_left multiset_filter_subset subset_mset.trans)
  moreover have "length ?ys = length (filter (expiring cs) outputs)"
    using all by (metis mset_filter size_mset)
  ultimately show ?thesis
    by (auto simp: most_urgent_def max_inputs_def dest: in_set_takeD)
qed

lemma auto_defend_cases:
  assumes laws: "currency_laws E" and ok: "wallet_ok E mst s" and run: "auto_defend E s = (r, t)"
  shows "same_journals s t \<or> mst_seed s \<noteq> None \<and> (\<exists>cs outputs w raw h msg.
    reshields E cs mst s (take max_inputs (filter (expiring cs) (sort_elements E (expires_first cs) outputs))) w \<and>
    lists_outputs E s cs outputs \<and> qday_active E cs (ci_height (cs_index cs) + 1) \<and>
    t_withdrawals (tables t) = t_withdrawals (tables s) @ [(withdrawal_row_of E w raw h)\<lparr>wr_error := msg\<rparr>] \<and>
    encode_txn E (w_txn w) = Inr raw \<and> t_actions (tables t) = t_actions (tables s))"
proof (cases "mst_seed s")
  case None
  with run show ?thesis by (simp add: auto_defend_def unlocked_def bnd_def journals.le_refl)
next
  case (Some seed)
  obtain ry s1 where sync: "network_synced E s = (ry, s1)" by fastforce
  obtain rl s2 where lock: "ext (op_try_lock E) s1 = (Ok rl, s2)" by (simp add: ext_app)
  obtain rd s3 where draft: "draft_defend E s2 = (rd, s3)" by fastforce
  have f1: "frame s s1" using network_synced_frame sync by (rule evolvesD)
  have f2: "frame s s2" using f1 evolvesD [OF frame_ext lock] by (rule frame.le_trans)
  have j: "same_journals s s3"
    using evolvesD [OF journals_draft draft] f2 by (simp add: same_journals_def frame_def)
  show ?thesis
  proof (cases "\<exists>w. rd = Ok (Some w) \<and> ry = Ok True \<and> rl")
    case False
    have "frame s t \<or> same_journals s t"
      using run Some sync lock draft False f1 f2 j
      by (cases ry; cases rd) (auto simp: auto_defend_def unlocked_def defend_def bnd_def attempt_def
          split: if_splits option.splits)
    then show ?thesis by (auto simp: same_journals_def frame_def)
  next
    case True
    then obtain w where w: "rd = Ok (Some w)" "ry = Ok True" rl by blast
    obtain rs s4 where sub: "submit_defend E w s3 = (rs, s4)" by fastforce
    have t: "t = s4"
      using run Some sync lock draft w sub
      by (cases rs) (auto simp: auto_defend_def unlocked_def defend_def bnd_def attempt_def)
    have ok2: "wallet_ok E mst s2" using ok by (simp only: wallet_ok_frame [OF f2])
    obtain cs outputs where re: "reshields E cs mst s2
        (take max_inputs (filter (expiring cs) (sort_elements E (expires_first cs) outputs))) w"
      and active: "qday_active E cs (ci_height (cs_index cs) + 1)" and "lists_outputs E s2 cs outputs"
      using draft_defend_run [OF laws ok2, of w s3] draft w by auto
    then have listed: "lists_outputs E s cs outputs"
      using frame.le_trans [OF f2] unfolding lists_outputs_def by blast
    have "reshields E cs mst s
        (take max_inputs (filter (expiring cs) (sort_elements E (expires_first cs) outputs))) w"
      using re f2 by (simp add: reshields_def issued_def frame_def)
    moreover from submit_defend_cases [OF sub] have "same_journals s t \<or> (\<exists>raw h msg.
        t_withdrawals (tables t) = t_withdrawals (tables s) @ [(withdrawal_row_of E w raw h)\<lparr>wr_error := msg\<rparr>] \<and>
        encode_txn E (w_txn w) = Inr raw \<and> t_actions (tables t) = t_actions (tables s))"
    proof
      assume "frame s3 s4"
      with j t show ?thesis by (simp add: same_journals_def frame_def)
    next
      assume "journalled E w s3 s4"
      then obtain raw h e where raw: "encode_txn E (w_txn w) = Inr raw"
        and fr: "frame (s3\<lparr>tables := (tables s3)\<lparr>t_withdrawals := t_withdrawals (tables s3) @
          [(withdrawal_row_of E w raw h)\<lparr>wr_error := e\<rparr>]\<rparr>\<rparr>) s4"
        unfolding journalled_def by blast
      from fr j t have "t_withdrawals (tables t) = t_withdrawals (tables s) @ [(withdrawal_row_of E w raw h)\<lparr>wr_error := e\<rparr>]"
        and "t_actions (tables t) = t_actions (tables s)" by (simp_all add: frame_def same_journals_def)
      with raw show ?thesis by blast
    qed
    ultimately show ?thesis using active listed Some by blast
  qed
qed

text \<open>
  C11. The automatic DEFEND does nothing to the journals unless the wallet is unlocked and QDAY is
  active at the next height. Then it journals one transaction at most. Of the spendable outputs
  that the wallet lists it spends those whose shield runs out within the threshold: all of them, or
  128 where there are more, and none that is left out runs out earlier than one that is spent.
  Each is signed by its owner, and all go to one output of a fresh address of the wallet: the
  value of the inputs is what arrives plus the default fee, and something arrives.
\<close>

theorem defend_reshields:
  assumes "currency_laws E" and "slice_laws E" and "wallet_ok E mst s" and "auto_defend E s = (r, t)"
  shows "same_journals s t \<or> mst_seed s \<noteq> None \<and> (\<exists>cs outputs chosen w raw h msg.
    lists_outputs E s cs outputs \<and> most_urgent cs outputs chosen \<and> reshields E cs mst s chosen w \<and>
    qday_active E cs (ci_height (cs_index cs) + 1) \<and>
    t_withdrawals (tables t) = t_withdrawals (tables s) @ [(withdrawal_row_of E w raw h)\<lparr>wr_error := msg\<rparr>] \<and>
    encode_txn E (w_txn w) = Inr raw \<and> t_actions (tables t) = t_actions (tables s))"
  using auto_defend_cases [OF assms(1,3,4)] chosen_urgent [OF slice_sort [OF assms(2)]] by blast

section \<open>An example\<close>

text \<open>Three outputs, of which the second runs out first and the last one not within the threshold, in a
  wallet whose further children have other keys than its first.\<close>

definition sample_due :: "u8 \<Rightarrow> currency \<Rightarrow> u64 \<Rightarrow> siacoin_element" where
  "sample_due i v h = (sample_output i v)\<lparr>se_maturity := h\<rparr>"

definition sample_dues :: "siacoin_element list" where
  "sample_dues = [sample_due 1 500 12, sample_due 2 700 4, sample_due 3 900 13]"

definition sample_fresh :: qkeys where
  "sample_fresh = \<lparr>classical = replicate 32 3, reserve = replicate 32 4\<rparr>"

definition sample_input :: "siacoin_element \<Rightarrow> v2input" where
  "sample_input output = \<lparr>in_parent = output, in_satisfied = \<lparr>sp_policy = PolicyOpaque (classical sample_keys),
     sp_signatures = [[5]], sp_preimages = []\<rparr>\<rparr>"

definition sample_defend :: v2txn where
  "sample_defend = \<lparr>tx_inputs = [sample_input (sample_due 2 700 4), sample_input (sample_due 1 500 12)],
     tx_outputs = [\<lparr>so_value = 1199, so_address = classical sample_fresh\<rparr>], tx_fee = 1, tx_arbitrary = [1], tx_rest = []\<rparr>"

definition sample_defend_env :: "unit env" where
  "sample_defend_env = (sample_env [sample_defend] sample_dues)\<lparr>qday_active := \<lambda>cs h. True,
     keys_from_seed := \<lambda>seed. Inr \<lparr>pk_public = (if seed = derive_seed [1] 0 then sample_keys else sample_fresh), pk_secret = []\<rparr>\<rparr>"

lemma sample_defend_simps [simp]:
  "qday_active sample_defend_env = (\<lambda>cs h. True)" "cm_tip_state sample_defend_env = (\<lambda>w. (sample_cs, w))"
  "cm_tip sample_defend_env = (\<lambda>w. (sample_index, w))" "wm_tip sample_defend_env = (\<lambda>w. (Inr sample_index, w))"
  "cm_pool sample_defend_env = (\<lambda>w. ([], w))" "db_fault sample_defend_env = (\<lambda>w. (None, w))"
  "ctx_err sample_defend_env = (\<lambda>c w. (None, w))" "op_try_lock sample_defend_env = (\<lambda>w. (True, w))"
  "now sample_defend_env = (\<lambda>w. (0, w))"
  "wm_add_addresses sample_defend_env = (\<lambda>wid as w. (None, w))"
  "cm_add_pool sample_defend_env = (\<lambda>i ts w. (None, w))" "sy_broadcast sample_defend_env = (\<lambda>i ts w. (None, w))"
  "fee_default sample_defend_env = 1"
  "cur_add sample_defend_env = (\<lambda>a b. if a + b < 2 ^ 128 then Some (a + b) else None)"
  "qday_value sample_defend_env = (\<lambda>cs el h. so_value (se_output el) mod 2 ^ 128)"
  "cur_sub sample_defend_env = (\<lambda>a b. if b \<le> a then Some (a - b) else None)"
  "cur_cmp sample_defend_env = (\<lambda>a b. if a < b then - 1 else if a = b then 0 else 1)"
  "transfer_data sample_defend_env = [1]" "txn_id sample_defend_env = (\<lambda>t. [9])" "id_string sample_defend_env = bytes_text"
  "parse_envelope sample_defend_env = (\<lambda>b. Inr \<lparr>env_nonce = 0, env_rest = b\<rparr>)" "encode_envelope sample_defend_env = env_rest"
  "work_valid sample_defend_env = (\<lambda>i n b. True)" "input_sig_hash sample_defend_env = (\<lambda>cs t. [5])"
  "validate_txn sample_defend_env = (\<lambda>cs t. None)" "encode_txn sample_defend_env = sample_encode [sample_defend]"
  "keys_policy sample_defend_env = (\<lambda>k. PolicyOpaque (classical k))"
  "keys_sign sample_defend_env =
    (\<lambda>k h. Inr \<lparr>sp_policy = PolicyOpaque (classical (pk_public k)), sp_signatures = [h], sp_preimages = []\<rparr>)"
  "keys_from_seed sample_defend_env =
    (\<lambda>seed. Inr \<lparr>pk_public = (if seed = derive_seed [1] 0 then sample_keys else sample_fresh), pk_secret = []\<rparr>)"
  by (simp_all add: sample_defend_env_def)

lemma sample_defend_sort [simp]: "sort_elements sample_defend_env = insertion_sort"
proof -
  have "sort_elements sample_defend_env = sort_elements (sample_env [] [])"
    unfolding sort_elements_def sample_defend_env_def fun_eq_iff by simp
  then show ?thesis by simp
qed

lemma sample_defend_laws: "currency_laws sample_defend_env" "slice_laws sample_defend_env"
  "wallet_ok sample_defend_env [1] sample_sys"
proof -
  show "currency_laws sample_defend_env"
    using sample_currency_laws by (simp add: currency_laws_def sample_defend_env_def)
  show "slice_laws sample_defend_env"
    using sample_slice_laws by (simp add: slice_laws_def sample_defend_env_def)
  show "wallet_ok sample_defend_env [1] sample_sys"
    by (simp add: wallet_ok_def children_def child_row_def derive_keys_def sample_state sample_defend_env_def)
      (simp add: sample_row_def)
qed

lemma sample_due_outputs: "spendable_outputs sample_defend_env sample_cs sample_sys = (Ok sample_dues, sample_sys)"
proof -
  let ?body = "\<lambda>(offset, result).
       bnd (ext_sum (wm_unspent sample_defend_env 1 offset page_size)) (\<lambda>(pg, basis).
       bnd (guard_err (basis \<noteq> cs_index sample_cs) (Svc IndexSynchronizing)) (\<lambda>_.
       let result' = result @ filter (\<lambda>output. se_id output \<notin> set (pool_spent []) \<and>
             \<not> cur_is_zero sample_defend_env (spend_value sample_defend_env sample_cs output)) pg in
       if length pg < page_size then ret (Inr result')
       else ret (Inl (offset + page_size, result'))))"
  have "loop ?body (0, []) sample_sys = (Ok sample_dues, sample_sys)"
    by (rule loop_done) (simp add: sample_run world_unit page_size_def sample_cs_def sample_dues_def sample_due_def
        pool_spent_def spend_value_def sample_output_def sample_defend_env_def)
  then show ?thesis
    by (simp add: spendable_outputs_def bnd_def ext_def Let_def guard_err_def world_unit sample_cs_def
        sample_sys_def cong: if_cong)
qed

lemma sample_due_sorted: "insertion_sort (expires_first sample_cs) sample_dues =
    [sample_due 2 700 4, sample_due 1 500 12, sample_due 3 900 13]"
  by (simp add: insertion_sort_def sample_dues_def expires_first_def shield_expiry_def sample_due_def sample_output_def
      sample_cs_def)

lemma sample_due_owner:
  "address_by_hash sample_defend_env (classical sample_keys) sample_sys = (Ok (Some sample_owner), sample_sys)"
proof -
  have "decode_address sample_defend_env sample_row = Inr sample_owner"
    by (simp add: decode_address_def sample_defend_env_def sample_row_def sample_owner_def scan_uint64_def
        sample_keys_def unix_time_def numeral_eq_Suc)
  moreover have "ar_address sample_row = bytes_text (classical sample_keys)" by (simp add: sample_row_def)
  moreover have "qaddr_string sample_defend_env = bytes_text" by (simp add: sample_defend_env_def)
  ultimately show ?thesis by (simp add: address_by_hash_def sample_run sample_state)
qed

definition sample_due_selection :: selection where
  "sample_due_selection = \<lparr>sel_inputs = [input_of sample_defend_env (sample_due 2 700 4) sample_owner,
     input_of sample_defend_env (sample_due 1 500 12) sample_owner], sel_owners = [sample_owner, sample_owner], sel_total = 1200\<rparr>"

lemma sample_due_selected: "foreach (defend_step sample_defend_env sample_cs) [sample_due 2 700 4, sample_due 1 500 12, sample_due 3 900 13]
    \<lparr>sel_inputs = [], sel_owners = [], sel_total = 0\<rparr> sample_sys = (Ok (Inl sample_due_selection), sample_sys)"
  by (simp add: defend_step_def defend_threshold_def shield_expiry_def sample_due_def sample_output_def sample_cs_def
      sample_index_def bnd_def sample_due_owner sample_due_selection_def lift_panic_def Let_def max_inputs_def
      input_of_def spend_value_def)

definition sample_defend_row :: withdrawal where
  "sample_defend_row = \<lparr>w_request = ''defend:'' @ bytes_text [9], w_kind = ''defend'', w_txn = sample_defend,
     w_basis = sample_index, w_confirmed = None, w_destination = classical sample_fresh, w_amount = 1199, w_fee = 1,
     w_created = 0, w_error = []\<rparr>"

definition sample_reshielded :: "unit sys" where
  "sample_reshielded = sample_sys\<lparr>tables := (tables sample_sys)\<lparr>
     t_addresses := [sample_row, address_row_of sample_defend_env \<lparr>a_index = 1, a_address = classical sample_fresh,
       a_public = sample_fresh, a_reference = [], a_kind = ''change'', a_created = 0\<rparr> 1],
     t_withdrawals := [withdrawal_row_of sample_defend_env sample_defend_row [0] 10]\<rparr>\<rparr>"

lemma sample_defend_run:
  assumes "derive_seed [1] 1 \<noteq> derive_seed [1] 0"
  shows "auto_defend sample_defend_env sample_sys = (Ok (), sample_reshielded)"
proof -
  let ?a = "\<lparr>a_index = 1, a_address = classical sample_fresh,
       a_public = sample_fresh, a_reference = [], a_kind = ''change'', a_created = 0\<rparr>"
  let ?s = "sample_sys\<lparr>tables := (tables sample_sys)\<lparr>
     t_addresses := [sample_row, address_row_of sample_defend_env ?a 1]\<rparr>\<rparr>"
  have key: "derive_keys sample_defend_env [1] 1 = Inr \<lparr>pk_public = sample_fresh, pk_secret = []\<rparr>"
    using assms by (simp add: derive_keys_def sample_defend_env_def)
  have seed: "master_seed sample_sys = (Ok [1], sample_sys)"
    by (simp add: master_seed_def bnd_def sample_state)
  have index: "next_index sample_defend_env sample_sys = (Ok 1, sample_sys)"
    by (simp add: next_index_def next_value_def scan_uint64_def sample_run sample_state sample_row_def)
  have time: "ext (Pair 0) sample_sys = (Ok 0, sample_sys)"
    by (simp add: ext_def)
  have add: "add_address sample_defend_env ?a sample_sys = (Ok (), ?s)"
    by (simp add: add_address_def sql_uint64_def sample_run sample_state address_row_of_def address_constraints_def
        sample_fresh_def sample_defend_env_def sample_row_def sample_keys_def unix_seconds_def bytes_text_def)
  have reg: "register_address sample_defend_env ?a ?s = (Ok (), ?s)"
    by (simp add: register_address_def sample_run sample_state)
  have policy: "keys_address sample_defend_env = classical" by (simp add: sample_defend_env_def)
  have new: "new_address sample_defend_env [] ''change'' sample_sys = (Ok ?a, ?s)"
    by (simp add: new_address_def bnd_def seed index key time Let_def policy add reg)
  have work: "loop (work_step sample_defend_env ServiceCtx intent bits) 0 ?s = (Ok 0, ?s)" for intent bits
    by (rule loop_done) (simp add: work_step_def)
  have finish: "finish_transfer sample_defend_env ServiceCtx sample_cs
      \<lparr>tx_inputs = sel_inputs sample_due_selection, tx_outputs = [\<lparr>so_value = 1199, so_address = classical sample_fresh\<rparr>],
       tx_fee = 1, tx_arbitrary = [1], tx_rest = []\<rparr> (sel_owners sample_due_selection) [1] ?s = (Ok sample_defend, ?s)"
    by (simp add: finish_transfer_def perform_defend_work_def work sample_input_def sign_inputs_def sign_step_def sign_owner_def
      derive_keys_def set_satisfied_def sample_run world_unit sample_defend_def input_of_def sample_owner_def
      sample_cs_def sample_due_selection_def)
  have calls: "ext (Pair c) u = (Ok c, u)" "ext_sum (Pair (Inr c)) u = (Ok c, u)" for c :: 'c and u :: "unit sys"
    by (simp_all add: ext_def ext_sum_def bnd_def)
  have sel: "sel_inputs sample_due_selection \<noteq> []" "sel_total sample_due_selection = 1200"
    by (simp_all add: sample_due_selection_def)
  have row: "sample_defend_row = \<lparr>w_request = ''defend:'' @ bytes_text [9], w_kind = ''defend'', w_txn = sample_defend,
      w_basis = cs_index sample_cs, w_confirmed = None, w_destination = classical sample_fresh, w_amount = 1199, w_fee = 1,
      w_created = 0, w_error = []\<rparr>"
    by (simp add: sample_defend_row_def sample_cs_def)
  have transfer: "draft_transfer sample_defend_env sample_cs [1] sample_due_selection 1 sample_sys = (Ok (Some sample_defend_row), ?s)"
    unfolding draft_transfer_def row
    by (simp add: sel new bnd_def lift_panic_def finish [simplified] calls)
  have "cs_index sample_cs = sample_index" by (simp add: sample_cs_def)
  then have draft: "draft_defend sample_defend_env sample_sys = (Ok (Some sample_defend_row), ?s)"
    using transfer by (simp add: draft_defend_def bnd_def calls seed sample_due_outputs sample_due_sorted
        sample_due_selected del: foreach.simps)
  have submit: "submit_defend sample_defend_env sample_defend_row ?s = (Ok (), sample_reshielded)"
    by (simp add: submit_defend_def add_withdrawal_def update_withdrawal_def update_withdrawals_def update_where_def
      submit_def broadcast_def sample_run sample_state
      sample_encode_def sample_defend_row_def withdrawal_checks_def withdrawal_row_of_def sql_uint64_def
      sample_index_def sample_reshielded_def sample_defend_def)
  have run: "defend sample_defend_env sample_sys = (Ok (), sample_reshielded)"
    by (simp add: defend_def bnd_def draft submit)
  show ?thesis
    by (simp add: auto_defend_def unlocked_def network_synced_def bnd_def ext_def attempt_def world_unit run)
      (simp add: sample_state)
qed

text \<open>The example runs through unless HMAC-SHA512 gives the first two children the same seed.\<close>

theorem defend_reshields_witness:
  "hmac_collision [1] (seed_message 0) (seed_message 1) \<or>
    (\<exists>cs outputs chosen w. lists_outputs sample_defend_env sample_sys cs outputs \<and> most_urgent cs outputs chosen \<and>
      reshields sample_defend_env cs [1] sample_sys chosen w \<and> w_amount w = 1199 \<and>
      length (t_withdrawals (tables (snd (auto_defend sample_defend_env sample_sys)))) = 1)"
proof (cases "derive_seed [1] 1 = derive_seed [1] 0")
  case True
  then show ?thesis by (simp add: hmac_collision_def derive_seed_def seed_message_inj)
next
  case False
  note run = sample_defend_run [OF this]
  have "\<not> same_journals sample_sys sample_reshielded"
    by (simp add: same_journals_def sample_reshielded_def sample_state)
  with defend_reshields [OF sample_defend_laws run] obtain cs outputs chosen w raw h msg where
    found: "lists_outputs sample_defend_env sample_sys cs outputs" "most_urgent cs outputs chosen"
      "reshields sample_defend_env cs [1] sample_sys chosen w"
    and "t_withdrawals (tables sample_reshielded) = t_withdrawals (tables sample_sys) @
      [(withdrawal_row_of sample_defend_env w raw h)\<lparr>wr_error := msg\<rparr>]" by blast
  moreover have "wr_amount (withdrawal_row_of sample_defend_env w raw h) = decimal_digits (w_amount w)"
    by (simp add: withdrawal_row_of_def sample_defend_env_def)
  ultimately have "decimal_digits (w_amount w) = decimal_digits 1199"
    by (auto simp: sample_reshielded_def sample_state sample_defend_row_def withdrawal_row_of_def sample_defend_env_def)
  then have "w_amount w = 1199" by (metis digits_value_decimal)
  with found run show ?thesis
    by (auto simp: sample_reshielded_def)
qed

end
