(* ===== verification/Swap_Facts.thy ===== *)
theory Swap_Facts
  imports Swaps Defend_Facts
begin

text \<open>
  What the actions of a swap guarantee. Funding, claiming and refunding write their journal row
  before the transaction leaves the daemon, at most one for a swap, kind and output; a claim or a
  refund spends exactly the requested output, by the branch of the contract the daemon owns, to a
  fresh address of the wallet; and a swap identifier is bound to one contract.
\<close>

section \<open>Frames\<close>

lemma view_swap_action_frame: "evolves frame (view_swap_action E c)"
  unfolding view_swap_action_def by (intro frame_intros)

lemma observed_frame: "evolves frame (observed_swap_outputs E sw)"
  unfolding observed_swap_outputs_def history_step_def by (intro frame_intros)

lemma view_swap_frame: "evolves frame (view_swap E sw)"
  unfolding view_swap_def
  by (intro frame_intros frame_swap_reads view_swap_action_frame observed_frame)

lemma watch_swap_frame: "evolves frame (watch_swap E sw)"
  unfolding watch_swap_def by (intro frame_intros)

lemma find_swap_output_frame: "evolves frame (find_swap_output E sw oid cs)"
  unfolding find_swap_output_def output_page_step_def by (intro frame_intros)

lemma session_keys_frame: "evolves frame (session_keys E sid)"
  unfolding session_keys_def master_seed_def by (intro frame_intros frame_swap_reads)

lemma sign_swap_spend_frame: "evolves frame (sign_swap_spend E ctx cs kind txn contract keys secret)"
  unfolding sign_swap_spend_def by (intro frame_intros)

section \<open>Reading the tables\<close>

lemma swap_get_ok:
  assumes "swap_get E sid s = (Ok found, t)"
  shows "case swap_tab.lookup sid (t_swaps (tables s)) of None \<Rightarrow> found = None
    | Some row \<Rightarrow> \<exists>sw. scan_swap E row = Inr sw \<and> found = Some sw"
  using assms unfolding swap_get_def swap_tab.lookup_def
  by (auto simp: run_iffs query_row_def split: option.splits sum.splits)

lemma swap_action_get_ok:
  assumes "swap_action_get E sid kind outp s = (Ok found, t)"
  shows "case action_tab.lookup (sid, kind, outp) (t_actions (tables s)) of None \<Rightarrow> found = None
    | Some row \<Rightarrow> \<exists>c. scan_swap_action E row = Inr c \<and> found = Some c"
  using assms unfolding swap_action_get_def action_tab.lookup_def
  by (auto simp: run_iffs query_row_def split: option.splits sum.splits)

lemma swap_key_get_ok:
  assumes "swap_key_get E sid s = (Ok found, t)"
  shows "case key_tab.lookup sid (t_swap_keys (tables s)) of None \<Rightarrow> found = None
    | Some row \<Rightarrow> \<exists>k. scan_swap_key E row = Inr k \<and> found = Some k"
  using assms unfolding swap_key_get_def key_tab.lookup_def
  by (auto simp: run_iffs query_row_def split: option.splits sum.splits)

text \<open>What every view of an action shows of it.\<close>

definition shows_action :: "('x, 'z) env_scheme \<Rightarrow> swap_action \<Rightarrow> swap_action_view \<Rightarrow> bool" where
  "shows_action E c v \<longleftrightarrow> xv_action v = c_action c \<and> xv_kind v = c_kind c \<and> xv_output v = c_output c \<and>
     xv_txn v = id_string E (txn_id E (c_txn c)) \<and> xv_destination v = qaddr_string E (c_destination c) \<and>
     am_atomic (xv_amount v) = cur_exact E (c_amount c) \<and> am_atomic (xv_fee v) = cur_exact E (c_fee c)"

lemma shows_action_intros:
  "shows_action E c (queued_action E unt c)"
  "shows_action E c v \<Longrightarrow> shows_action E c (v\<lparr>xv_status := st, xv_confirmations := n, xv_height := h, xv_block := b, xv_error := e\<rparr>)"
  "shows_action E c v \<Longrightarrow> shows_action E c (v\<lparr>xv_status := st\<rparr>)"
  "shows_action E c v \<Longrightarrow> shows_action E c (v\<lparr>xv_status := st, xv_error := e\<rparr>)"
  by (simp_all add: shows_action_def queued_action_def amount_of_def)

lemma view_swap_action_ok: "oks (shows_action E c) (view_swap_action E c)"
  unfolding view_swap_action_def by (intro oks_intros) (simp_all add: shows_action_intros)

section \<open>The journal is written first\<close>

text \<open>The states after the row was inserted.\<close>

definition acted :: "('x, 'z) env_scheme \<Rightarrow> swap_action \<Rightarrow> 'x sys \<Rightarrow> 'x sys \<Rightarrow> bool" where
  "acted E c s t \<longleftrightarrow> (\<exists>raw h e. encode_txn E (c_txn c) = Inr raw \<and> sql_uint64 (ci_height (c_basis c)) = Inr h \<and>
     action_constraints (t_swaps (tables s)) (t_actions (tables s)) (action_row_of E c raw h) \<and>
     frame (s\<lparr>tables := (tables s)\<lparr>t_actions := t_actions (tables s) @ [(action_row_of E c raw h)\<lparr>cr_error := e\<rparr>]\<rparr>\<rparr>) t)"

lemma acted_frame: "acted E c s t \<Longrightarrow> frame t u \<Longrightarrow> acted E c s u"
  unfolding acted_def by (meson frame.le_trans)

lemma frame_acted: "frame s t \<Longrightarrow> acted E c t u \<Longrightarrow> acted E c s u"
  by (auto simp: acted_def frame_def)

lemma add_swap_action_cases:
  assumes "add_swap_action E c s = (r, t)"
  shows "(\<exists>e. r = Err e) \<and> frame s t \<or> r = Ok () \<and> acted E c s t"
proof -
  obtain f x where f: "db_fault E (world s) = (f, x)" by fastforce
  show ?thesis
    using assms f
    by (cases "encode_txn E (c_txn c)"; cases "sql_uint64 (ci_height (c_basis c))"; cases f)
      (auto simp: add_swap_action_def statement_def ext_err_def ext_def bnd_def Let_def frame_def
        guard_err_def acted_def action_row_of_def split: if_splits)
qed

lemma update_actions_at_most:
  "evolves (at_most (\<lambda>s. s\<lparr>tables := (tables s)\<lparr>t_actions :=
      update_where (\<lambda>r. cr_action r = aid) f (t_actions (tables s))\<rparr>\<rparr>)) (update_actions E aid f)"
  unfolding update_actions_def
  by (intro at_most_after at_most_do frame_intros) (simp_all add: framed_def frame_def)

lemma update_fresh_action:
  assumes upd: "update_swap_action E (c_action c) (c_basis c) (c_txn c) msg s' = (r, t)" and j: "acted E c s s'"
  shows "acted E c s t"
proof -
  from j obtain raw h e where raw: "encode_txn E (c_txn c) = Inr raw" and h: "sql_uint64 (ci_height (c_basis c)) = Inr h"
    and adm: "action_constraints (t_swaps (tables s)) (t_actions (tables s)) (action_row_of E c raw h)"
    and fr: "frame (s\<lparr>tables := (tables s)\<lparr>t_actions := t_actions (tables s) @
       [(action_row_of E c raw h)\<lparr>cr_error := e\<rparr>]\<rparr>\<rparr>) s'"
    unfolding acted_def by blast
  let ?row = "action_row_of E c raw h"
  let ?f = "\<lambda>r. r\<lparr>cr_blob := raw, cr_basis_height := h, cr_basis_id := ci_id (c_basis c), cr_error := msg\<rparr>"
  have key: "cr_action ?row = c_action c" by (simp add: action_row_of_def)
  have "t_actions (tables s') = t_actions (tables s) @ [?row\<lparr>cr_error := e\<rparr>]"
    using fr by (simp add: frame_def)
  with action_ids.update_inserted [OF adm, of "?row\<lparr>cr_error := e\<rparr>" ?f] key
  have rows: "update_where (\<lambda>r. cr_action r = c_action c) ?f (t_actions (tables s'))
     = t_actions (tables s) @ [?row\<lparr>cr_error := msg\<rparr>]"
    by (simp add: action_row_of_def)
  from upd raw h have "update_actions E (c_action c) ?f s' = (r, t)"
    by (simp add: update_swap_action_def)
  with update_actions_at_most have "at_most (\<lambda>s. s\<lparr>tables := (tables s)\<lparr>t_actions :=
      update_where (\<lambda>r. cr_action r = c_action c) ?f (t_actions (tables s))\<rparr>\<rparr>) s' t"
    by (rule evolvesD)
  then have "\<exists>e. frame (s\<lparr>tables := (tables s)\<lparr>t_actions := t_actions (tables s) @ [?row\<lparr>cr_error := e\<rparr>]\<rparr>\<rparr>) t"
    unfolding at_most_def
  proof
    assume "frame s' t"
    with fr show ?thesis by (blast intro: frame.le_trans)
  next
    assume "frame (s'\<lparr>tables := (tables s')\<lparr>t_actions :=
      update_where (\<lambda>r. cr_action r = c_action c) ?f (t_actions (tables s'))\<rparr>\<rparr>) t"
    then show ?thesis unfolding rows using fr by (intro exI [of _ msg]) (simp add: frame_def)
  qed
  with raw h adm show ?thesis unfolding acted_def by blast
qed

lemma submit_action_run:
  assumes "submit_swap_action E c s' = (Ok c', t)" and "acted E c s s'"
  shows "\<exists>u msg. acted E c s u \<and> t = u\<lparr>wake := True\<rparr> \<and> c' = c\<lparr>c_error := msg\<rparr>"
proof -
  from assms(1) obtain failure s1 r s2 where sub: "submit E (c_basis c) (c_txn c) s' = (Ok failure, s1)"
    and c': "c' = (case failure of None \<Rightarrow> c | Some msg \<Rightarrow> c\<lparr>c_error := msg\<rparr>)"
    and upd: "attempt (update_swap_action E (c_action c') (c_basis c') (c_txn c') (c_error c')) s1 = (Ok r, s2)"
    and t: "t = s2\<lparr>wake := True\<rparr>"
    by (auto simp: submit_swap_action_def bnd_Ok_iff wake_rebroadcast_def Let_def)
  have "acted E c s s1" using assms(2) evolvesD [OF submit_frame sub] by (rule acted_frame)
  moreover have eq: "c_action c' = c_action c" "c_basis c' = c_basis c" "c_txn c' = c_txn c" "\<exists>msg. c' = c\<lparr>c_error := msg\<rparr>"
    unfolding c' by (auto split: option.split intro: exI [of _ "c_error c"])
  moreover obtain r' where "update_swap_action E (c_action c) (c_basis c) (c_txn c) (c_error c') s1 = (r', s2)"
    using attempt_run [OF upd] eq by auto
  ultimately show ?thesis using t update_fresh_action by blast
qed

lemma journal_action_run:
  assumes "journal_swap_action E c s = (Ok (v, b), t)"
  obtains u where "b" and "acted E c s u" and "frame (u\<lparr>wake := True\<rparr>) t" and "shows_action E c v"
proof -
  from assms obtain s1 c' s2 where add: "add_swap_action E c s = (Ok (), s1)"
    and sub: "submit_swap_action E c s1 = (Ok c', s2)" and view: "view_swap_action E c' s2 = (Ok v, t)" and b: "b"
    by (auto simp: journal_swap_action_def bnd_Ok_iff)
  from add_swap_action_cases [OF add] have "acted E c s s1" by simp
  from submit_action_run [OF sub this] obtain u msg where u: "acted E c s u" "s2 = u\<lparr>wake := True\<rparr>"
    and c': "c' = c\<lparr>c_error := msg\<rparr>" by blast
  have "shows_action E c v" using oksD [OF view_swap_action_ok view] c' by (simp add: shows_action_def)
  with b u evolvesD [OF view_swap_action_frame view] show thesis by (intro that) simp_all
qed

lemma acted_row:
  assumes "acted E c s t"
  obtains row raw where "t_actions (tables t) = t_actions (tables s) @ [row]"
    and "encode_txn E (c_txn c) = Inr raw" and "cr_blob row = raw"
    and "action_tab.lookup (c_swap c, c_kind c, c_output c) (t_actions (tables t)) = Some row"
    and "action_identity row = ((c_action c, c_swap c, c_kind c, c_output c), qaddr_string E (c_destination c),
       cur_exact E (c_amount c), cur_exact E (c_fee c), unix_seconds (c_created c))"
    and "tables t = (tables s)\<lparr>t_actions := t_actions (tables t)\<rparr>" and "mst_seed t = mst_seed s"
proof -
  from assms obtain raw h e where raw: "encode_txn E (c_txn c) = Inr raw"
    and adm: "action_constraints (t_swaps (tables s)) (t_actions (tables s)) (action_row_of E c raw h)"
    and fr: "frame (s\<lparr>tables := (tables s)\<lparr>t_actions := t_actions (tables s) @
       [(action_row_of E c raw h)\<lparr>cr_error := e\<rparr>]\<rparr>\<rparr>) t"
    unfolding acted_def by blast
  let ?row = "(action_row_of E c raw h)\<lparr>cr_error := e\<rparr>"
  have key: "action_key ?row = (c_swap c, c_kind c, c_output c)" by (simp add: action_row_of_def action_key_def)
  have "action_constraints (t_swaps (tables s)) (t_actions (tables s)) ?row"
    using adm by (simp add: action_constraints_def action_checks_def action_key_def)
  from action_tab.lookup_inserted [OF this] key
  have look: "action_tab.lookup (c_swap c, c_kind c, c_output c) (t_actions (tables s) @ [?row]) = Some ?row" by simp
  show thesis
    by (rule that [of ?row raw]) (use fr raw look in \<open>simp_all add: frame_def action_row_of_def action_identity_def\<close>)
qed

section \<open>Spending an output of the contract\<close>

text \<open>The output is not spent in the pool, and the wallet manager lists it, at the chain state's tip,
  among the unspent outputs of the contract's address.\<close>

definition unspent_at :: "('x, 'z) env_scheme \<Rightarrow> swap \<Rightarrow> cstate \<Rightarrow> siacoin_element \<Rightarrow> bool" where
  "unspent_at E sw cs parent \<longleftrightarrow>
     (\<exists>k w pg. fst (wm_address_outputs E (s_address sw) k page_size w) = Inr (pg, cs_index cs) \<and> parent \<in> set pg) \<and>
     (\<exists>w. se_id parent \<notin> set (pool_spent (fst (cm_pool E w))))"

lemma find_swap_output_ok:
  assumes "find_swap_output E sw oid cs s = (Ok parent, t)"
  shows "se_id parent = oid" and "unspent_at E sw cs parent"
proof -
  from assms obtain s1 where pool: "oid \<notin> set (pool_spent (fst (cm_pool E (world s))))"
    and loop: "loop (output_page_step E sw oid cs) 0 s1 = (Ok parent, t)"
    unfolding find_swap_output_def by (elim bnd_OkE) (auto simp: ext_Ok_iff guard_err_Ok_iff)
  let ?Q = "\<lambda>parent. se_id parent = oid \<and>
    (\<exists>k w pg. fst (wm_address_outputs E (s_address sw) k page_size w) = Inr (pg, cs_index cs) \<and> parent \<in> set pg)"
  have "case r of Inl a' \<Rightarrow> True | Inr parent \<Rightarrow> ?Q parent"
    if step: "output_page_step E sw oid cs k s = (Ok r, u)" for k s r and u :: "'a sys"
  proof (cases r)
    case (Inr p)
    with step obtain pg w where call: "wm_address_outputs E (s_address sw) k page_size (world s) = (Inr (pg, cs_index cs), w)"
      and find: "List.find (\<lambda>output. se_id output = oid) pg = Some p"
      unfolding output_page_step_def
      by (elim bnd_OkE) (auto simp: ext_sum_Ok_iff bnd_Ok_iff guard_err_Ok_iff split: option.splits if_splits)
    from find have "p \<in> set pg" "se_id p = oid" by (auto simp: find_Some_iff)
    moreover have "fst (wm_address_outputs E (s_address sw) k page_size (world s)) = Inr (pg, cs_index cs)"
      using call by simp
    ultimately have "?Q p" by blast
    with Inr show ?thesis by simp
  qed simp
  then have "?Q parent"
    by (intro loop_yields [where I = "\<lambda>_ _. True" and Q = "\<lambda>p _. ?Q p", OF _ _ loop]) auto
  with pool show "se_id parent = oid" and "unspent_at E sw cs parent"
    unfolding unspent_at_def by blast+
qed

text \<open>The transaction before it is signed.\<close>

definition spend_draft :: "('x, 'z) env_scheme \<Rightarrow> siacoin_element \<Rightarrow> address \<Rightarrow> currency \<Rightarrow> currency \<Rightarrow> v2txn" where
  "spend_draft E parent addr amnt fee =
     \<lparr>tx_inputs = [\<lparr>in_parent = parent, in_satisfied = zero_satisfied\<rparr>],
      tx_outputs = [\<lparr>so_value = amnt, so_address = addr\<rparr>], tx_fee = fee, tx_arbitrary = transfer_data E, tx_rest = []\<rparr>"

definition branch_signed :: "('x, 'z) env_scheme \<Rightarrow> ctx \<Rightarrow> cstate \<Rightarrow> string \<Rightarrow> v2txn \<Rightarrow> swap_contract \<Rightarrow> private_keys \<Rightarrow> bytes \<Rightarrow>
    v2txn \<Rightarrow> bool" where
  "branch_signed E ctx cs kind draft contract keys secret txn \<longleftrightarrow>
     (\<exists>w. fst (if kind = ''claim'' then sign_claim E ctx cs draft contract keys secret w
       else sign_refund E ctx cs draft contract keys w) = Inr txn)"

lemma sign_swap_spend_ok:
  assumes "sign_swap_spend E ctx cs kind draft contract keys secret s = (Ok txn, t)"
  shows "branch_signed E ctx cs kind draft contract keys secret txn"
proof -
  let ?call = "if kind = ''claim'' then sign_claim E ctx cs draft contract keys secret
       else sign_refund E ctx cs draft contract keys"
  from assms have "ext_sum ?call s = (Ok txn, t)" by (simp add: sign_swap_spend_def split: if_splits)
  then have "fst (?call (world s)) = Inr txn" by (auto simp: ext_sum_Ok_iff)
  then show ?thesis unfolding branch_signed_def by (intro exI [of _ "world s"]) (simp split: if_splits)
qed

text \<open>What a claim or a refund of the swap builds from the state \<open>s\<close>.\<close>

definition spends_contract :: "('x, 'z) env_scheme \<Rightarrow> ctx \<Rightarrow> cstate \<Rightarrow> string \<Rightarrow> swap \<Rightarrow> private_keys \<Rightarrow> bytes \<Rightarrow> 'x sys \<Rightarrow>
    siacoin_element \<Rightarrow> addr_rec \<Rightarrow> currency \<Rightarrow> currency \<Rightarrow> v2txn \<Rightarrow> bool" where
  "spends_contract E ctx cs kind sw keys secret s parent a amnt fee txn \<longleftrightarrow>
     unspent_at E sw cs parent \<and> se_maturity parent \<le> ci_height (cs_index cs) + 1 \<and>
     qday_value E cs parent (ci_height (cs_index cs) + 1) = amnt + fee \<and> 0 < amnt \<and>
     issued E s [] ''change'' a \<and>
     branch_signed E ctx cs kind (spend_draft E parent (a_address a) amnt fee) (swap_contract_of sw) keys secret txn \<and>
     validate_txn E cs txn = None"

lemma build_swap_spend_run:
  assumes laws: "currency_laws E" and fee: "fee < 2 ^ 128"
    and run: "build_swap_spend E ctx cs kind sw keys secret oid fee s = (Ok (txn, destination, rest), t)"
  obtains parent a where "spends_contract E ctx cs kind sw keys secret s parent a rest fee txn"
    and "se_id parent = oid" and "destination = a_address a"
    and "same_journals s t" and "t_swaps (tables t) = t_swaps (tables s)"
proof -
  let ?h = "ci_height (cs_index cs) + 1"
  from run obtain parent s1 a s2 s3 where find: "find_swap_output E sw oid cs s = (Ok parent, s1)"
    and mature: "\<not> se_maturity parent > ?h" and covers: "\<not> cur_cmp E (qday_value E cs parent ?h) fee \<le> 0"
    and na: "new_address E [] ''change'' s1 = (Ok a, s2)" and dest: "destination = a_address a"
    and sub: "cur_sub E (qday_value E cs parent ?h) fee = Some rest"
    and sign: "sign_swap_spend E ctx cs kind (spend_draft E parent (a_address a) rest fee) (swap_contract_of sw) keys secret s2
      = (Ok txn, s3)"
    and valid: "validate_txn E cs txn = None" and t: "frame s3 t"
    unfolding build_swap_spend_def Let_def spend_draft_def
    by (elim bnd_OkE) (auto simp: run_iffs frame_def)
  have v: "qday_value E cs parent ?h < 2 ^ 128" using laws by (simp add: currency_laws_def)
  note cmp = currency_lawsD [OF laws v fee]
  have "fee < qday_value E cs parent ?h" using covers cmp(4,5) by (metis linorder_neqE_nat order.refl order.strict_implies_order)
  with sub cmp(2) have rest: "qday_value E cs parent ?h = rest + fee" "0 < rest" by (auto split: if_splits)
  have f1: "frame s s1" using find_swap_output_frame find by (rule evolvesD)
  have f3: "frame s2 s3" using sign_swap_spend_frame sign by (rule evolvesD)
  have iss: "issued E s [] ''change'' a"
    using new_address_ok [OF na] f1 by (simp add: issued_def frame_def)
  have "same_journals s1 s2" and "t_swaps (tables s2) = t_swaps (tables s1)"
    using new_address_cases [OF na] by (auto simp: same_journals_def frame_def with_address_def)
  then have keep: "same_journals s t" "t_swaps (tables t) = t_swaps (tables s)"
    using f1 f3 t by (auto simp: same_journals_def frame_def)
  have "spends_contract E ctx cs kind sw keys secret s parent a rest fee txn"
    unfolding spends_contract_def
    using find_swap_output_ok(2) [OF find] mature rest iss sign_swap_spend_ok [OF sign] valid by (simp add: not_less)
  with find_swap_output_ok(1) [OF find] dest keep show thesis by (intro that)
qed

lemma session_keys_ok:
  assumes "session_keys E sid s = (Ok keys, t)"
  shows "\<exists>mst. mst_seed s = Some mst \<and> derive_swap_keys E mst sid = Inr keys"
    and "case key_tab.lookup sid (t_swap_keys (tables s)) of None \<Rightarrow> pk_public keys = session_public None
      | Some row \<Rightarrow> \<exists>k. scan_swap_key E row = Inr k \<and> pk_public keys = k_public k"
proof -
  from assms obtain mst u found where mst: "master_seed s = (Ok mst, s)" and keys: "derive_swap_keys E mst sid = Inr keys"
    and get: "swap_key_get E sid s = (Ok found, u)" and same: "pk_public keys = session_public found"
    unfolding session_keys_def master_seed_def
    by (elim bnd_OkE) (auto simp: lift_sum_Ok_iff guard_err_Ok_iff bnd_Ok_iff split: option.splits)
  show "\<exists>mst. mst_seed s = Some mst \<and> derive_swap_keys E mst sid = Inr keys"
    using mst keys by (auto simp: master_seed_def bnd_Ok_iff split: option.splits)
  show "case key_tab.lookup sid (t_swap_keys (tables s)) of None \<Rightarrow> pk_public keys = session_public None
      | Some row \<Rightarrow> \<exists>k. scan_swap_key E row = Inr k \<and> pk_public keys = k_public k"
    using swap_key_get_ok [OF get] same by (auto simp: session_public_def split: option.splits)
qed

lemma request_secret_ok:
  assumes "request_secret kind rq = Inr secret"
  shows "kind = ''claim'' \<Longrightarrow> length secret = 32 \<and> sq_secret rq = hex_encode secret"
    and "kind \<noteq> ''claim'' \<Longrightarrow> sq_secret rq = []"
  using assms hex_decode_lower by (auto simp: request_secret_def parse_hash_def split: if_splits option.splits)

text \<open>A claim or refund that is carried out, taken apart.\<close>

lemma spend_swap_new:
  assumes "spend_swap E ctx sid kind rq s = (Ok (v, True), t)"
  obtains oid fee secret row sw keys cs s1 txn destination rest s2 c u where
    "parse_output_id E (trim_space (sq_output rq)) = Some oid" and "default_fee E (sq_fee rq) = Inr fee"
    and "request_secret kind rq = Inr secret"
    and "swap_tab.lookup sid (t_swaps (tables s)) = Some row" and "scan_swap E row = Inr sw"
    and "kind = ''claim'' \<longrightarrow> s_role sw = ''recipient''" and "kind = ''refund'' \<longrightarrow> s_role sw = ''refund''"
    and "kind = ''refund'' \<longrightarrow> s_refund_height sw \<le> ci_height (cs_index cs)"
    and "action_tab.lookup (sid, kind, output_id_string E oid) (t_actions (tables s)) = None"
    and "\<exists>u. frame s u \<and> fst (session_keys E sid u) = Ok keys" and "frame s s1"
    and "build_swap_spend E ctx cs kind sw keys secret oid fee s1 = (Ok (txn, destination, rest), s2)"
    and "c_swap c = sid" "c_kind c = kind" "c_output c = output_id_string E oid" "c_txn c = txn" "c_basis c = cs_index cs"
      "c_destination c = destination" "c_amount c = rest" "c_fee c = fee"
    and "acted E c s2 u" and "frame (u\<lparr>wake := True\<rparr>) t" and "shows_action E c v"
proof -
  from assms obtain oid fee secret sw row s0 s1 existing where
    oid: "parse_output_id E (trim_space (sq_output rq)) = Some oid" and fee: "default_fee E (sq_fee rq) = Inr fee"
    and secret: "request_secret kind rq = Inr secret"
    and row: "swap_tab.lookup sid (t_swaps (tables s)) = Some row" "scan_swap E row = Inr sw"
    and role: "kind = ''claim'' \<longrightarrow> s_role sw = ''recipient''" "kind = ''refund'' \<longrightarrow> s_role sw = ''refund''"
    and f0: "frame s s0" and get: "swap_action_get E sid kind (output_id_string E oid) s0 = (Ok existing, s1)"
    and none: "existing = None" and new: "new_spend E ctx sid kind sw secret oid fee s1 = (Ok (v, True), t)"
    unfolding spend_swap_def
  proof (elim bnd_OkE, goal_cases)
    case (1 oid s1 fee s2 secret s3 found s4)
    from 1(6) obtain sw where found: "found = Some sw" by (cases found) auto
    obtain row where row: "swap_tab.lookup sid (t_swaps (tables s)) = Some row" "scan_swap E row = Inr sw"
      using swap_get_ok [OF 1(5)] 1(2,3,4) found by (auto simp: lift_sum_Ok_iff split: option.splits)
    have fr: "frame s s4" using evolvesD [OF frame_swap_reads(2) 1(5)] 1(2,3,4) by (auto simp: lift_sum_Ok_iff split: option.splits)
    from 1(6) found obtain existing s5 where role: "kind = ''claim'' \<longrightarrow> s_role sw = ''recipient''" "kind = ''refund'' \<longrightarrow> s_role sw = ''refund''"
      and get: "swap_action_get E sid kind (output_id_string E oid) s4 = (Ok existing, s5)"
      and rest: "(case existing of
           Some c \<Rightarrow>
             bnd (guard_err (c_fee c \<noteq> fee \<or> kind = ''claim'' \<and> stored_claim_secret (c_txn c) \<noteq> sq_secret rq) (Swp BoundAction)) (\<lambda>_.
             bnd (view_swap_action E c) (\<lambda>view. ret (view, False)))
         | None \<Rightarrow> new_spend E ctx sid kind sw secret oid fee) s5 = (Ok (v, True), t)"
      by (auto simp only: option.case bnd_Ok_iff guard_err_Ok_iff)
    have "existing = None" using rest by (cases existing) (auto simp: bnd_Ok_iff)
    with rest role get fr row 1(2,3,4) show ?case by (intro 1(1)) (auto simp: lift_sum_Ok_iff split: option.splits)
  qed
  have f1: "frame s s1" using f0 evolvesD [OF frame_swap_reads(4) get] by (rule frame.le_trans)
  have look: "action_tab.lookup (sid, kind, output_id_string E oid) (t_actions (tables s)) = None"
    using swap_action_get_ok [OF get] none f0 by (auto simp: frame_def split: option.splits)
  from new obtain keys s2 cs s3 txn destination amnt s4 tm s5 where
    keys: "session_keys E sid s1 = (Ok keys, s2)" and cs: "synced_state E s2 = (Ok cs, s3)"
    and late: "kind = ''refund'' \<longrightarrow> s_refund_height sw \<le> ci_height (cs_index cs)"
    and build: "build_swap_spend E ctx cs kind sw keys secret oid fee s3 = (Ok (txn, destination, amnt), s4)"
    and tm: "ext (now E) s4 = (Ok tm, s5)"
    and jour: "journal_swap_action E (spend_action E sid kind oid cs txn destination amnt fee tm) s5 = (Ok (v, True), t)"
    unfolding new_spend_def
    by (elim bnd_OkE) (auto simp: bnd_Ok_iff guard_err_Ok_iff not_less split: prod.splits simp del: ext_Ok_iff)
  have f3: "frame s s3"
    using f1 evolvesD [OF session_keys_frame keys] evolvesD [OF synced_state_frame cs] by (meson frame.le_trans)
  from journal_action_run [OF jour] obtain u where u: "acted E (spend_action E sid kind oid cs txn destination amnt fee tm) s5 u"
    "frame (u\<lparr>wake := True\<rparr>) t" "shows_action E (spend_action E sid kind oid cs txn destination amnt fee tm) v" by blast
  have "\<exists>u. frame s u \<and> fst (session_keys E sid u) = Ok keys" using f1 keys by (metis fst_conv)
  note built = this f3 build
  note act = frame_acted [OF evolvesD [OF frame_ext tm] u(1)]
  show thesis
    by (rule that [OF oid fee secret row role late look built _ _ _ _ _ _ _ _ act u(2,3)]) (simp_all add: spend_action_def)
qed

text \<open>
  C16. A claim or a refund that is carried out spends the requested output of the contract by the branch
  the daemon owns. The journal gains exactly one row, for this swap, kind and output. Its transaction
  is the signer's answer for that branch, with the session keys of the swap (and, for a claim, the
  secret of the request), to a draft that spends one unspent, mature output of the contract to a
  fresh address of the wallet and conserves its value; only the recipient claims, only the refund
  owner refunds, and no refund is built before its height.
\<close>

theorem swap_spend_safe:
  assumes "currency_laws E" and "codec_laws E" and "kind \<in> {''claim'', ''refund''}"
    and "spend_swap E ctx sid kind rq s = (Ok (v, True), t)"
  shows "\<exists>sw cs keys secret s1 parent a amnt fee txn row.
    Option.bind (swap_tab.lookup sid (t_swaps (tables s))) (\<lambda>row. case scan_swap E row of Inl _ \<Rightarrow> None | Inr x \<Rightarrow> Some x) = Some sw \<and>
    s_role sw = (if kind = ''claim'' then ''recipient'' else ''refund'') \<and>
    (if kind = ''claim'' then sq_secret rq = hex_encode secret \<and> length secret = 32
     else s_refund_height sw \<le> ci_height (cs_index cs)) \<and>
    map_option (\<lambda>mst. derive_swap_keys E mst sid) (mst_seed s) = Some (Inr keys) \<and>
    parse_output_id E (trim_space (sq_output rq)) = Some (se_id parent) \<and> default_fee E (sq_fee rq) = Inr fee \<and>
    frame s s1 \<and> spends_contract E ctx cs kind sw keys secret s1 parent a amnt fee txn \<and>
    t_actions (tables t) = t_actions (tables s) @ [row] \<and> decode_txn E (cr_blob row) = Inr txn \<and>
    action_key row = (sid, kind, output_id_string E (se_id parent)) \<and> cr_destination row = qaddr_string E (a_address a) \<and>
    cr_amount row = cur_exact E amnt \<and> cr_fee row = cur_exact E fee"
proof -
  obtain oid fee secret row sw keys cs s1 txn destination rest s2 c u where
    oid: "parse_output_id E (trim_space (sq_output rq)) = Some oid" and fee: "default_fee E (sq_fee rq) = Inr fee"
    and secret: "request_secret kind rq = Inr secret"
    and row: "swap_tab.lookup sid (t_swaps (tables s)) = Some row" "scan_swap E row = Inr sw"
    and role: "kind = ''claim'' \<longrightarrow> s_role sw = ''recipient''" "kind = ''refund'' \<longrightarrow> s_role sw = ''refund''"
    and late: "kind = ''refund'' \<longrightarrow> s_refund_height sw \<le> ci_height (cs_index cs)"
    and keys: "\<exists>u. frame s u \<and> fst (session_keys E sid u) = Ok keys" and f1: "frame s s1"
    and build: "build_swap_spend E ctx cs kind sw keys secret oid fee s1 = (Ok (txn, destination, rest), s2)"
    and c: "c_swap c = sid" "c_kind c = kind" "c_output c = output_id_string E oid" "c_txn c = txn" "c_basis c = cs_index cs"
      "c_destination c = destination" "c_amount c = rest" "c_fee c = fee"
    and act: "acted E c s2 u" and t: "frame (u\<lparr>wake := True\<rparr>) t"
    by (rule spend_swap_new [OF assms(4)])
  from build_swap_spend_run [OF assms(1) default_fee_bound [OF assms(1) fee] build] obtain parent a where
    spends: "spends_contract E ctx cs kind sw keys secret s1 parent a rest fee txn" and p: "se_id parent = oid"
    and dest: "destination = a_address a" and keep: "same_journals s1 s2" by metis
  obtain new raw where new: "t_actions (tables u) = t_actions (tables s2) @ [new]"
    and raw: "encode_txn E txn = Inr raw" "cr_blob new = raw"
    and id: "action_identity new = ((c_action c, sid, kind, output_id_string E oid), qaddr_string E destination,
       cur_exact E rest, cur_exact E fee, unix_seconds (c_created c))"
    using acted_row [OF act] c by metis
  have "t_actions (tables t) = t_actions (tables s) @ [new]"
    using new t keep f1 by (simp add: frame_def same_journals_def)
  moreover have "decode_txn E (cr_blob new) = Inr txn" using codec_lawsD(2) [OF assms(2) raw(1)] raw(2) by simp
  moreover have "action_key new = (sid, kind, output_id_string E (se_id parent)) \<and> cr_destination new = qaddr_string E (a_address a) \<and>
      cr_amount new = cur_exact E rest \<and> cr_fee new = cur_exact E fee"
    using id p dest by (simp add: action_identity_def action_key_def)
  moreover have "map_option (\<lambda>mst. derive_swap_keys E mst sid) (mst_seed s) = Some (Inr keys)"
  proof -
    from keys obtain x y where "frame s x" "session_keys E sid x = (Ok keys, y)" by (metis prod.collapse)
    with session_keys_ok(1) [OF this(2)] show ?thesis by (auto simp: frame_def)
  qed
  moreover have "if kind = ''claim'' then sq_secret rq = hex_encode secret \<and> length secret = 32
     else s_refund_height sw \<le> ci_height (cs_index cs)"
    using late assms(3) request_secret_ok(1) [OF secret] by auto
  moreover have "s_role sw = (if kind = ''claim'' then ''recipient'' else ''refund'')"
    using role assms(3) by auto
  ultimately show ?thesis using row oid fee p f1 spends by fastforce
qed

section \<open>One action per swap, kind and output\<close>

lemma scan_action_ok:
  assumes "scan_swap_action E row = Inr c"
  shows "parse_qaddr E (cr_destination row) = Inr (c_destination c)"
    and "cur_parse E (cr_amount row) = Inr (c_amount c)" and "cur_parse E (cr_fee row) = Inr (c_fee c)"
    and "c_action c = cr_action row" and "c_swap c = cr_swap row" and "c_kind c = cr_kind row" and "c_output c = cr_output row"
  using assms by (auto simp: scan_swap_action_def split: sum.splits if_splits)

lemma action_stable: "stable (\<lambda>s. action_tab.lookup k (t_actions (tables s)) = Some row)"
  by (simp add: stable_def frame_def)

lemma action_found:
  "action_tab.lookup (sid, kind, outp) (t_actions (tables s)) = Some row \<Longrightarrow> swap_action_get E sid kind outp s \<noteq> (Ok None, u)"
  using swap_action_get_ok [of E sid kind outp s None u] by auto

text \<open>A spend whose action is in the journal only reads, whatever it asks for.\<close>

lemma spend_swap_known:
  assumes known: "action_tab.lookup (sid, kind, outp) (t_actions (tables s)) = Some row"
    and oid: "map_option (output_id_string E) (parse_output_id E (trim_space (sq_output rq))) = Some outp"
    and run: "spend_swap E ctx sid kind rq s = (r, t)"
  shows "frame s t"
    and "\<And>v b. r = Ok (v, b) \<Longrightarrow> \<not> b \<and> (\<exists>c. scan_swap_action E row = Inr c \<and> shows_action E c v \<and>
      default_fee E (sq_fee rq) = Inr (c_fee c) \<and> (kind = ''claim'' \<longrightarrow> stored_claim_secret (c_txn c) = sq_secret rq))"
proof -
  let ?J = "\<lambda>s :: 'a sys. action_tab.lookup (sid, kind, outp) (t_actions (tables s)) = Some row"
  from oid obtain i where i: "parse_output_id E (trim_space (sq_output rq)) = Some i" "output_id_string E i = outp" by auto
  have "quiet ?J (spend_swap E ctx sid kind rq)"
    unfolding spend_swap_def i option.case bnd_ret
    apply (rule quiet_bnd [OF action_stable], intro frame_intros)+
    apply (rule quiet_bnd [OF action_stable], rule frame_swap_reads)
    apply (rule quiet_option, intro quiet_frame frame_intros)
    apply (rule quiet_bnd [OF action_stable], intro frame_intros)+
    apply (rule quiet_found [OF action_stable frame_swap_reads(4) action_found], assumption)
    apply (intro quiet_frame frame_intros view_swap_action_frame)
    done
  then show "frame s t" using known run by (rule quietD)
  fix v b assume r: "r = Ok (v, b)"
  from run [unfolded r] i obtain s1 existing s2 fee where fr: "frame s s1"
    and fee: "default_fee E (sq_fee rq) = Inr fee"
    and get: "swap_action_get E sid kind outp s1 = (Ok existing, s2)"
    and rest: "\<And>c. existing = Some c \<Longrightarrow> bnd (guard_err (c_fee c \<noteq> fee \<or> kind = ''claim'' \<and> stored_claim_secret (c_txn c) \<noteq> sq_secret rq) (Swp BoundAction)) (\<lambda>_.
             bnd (view_swap_action E c) (\<lambda>view. ret (view, False))) s2 = (Ok (v, b), t)"
    unfolding spend_swap_def
  proof (elim bnd_OkE, goal_cases)
    case (1 oid s1 fee s2 secret s3 found s4)
    then obtain sw where found: "found = Some sw" by (cases found) auto
    have st: "s3 = s" "oid = i" using 1(2-6) by (auto simp: lift_sum_Ok_iff)
    have fr: "frame s s4" using evolvesD [OF frame_swap_reads(2) 1(7)] st by simp
    from 1(8) found st i obtain existing s5 where "swap_action_get E sid kind outp s4 = (Ok existing, s5)"
      and "(case existing of
           Some c \<Rightarrow>
             bnd (guard_err (c_fee c \<noteq> fee \<or> kind = ''claim'' \<and> stored_claim_secret (c_txn c) \<noteq> sq_secret rq) (Swp BoundAction)) (\<lambda>_.
             bnd (view_swap_action E c) (\<lambda>view. ret (view, False)))
         | None \<Rightarrow> new_spend E ctx sid kind sw secret oid fee) s5 = (Ok (v, b), t)"
      by (auto simp only: option.case bnd_Ok_iff guard_err_Ok_iff)
    with fr 1(5) show ?case by (intro 1(1)) (auto simp: lift_sum_Ok_iff)
  qed
  have "action_tab.lookup (sid, kind, outp) (t_actions (tables s1)) = Some row" using known fr by (simp add: frame_def)
  with swap_action_get_ok [OF get] obtain c where c: "scan_swap_action E row = Inr c" "existing = Some c" by auto
  from rest [OF c(2)] obtain x where "c_fee c = fee" "kind = ''claim'' \<longrightarrow> stored_claim_secret (c_txn c) = sq_secret rq"
    and view: "view_swap_action E c x = (Ok v, t)" and "\<not> b"
    by (auto simp: bnd_Ok_iff guard_err_Ok_iff)
  with c fee oksD [OF view_swap_action_ok view]
  show "\<not> b \<and> (\<exists>c. scan_swap_action E row = Inr c \<and> shows_action E c v \<and>
      default_fee E (sq_fee rq) = Inr (c_fee c) \<and> (kind = ''claim'' \<longrightarrow> stored_claim_secret (c_txn c) = sq_secret rq))"
    by blast
qed

text \<open>The row of a journalled action is found at every later state, with the action's payment.\<close>

lemma acted_lasting:
  assumes "acted E c s u" and "frame (u\<lparr>wake := True\<rparr>) t" and "store_le t x"
  obtains row where "action_tab.lookup (c_swap c, c_kind c, c_output c) (t_actions (tables x)) = Some row"
    and "action_identity row = ((c_action c, c_swap c, c_kind c, c_output c), qaddr_string E (c_destination c),
       cur_exact E (c_amount c), cur_exact E (c_fee c), unix_seconds (c_created c))"
proof -
  obtain row where "action_tab.lookup (c_swap c, c_kind c, c_output c) (t_actions (tables u)) = Some row"
    and id: "action_identity row = ((c_action c, c_swap c, c_kind c, c_output c), qaddr_string E (c_destination c),
       cur_exact E (c_amount c), cur_exact E (c_fee c), unix_seconds (c_created c))"
    using acted_row [OF assms(1)] by metis
  then have "action_tab.lookup (c_swap c, c_kind c, c_output c) (t_actions (tables t)) = Some row"
    using assms(2) by (simp add: frame_def)
  moreover have "prefix (map action_identity (t_actions (tables t))) (map action_identity (t_actions (tables x)))"
    using assms(3) by (simp add: store_le_def tables_le_def)
  ultimately obtain row' where "action_tab.lookup (c_swap c, c_kind c, c_output c) (t_actions (tables x)) = Some row'"
    and "action_identity row' = action_identity row"
    using action_tab.lookup_lasting [of action_identity] by (force simp: action_identity_def action_key_def)
  with id show thesis by (intro that [of row']) simp_all
qed

lemma lasting_payment:
  assumes "codec_laws E" and "scan_swap_action E row = Inr c'"
    and "action_identity row = (key, qaddr_string E dest, cur_exact E amnt, cur_exact E fee, t)"
    and "amnt < 2 ^ 128" and "fee < 2 ^ 128"
  shows "c_destination c' = dest \<and> c_amount c' = amnt \<and> c_fee c' = fee"
  using scan_action_ok(1-3) [OF assms(2)] assms(3) codec_lawsD(1,4) [OF assms(1)] assms(4,5)
  by (simp add: action_identity_def)

text \<open>
  C17. An output of a contract is claimed or refunded once. After a claim or refund was carried out,
  every later request of the same kind for the same output, at any later state of the daemon, builds
  and stores nothing; when it succeeds it asks for the same fee and reports the same action: the same
  destination, amount and fee.
\<close>

theorem swap_spend_once:
  assumes "currency_laws E" and "codec_laws E"
    and "spend_swap E ctx sid kind rq s = (Ok (v, True), t)" and "store_le t u"
    and "parse_output_id E (trim_space (sq_output rq')) = parse_output_id E (trim_space (sq_output rq))"
    and "spend_swap E ctx' sid kind rq' u = (r, w)"
  shows "frame u w \<and> (\<forall>v' b. r = Ok (v', b) \<longrightarrow> \<not> b \<and> xv_action v' = xv_action v \<and>
      xv_destination v' = xv_destination v \<and> am_atomic (xv_amount v') = am_atomic (xv_amount v) \<and>
      am_atomic (xv_fee v') = am_atomic (xv_fee v) \<and> default_fee E (sq_fee rq') = default_fee E (sq_fee rq))"
proof -
  obtain oid fee cs sw keys secret s1 txn destination rest s2 c x where
    oid: "parse_output_id E (trim_space (sq_output rq)) = Some oid" and fee: "default_fee E (sq_fee rq) = Inr fee"
    and build: "build_swap_spend E ctx cs kind sw keys secret oid fee s1 = (Ok (txn, destination, rest), s2)"
    and c: "c_swap c = sid" "c_kind c = kind" "c_output c = output_id_string E oid" "c_amount c = rest" "c_fee c = fee"
    and act: "acted E c s2 x" "frame (x\<lparr>wake := True\<rparr>) t" and v: "shows_action E c v"
    using spend_swap_new [OF assms(3)] by metis
  have b: "fee < 2 ^ 128" using default_fee_bound [OF assms(1) fee] .
  have "rest < 2 ^ 128"
  proof -
    obtain parent where "qday_value E cs parent (ci_height (cs_index cs) + 1) = rest + fee"
      using build_swap_spend_run [OF assms(1) b build] unfolding spends_contract_def by metis
    moreover have "qday_value E cs parent (ci_height (cs_index cs) + 1) < 2 ^ 128"
      using assms(1) by (simp add: currency_laws_def)
    ultimately show ?thesis by simp
  qed
  moreover obtain row where look: "action_tab.lookup (sid, kind, output_id_string E oid) (t_actions (tables u)) = Some row"
    and id: "action_identity row = ((c_action c, c_swap c, c_kind c, c_output c), qaddr_string E (c_destination c),
       cur_exact E rest, cur_exact E fee, unix_seconds (c_created c))"
    using acted_lasting [OF act assms(4)] c by metis
  ultimately have same: "c_destination c' = c_destination c \<and> c_amount c' = rest \<and> c_fee c' = fee \<and> c_action c' = c_action c"
    if "scan_swap_action E row = Inr c'" for c'
    using lasting_payment [OF assms(2) that id _ b] scan_action_ok(4) [OF that] id by (simp add: action_identity_def)
  have "map_option (output_id_string E) (parse_output_id E (trim_space (sq_output rq'))) = Some (output_id_string E oid)"
    using assms(5) oid by simp
  note known = spend_swap_known [OF look this assms(6)]
  have "\<not> b \<and> xv_action v' = xv_action v \<and>
      xv_destination v' = xv_destination v \<and> am_atomic (xv_amount v') = am_atomic (xv_amount v) \<and>
      am_atomic (xv_fee v') = am_atomic (xv_fee v) \<and> default_fee E (sq_fee rq') = default_fee E (sq_fee rq)"
    if "r = Ok (v', b)" for v' b
    using known(2) [OF that] same fee v c by (auto simp: shows_action_def)
  with known(1) show ?thesis by blast
qed

section \<open>Funding\<close>

lemma fund_swap_new:
  assumes "fund_swap E ctx sid rq s = (Ok (v, True), t)"
  obtains amnt fee row sw mst cs s1 txn s2 c u where
    "cur_parse E (fr_amount rq) = Inr amnt" and "\<not> cur_is_zero E amnt" and "default_fee E (fr_fee rq) = Inr fee"
    and "swap_tab.lookup sid (t_swaps (tables s)) = Some row" and "scan_swap E row = Inr sw"
    and "fr_unit rq = cur_exact E (qday_units E cs (ci_height (cs_index cs)))"
    and "ci_height (cs_index cs) + 1 < s_refund_height sw"
    and "frame s s1" and "mst_seed s = Some mst"
    and "build_custody_transfer E ctx cs mst (s_address sw) amnt fee s1 = (Ok txn, s2)"
    and "c_swap c = sid" "c_kind c = ''fund''" "c_output c = []" "c_txn c = txn" "c_destination c = s_address sw"
      "c_amount c = amnt" "c_fee c = fee"
    and "acted E c s2 u" and "frame (u\<lparr>wake := True\<rparr>) t" and "shows_action E c v"
proof -
  from assms obtain amnt fee sw row s0 s1 where
    amnt: "parse_positive_currency E (fr_amount rq) ''amountAtomic'' = Inr amnt" and fee: "default_fee E (fr_fee rq) = Inr fee"
    and row: "swap_tab.lookup sid (t_swaps (tables s)) = Some row" "scan_swap E row = Inr sw"
    and f1: "frame s s1" and new: "new_funding E ctx sid sw amnt fee (fr_unit rq) s1 = (Ok (v, True), t)"
    unfolding fund_swap_def
  proof (elim bnd_OkE, goal_cases)
    case (1 amnt s1 fee s2 found s3)
    then obtain sw where found: "found = Some sw" by (cases found) auto
    have st: "s2 = s" using 1(2,3) by (auto simp: lift_sum_Ok_iff)
    obtain row where row: "swap_tab.lookup sid (t_swaps (tables s)) = Some row" "scan_swap E row = Inr sw"
      using swap_get_ok [OF 1(4)] st found by (auto split: option.splits)
    from 1(5) found obtain existing s4 where get: "swap_action_get E sid ''fund'' [] s3 = (Ok existing, s4)"
      and rest: "(case existing of
           Some c \<Rightarrow>
             bnd (guard_err (c_amount c \<noteq> amnt \<or> c_fee c \<noteq> fee \<or> c_destination c \<noteq> s_address sw) (Swp BoundFunding)) (\<lambda>_.
             bnd (view_swap_action E c) (\<lambda>view. ret (view, False)))
         | None \<Rightarrow> new_funding E ctx sid sw amnt fee (fr_unit rq)) s4 = (Ok (v, True), t)"
      by (auto simp only: option.case bnd_Ok_iff)
    have "existing = None" using rest by (cases existing) (auto simp: bnd_Ok_iff)
    moreover have "frame s s4"
      using evolvesD [OF frame_swap_reads(2) 1(4)] evolvesD [OF frame_swap_reads(4) get] st by (auto intro: frame.le_trans)
    ultimately show ?case using rest row 1(2,3) by (intro 1(1)) (auto simp: lift_sum_Ok_iff)
  qed
  from new obtain mst cs s2 txn s3 tm s4 where
    ready: "ready_state E s1 = (Ok (mst, cs), s2)" and early: "ci_height (cs_index cs) + 1 < s_refund_height sw"
    and unt: "check_unit E cs (fr_unit rq) s2 = (Ok (), s2)"
    and build: "build_custody_transfer E ctx cs mst (s_address sw) amnt fee s2 = (Ok txn, s3)"
    and tm: "ext (now E) s3 = (Ok tm, s4)"
    and jour: "journal_swap_action E (fund_action sid sw cs txn amnt fee tm) s4 = (Ok (v, True), t)"
    unfolding new_funding_def
    by (elim bnd_OkE) (auto simp: bnd_Ok_iff guard_err_Ok_iff check_unit_def not_le split: prod.splits simp del: ext_Ok_iff)
  have f2: "frame s s2" using f1 evolvesD [OF ready_state_frame ready] by (rule frame.le_trans)
  have mst: "mst_seed s = Some mst"
    using ready f1 by (auto simp: ready_state_def bnd_Ok_iff master_seed_def frame_def split: option.splits)
  have un: "fr_unit rq = cur_exact E (qday_units E cs (ci_height (cs_index cs)))"
    using unt by (simp add: check_unit_def guard_err_Ok_iff)
  from journal_action_run [OF jour] obtain u where u: "acted E (fund_action sid sw cs txn amnt fee tm) s4 u"
    "frame (u\<lparr>wake := True\<rparr>) t" "shows_action E (fund_action sid sw cs txn amnt fee tm) v" by blast
  note act = frame_acted [OF evolvesD [OF frame_ext tm] u(1)]
  show thesis
    by (rule that [OF parse_positive_ok [OF amnt] fee row un early f2 mst build _ _ _ _ _ _ _ act u(2,3)])
      (simp_all add: fund_action_def)
qed

lemma fund_swap_known:
  assumes known: "action_tab.lookup (sid, ''fund'', []) (t_actions (tables s)) = Some row"
    and run: "fund_swap E ctx sid rq s = (r, t)"
  shows "frame s t"
    and "\<And>v b. r = Ok (v, b) \<Longrightarrow> \<not> b \<and> (\<exists>c. scan_swap_action E row = Inr c \<and> shows_action E c v \<and>
      cur_parse E (fr_amount rq) = Inr (c_amount c) \<and> default_fee E (fr_fee rq) = Inr (c_fee c))"
proof -
  let ?J = "\<lambda>s :: 'a sys. action_tab.lookup (sid, ''fund'', []) (t_actions (tables s)) = Some row"
  have "quiet ?J (fund_swap E ctx sid rq)"
    unfolding fund_swap_def
    apply (rule quiet_bnd [OF action_stable], intro frame_intros)+
    apply (rule quiet_bnd [OF action_stable], rule frame_swap_reads)
    apply (rule quiet_option, intro quiet_frame frame_intros)
    apply (rule quiet_found [OF action_stable frame_swap_reads(4) action_found], assumption)
    apply (intro quiet_frame frame_intros view_swap_action_frame)
    done
  then show "frame s t" using known run by (rule quietD)
  fix v b assume r: "r = Ok (v, b)"
  from run [unfolded r] obtain s1 existing s2 amnt fee where fr: "frame s s1"
    and fee: "parse_positive_currency E (fr_amount rq) ''amountAtomic'' = Inr amnt" "default_fee E (fr_fee rq) = Inr fee"
    and get: "swap_action_get E sid ''fund'' [] s1 = (Ok existing, s2)"
    and rest: "\<And>c. existing = Some c \<Longrightarrow> c_amount c = amnt \<and> c_fee c = fee \<and> \<not> b \<and> (\<exists>x. view_swap_action E c x = (Ok v, t))"
    unfolding fund_swap_def
  proof (elim bnd_OkE, goal_cases)
    case (1 amnt s1 fee s2 found s3)
    then obtain sw where found: "found = Some sw" by (cases found) auto
    have st: "s2 = s" using 1(2,3) by (auto simp: lift_sum_Ok_iff)
    have fr: "frame s s3" using evolvesD [OF frame_swap_reads(2) 1(4)] st by simp
    from 1(5) found obtain existing s4 where "swap_action_get E sid ''fund'' [] s3 = (Ok existing, s4)"
      and "(case existing of
           Some c \<Rightarrow>
             bnd (guard_err (c_amount c \<noteq> amnt \<or> c_fee c \<noteq> fee \<or> c_destination c \<noteq> s_address sw) (Swp BoundFunding)) (\<lambda>_.
             bnd (view_swap_action E c) (\<lambda>view. ret (view, False)))
         | None \<Rightarrow> new_funding E ctx sid sw amnt fee (fr_unit rq)) s4 = (Ok (v, b), t)"
      by (auto simp only: option.case bnd_Ok_iff)
    with fr 1(2,3) show ?case by (intro 1(1)) (auto simp: lift_sum_Ok_iff bnd_Ok_iff guard_err_Ok_iff)
  qed
  have "action_tab.lookup (sid, ''fund'', []) (t_actions (tables s1)) = Some row" using known fr by (simp add: frame_def)
  with swap_action_get_ok [OF get] obtain c where c: "scan_swap_action E row = Inr c" "existing = Some c" by auto
  from rest [OF c(2)] obtain x where "c_fee c = fee" "c_amount c = amnt"
    and view: "view_swap_action E c x = (Ok v, t)" and "\<not> b" by blast
  with c fee parse_positive_ok(1) [OF fee(1)] oksD [OF view_swap_action_ok view]
  show "\<not> b \<and> (\<exists>c. scan_swap_action E row = Inr c \<and> shows_action E c v \<and>
      cur_parse E (fr_amount rq) = Inr (c_amount c) \<and> default_fee E (fr_fee rq) = Inr (c_fee c))"
    by blast
qed

text \<open>
  C18. A contract is funded once, and only in time. When a funding is carried out the journal gains one
  row for the swap, whose transaction pays the requested amount from custody to the contract's address,
  at a tip from which the refund branch is not open at the next block; and every later funding request
  for the swap, at any later state, builds and stores nothing, and succeeds only for the same amount and
  fee.
\<close>

theorem swap_funded_once:
  assumes laws: "currency_laws E" "codec_laws E" "slice_laws E" and ok: "wallet_ok E mst s"
    and run: "fund_swap E ctx sid rq s = (Ok (v, True), t)"
    and later: "store_le t u" "fund_swap E ctx' sid rq' u = (r, w)"
  shows "(\<exists>sw cs amnt fee txn row s1 s2.
      Option.bind (swap_tab.lookup sid (t_swaps (tables s))) (\<lambda>row. case scan_swap E row of Inl _ \<Rightarrow> None | Inr x \<Rightarrow> Some x) = Some sw \<and>
      cur_parse E (fr_amount rq) = Inr amnt \<and> 0 < amnt \<and> default_fee E (fr_fee rq) = Inr fee \<and>
      ci_height (cs_index cs) + 1 < s_refund_height sw \<and>
      fr_unit rq = cur_exact E (qday_units E cs (ci_height (cs_index cs))) \<and>
      frame s s1 \<and> pays E cs s1 s2 (s_address sw) amnt fee txn \<and>
      t_actions (tables t) = t_actions (tables s) @ [row] \<and> action_key row = (sid, ''fund'', []) \<and>
      decode_txn E (cr_blob row) = Inr txn) \<and>
    frame u w \<and> (\<forall>v' b. r = Ok (v', b) \<longrightarrow> \<not> b \<and> xv_action v' = xv_action v \<and>
      cur_parse E (fr_amount rq') = cur_parse E (fr_amount rq) \<and> default_fee E (fr_fee rq') = default_fee E (fr_fee rq))"
proof -
  obtain amnt fee row sw mst' cs s1 txn s2 c x where
    amnt: "cur_parse E (fr_amount rq) = Inr amnt" "\<not> cur_is_zero E amnt" and fee: "default_fee E (fr_fee rq) = Inr fee"
    and row: "swap_tab.lookup sid (t_swaps (tables s)) = Some row" "scan_swap E row = Inr sw"
    and unt: "fr_unit rq = cur_exact E (qday_units E cs (ci_height (cs_index cs)))"
    and early: "ci_height (cs_index cs) + 1 < s_refund_height sw"
    and fr: "frame s s1" and seed: "mst_seed s = Some mst'"
    and build: "build_custody_transfer E ctx cs mst' (s_address sw) amnt fee s1 = (Ok txn, s2)"
    and c: "c_swap c = sid" "c_kind c = ''fund''" "c_output c = []" "c_txn c = txn" "c_destination c = s_address sw"
      "c_amount c = amnt" "c_fee c = fee"
    and act: "acted E c s2 x" and t: "frame (x\<lparr>wake := True\<rparr>) t" and v: "shows_action E c v"
    by (rule fund_swap_new [OF run])
  have b: "amnt < 2 ^ 128" "fee < 2 ^ 128"
    using currency_bounds(2) [OF laws(1) amnt(1)] default_fee_bound [OF laws(1) fee] by simp_all
  have "mst' = mst" using seed ok by (simp add: wallet_ok_def)
  with build have pays: "pays E cs s1 s2 (s_address sw) amnt fee txn"
    using build_transfer_pays [OF laws(1,3) b] ok fr by (simp add: wallet_ok_frame)
  obtain new raw where new: "t_actions (tables x) = t_actions (tables s2) @ [new]"
    and raw: "encode_txn E (c_txn c) = Inr raw" "cr_blob new = raw"
    and ident: "action_identity new = ((c_action c, c_swap c, c_kind c, c_output c), qaddr_string E (c_destination c),
       cur_exact E (c_amount c), cur_exact E (c_fee c), unix_seconds (c_created c))"
    by (rule acted_row [OF act])
  have id: "action_key new = (sid, ''fund'', [])"
    using ident c by (simp add: action_identity_def action_key_def)
  have tab: "t_actions (tables t) = t_actions (tables s) @ [new]"
    using new t evolvesD [OF journals_build build] fr by (simp add: frame_def same_journals_def)
  have pos: "0 < amnt" using amnt(2) currency_lawsD(6) [OF laws(1) b(1) b(1)] by simp
  have dec: "decode_txn E (cr_blob new) = Inr txn" using codec_lawsD(2) [OF laws(2) raw(1)] raw(2) c by simp
  obtain row' where look: "action_tab.lookup (sid, ''fund'', []) (t_actions (tables u)) = Some row'"
    and id': "action_identity row' = ((c_action c, c_swap c, c_kind c, c_output c), qaddr_string E (c_destination c),
       cur_exact E amnt, cur_exact E fee, unix_seconds (c_created c))"
    using acted_lasting [OF act t later(1)] c by metis
  note known = fund_swap_known [OF look later(2)]
  have "\<not> b' \<and> xv_action v' = xv_action v \<and> cur_parse E (fr_amount rq') = cur_parse E (fr_amount rq) \<and>
      default_fee E (fr_fee rq') = default_fee E (fr_fee rq)" if r: "r = Ok (v', b')" for v' b'
  proof -
    from known(2) [OF r] obtain c' where c': "scan_swap_action E row' = Inr c'" "shows_action E c' v'" "\<not> b'"
      "cur_parse E (fr_amount rq') = Inr (c_amount c')" "default_fee E (fr_fee rq') = Inr (c_fee c')" by blast
    with lasting_payment [OF laws(2) c'(1) id' b] scan_action_ok(4) [OF c'(1)] id' amnt(1) fee v show ?thesis
      by (simp add: shows_action_def action_identity_def)
  qed
  with known(1) have later: "frame u w \<and> (\<forall>v' b. r = Ok (v', b) \<longrightarrow> \<not> b \<and> xv_action v' = xv_action v \<and>
      cur_parse E (fr_amount rq') = cur_parse E (fr_amount rq) \<and> default_fee E (fr_fee rq') = default_fee E (fr_fee rq))"
    by blast
  show ?thesis
    by (rule conjI [OF _ later], rule exI [of _ sw], rule exI [of _ cs], rule exI [of _ amnt], rule exI [of _ fee],
        rule exI [of _ txn], rule exI [of _ new], rule exI [of _ s1], rule exI [of _ s2])
      (intro conjI amnt(1) pos fee early unt fr pays tab id dec, simp add: row)
qed

end
