(* ===== verification/Swap_View_Facts.thy ===== *)
theory Swap_View_Facts
  imports Swaps Defend_Facts
begin

text \<open>
  Reading a swap: the texts in which keys and hashes are exchanged, the outputs of a contract as
  they are rebuilt from the chain history and the pool, and the status that sums them up.
\<close>

section \<open>Keys and hashes as texts\<close>

lemma parse_hash_iff: "parse_hash name v = Inr b \<longleftrightarrow> length b = 32 \<and> v = hex_encode b"
proof
  assume ok: "parse_hash name v = Inr b"
  then have "to_lower v = v" "hex_decode v = Some b" "length b = 32"
    by (auto simp: parse_hash_def split: if_splits option.splits)
  then show "length b = 32 \<and> v = hex_encode b"
    using hex_decode_lower by metis
qed (simp add: parse_hash_def)

lemma parse_swap_keys_iff:
  "parse_swap_keys E name view = Inr keys \<longleftrightarrow>
    view \<in> {view_swap_keys E keys, (view_swap_keys E keys)\<lparr>kv_address := []\<rparr>} \<and>
    length (classical keys) = 32 \<and> length (reserve keys) = 32 \<and> keys_validate E keys = None"
  (is "?l \<longleftrightarrow> ?r")
proof
  assume ?l
  then obtain c r where "parse_hash (name @ ''.classical'') (kv_classical view) = Inr c"
    and "parse_hash (name @ ''.reserve'') (kv_reserve view) = Inr r"
    and "keys = \<lparr>classical = c, reserve = r\<rparr>" and "keys_validate E keys = None"
    and "kv_address view = [] \<or> kv_address view = qaddr_string E (keys_address E keys)"
    by (auto simp: parse_swap_keys_def Let_def split: sum.splits option.splits if_splits)
  then show ?r by (cases view) (auto simp: parse_hash_iff view_swap_keys_def)
next
  assume ?r
  then have "parse_hash n (kv_classical view) = Inr (classical keys)"
    and "parse_hash n (kv_reserve view) = Inr (reserve keys)" for n
    by (auto simp: parse_hash_iff view_swap_keys_def)
  with \<open>?r\<close> show ?l
    by (auto simp: parse_swap_keys_def view_swap_keys_def Let_def qkeys_split)
qed

text \<open>
  C22. The text of public keys is unique: a counterparty's keys are accepted exactly when they are the
  lower-case hexadecimal text of two valid 32-byte keys, with no address or with the address the
  daemon shows for these keys. So what one daemon shows the other reads, and nothing else is read
  as the same keys.
\<close>

theorem swap_keys_text:
  "parse_swap_keys E name view = Inr keys \<longleftrightarrow>
    view \<in> {view_swap_keys E keys, (view_swap_keys E keys)\<lparr>kv_address := []\<rparr>} \<and>
    length (classical keys) = 32 \<and> length (reserve keys) = 32 \<and> keys_validate E keys = None"
  by (rule parse_swap_keys_iff)

section \<open>Reading a swap ends\<close>

lemma history_step_ok:
  assumes "history_step E sw (k, seen) s = (Ok r, t)"
  shows "case r of Inl (k', seen') \<Rightarrow> k' = k + page_size \<and> k' \<noteq> max_events \<and> k < max_events
    | Inr _ \<Rightarrow> True"
  using assms by (auto simp: history_step_def run_iffs split: if_splits)

lemma view_calls_return: "returns (history_step E sw x)" "returns (view_swap_action E c)"
  "returns (swap_key_get E sid)" "returns (swap_get E sid)" "returns (swap_actions E sid)" "returns (swaps_page E l k)"
  unfolding history_step_def view_swap_action_def swap_key_get_def swap_get_def swap_actions_def swaps_page_def
  by (intro call_returns)+

text \<open>At most twenty pages: the offset grows by a page and stops at the limit.\<close>

lemma history_returns: "returns (loop (history_step E sw) (0, []))"
  unfolding returns_def
proof
  fix s :: "'a sys"
  show "fst (loop (history_step E sw) (0, []) s) \<noteq> Hang"
  proof (rule loop_returns [where I = "\<lambda>_ _. True" and mu = "\<lambda>x _. max_events - fst x"])
    fix x :: "nat \<times> event list" and s x' and s' :: "'a sys"
    assume "history_step E sw x s = (Ok (Inl x'), s')"
    then show "True \<and> max_events - fst x' < max_events - fst x"
      using history_step_ok [of E sw "fst x" "snd x" s "Inl x'" s']
      by (auto simp: page_size_def split: prod.splits)
  qed (simp_all add: returnsD [OF view_calls_return(1)])
qed

lemma observed_returns: "returns (observed_swap_outputs E sw)"
  unfolding observed_swap_outputs_def by (intro call_returns history_returns)

lemma view_swap_returns: "returns (view_swap E sw)"
  unfolding view_swap_def by (intro call_returns view_calls_return observed_returns)

text \<open>
  C23. Reading a swap, or a page of swaps, always ends: the event history is read in at most twenty
  pages, whatever the wallet manager answers, and no other loop depends on its answers.
\<close>

theorem swap_reads_end:
  "fst (get_swap E sid s) \<noteq> Hang \<and> fst (get_swaps E limit offset s) \<noteq> Hang"
proof
  show "fst (get_swap E sid s) \<noteq> Hang"
    unfolding get_swap_def by (intro returnsD call_returns view_calls_return view_swap_returns)
  show "fst (get_swaps E limit offset s) \<noteq> Hang"
    unfolding get_swaps_def by (intro returnsD call_returns view_calls_return view_swap_returns)
qed

text \<open>On a fixed history the loop reads all of it once, or refuses.\<close>

definition address_history :: "('x, 'z) env_scheme \<Rightarrow> address \<Rightarrow> event list \<Rightarrow> bool" where
  "address_history E a hist \<longleftrightarrow> (\<forall>k n w. fst (wm_address_events E a k n w) = Inr (take n (drop k hist)))"

lemma history_step_fixed:
  assumes "address_history E (s_address sw) hist" and "k < max_events"
  shows "\<exists>t. history_step E sw (k, seen) s =
    ((if length (drop k hist) < page_size then Ok (Inr (seen @ drop k hist))
      else if k + page_size = max_events then Err (Swp HistoryLimit)
      else Ok (Inl (k + page_size, seen @ take page_size (drop k hist)))), t)"
proof -
  obtain w' where "wm_address_events E (s_address sw) k page_size (world s) = (Inr (take page_size (drop k hist)), w')"
    using assms(1) unfolding address_history_def by (metis prod.collapse)
  with assms(2) show ?thesis
    by (auto simp: history_step_def bnd_def ext_sum_def ext_def not_less min_def)
qed

lemma history_read:
  assumes hist: "address_history E (s_address sw) hist"
    and ok: "loop (history_step E sw) (0, []) s = (Ok events, t)"
  shows "events = hist \<and> length hist < max_events"
proof -
  let ?I = "\<lambda>(k, seen) (s :: 'a sys). seen = take k hist \<and> k < max_events \<and> k \<le> length hist \<and> page_size dvd k"
  have "case r of Inl a' \<Rightarrow> ?I a' t | Inr b \<Rightarrow> b = hist \<and> length hist < max_events"
    if I: "?I x s" and run: "history_step E sw x s = (Ok r, t)" for x s r and t :: "'a sys"
  proof -
    obtain k seen where x: "x = (k, seen)" by fastforce
    with I have k: "seen = take k hist" "k < max_events" "k \<le> length hist" "page_size dvd k" by auto
    have next_page: "k + page_size \<le> max_events"
    proof -
      obtain j where j: "k = page_size * j" using k(4) by (auto simp: dvd_def)
      with k(2) have "j < 20" by (simp add: page_size_def max_events_def)
      with j show ?thesis by (simp add: page_size_def max_events_def)
    qed
    from history_step_fixed [OF hist k(2), of seen s] obtain u where
      step: "history_step E sw (k, seen) s = ((if length (drop k hist) < page_size then Ok (Inr (seen @ drop k hist))
      else if k + page_size = max_events then Err (Swp HistoryLimit)
      else Ok (Inl (k + page_size, seen @ take page_size (drop k hist)))), u)" by blast
    show ?thesis
    proof (cases "length (drop k hist) < page_size")
      case True
      with step run x k next_page show ?thesis by auto
    next
      case False
      with step run x have "r = Inl (k + page_size, seen @ take page_size (drop k hist))" "k + page_size \<noteq> max_events"
        by (auto split: if_splits)
      with False k next_page show ?thesis by (auto simp: take_add)
    qed
  qed
  then show ?thesis
    by (rule loop_yields [where I = ?I and Q = "\<lambda>b _. b = hist \<and> length hist < max_events", OF _ _ ok])
      (simp_all add: max_events_def)
qed

section \<open>The outputs of a contract\<close>

text \<open>What an event says of a contract, one output or one input at a time, in the order it is read.\<close>

datatype swap_item = Paid nat siacoin_output | Spent v2input

fun items_of :: "event \<Rightarrow> swap_item list" where
  "items_of ev = (case ev_data ev of
     EventV2Transaction txn \<Rightarrow> map (\<lambda>(i, outp). Paid i outp) (enumerate 0 (tx_outputs txn)) @ map Spent (tx_inputs txn)
   | _ \<Rightarrow> [])"

type_synonym swap_log = "(bool \<times> event \<times> swap_item) list"

definition log_of :: "bool \<Rightarrow> event list \<Rightarrow> swap_log" where
  "log_of confirmed evs = concat (map (\<lambda>ev. map (\<lambda>x. (confirmed, ev, x)) (items_of ev)) evs)"

definition event_txid :: "('x, 'z) env_scheme \<Rightarrow> event \<Rightarrow> bytes" where
  "event_txid E ev = (case ev_data ev of EventV2Transaction txn \<Rightarrow> txn_id E txn | _ \<Rightarrow> [])"

fun item_output :: "swap_item \<Rightarrow> siacoin_output" where
  "item_output (Paid i outp) = outp"
| "item_output (Spent inp) = se_output (in_parent inp)"

fun item_id :: "('x, 'z) env_scheme \<Rightarrow> event \<Rightarrow> swap_item \<Rightarrow> string" where
  "item_id E ev (Paid i outp) = output_id_string E (txn_output_id E (event_txid E ev) i)"
| "item_id E ev (Spent inp) = output_id_string E (se_id (in_parent inp))"

fun observe_item :: "('x, 'z) env_scheme \<Rightarrow> swap \<Rightarrow> bool \<times> event \<times> swap_item \<Rightarrow> observed_map \<Rightarrow> observed_map" where
  "observe_item E sw (c, ev, Paid i outp) = observe_funding E sw ev c (event_txid E ev) (i, outp)"
| "observe_item E sw (c, ev, Spent inp) = observe_spend E sw ev c (event_txid E ev) inp"

lemma observe_transaction_items:
  "observe_transaction E sw c ev m = fold (observe_item E sw) (map (\<lambda>x. (c, ev, x)) (items_of ev)) m"
  by (simp add: observe_transaction_def event_txid_def fold_map comp_def split_def Let_def split: event_data.split)

lemma observe_transactions_log:
  "fold (observe_transaction E sw c) evs m = fold (observe_item E sw) (log_of c evs) m"
  by (induction evs arbitrary: m) (simp_all add: log_of_def observe_transaction_items)

text \<open>The items about the contract's address, with the output they are about.\<close>

definition about :: "('x, 'z) env_scheme \<Rightarrow> swap \<Rightarrow> swap_log \<Rightarrow> swap_log" where
  "about E sw l = filter (\<lambda>(c, ev, x). so_address (item_output x) = s_address sw) l"

definition payments :: "('x, 'z) env_scheme \<Rightarrow> swap \<Rightarrow> bool \<Rightarrow> swap_log \<Rightarrow> string set" where
  "payments E sw confirmed l = {item_id E ev (Paid i outp) |ev i outp. (confirmed, ev, Paid i outp) \<in> set (about E sw l)}"

definition spends :: "('x, 'z) env_scheme \<Rightarrow> swap \<Rightarrow> swap_log \<Rightarrow> string set" where
  "spends E sw l = {item_id E ev (Spent inp) |c ev inp. (c, ev, Spent inp) \<in> set (about E sw l)}"

definition mentions :: "('x, 'z) env_scheme \<Rightarrow> swap \<Rightarrow> swap_log \<Rightarrow> string set" where
  "mentions E sw l = payments E sw True l \<union> payments E sw False l \<union> spends E sw l"

text \<open>The facts an entry of the map is a record of.\<close>

definition spent_by :: "('x, 'z) env_scheme \<Rightarrow> swap \<Rightarrow> swap_log \<Rightarrow> string \<Rightarrow> bool \<Rightarrow> string \<Rightarrow> string \<Rightarrow> bool" where
  "spent_by E sw l did confirmed kind secret \<longleftrightarrow> (\<exists>ev inp. (confirmed, ev, Spent inp) \<in> set (about E sw l) \<and>
     item_id E ev (Spent inp) = did \<and> classify_swap_spend E (swap_contract_of sw) inp = (kind, secret))"

definition entry_ok :: "('x, 'z) env_scheme \<Rightarrow> swap \<Rightarrow> swap_log \<Rightarrow> string \<Rightarrow> observed_output \<Rightarrow> bool" where
  "entry_ok E sw l did entry \<longleftrightarrow>
     ov_id (oo_view entry) = did \<and>
     (oo_confirmed entry \<longleftrightarrow> did \<in> payments E sw True l) \<and>
     (oo_spent entry \<longrightarrow> did \<in> spends E sw l) \<and>
     ov_spendable (oo_view entry) = None \<and>
     (ov_status (oo_view entry) = ''claimed'' \<longrightarrow> spent_by E sw l did True ''claim'' (ov_secret (oo_view entry))) \<and>
     (ov_status (oo_view entry) = ''refunded'' \<longrightarrow> spent_by E sw l did True ''refund'' (ov_secret (oo_view entry))) \<and>
     (ov_secret (oo_view entry) \<noteq> [] \<longrightarrow> (\<exists>c. spent_by E sw l did c ''claim'' (ov_secret (oo_view entry))))"

definition map_ok :: "('x, 'z) env_scheme \<Rightarrow> swap \<Rightarrow> swap_log \<Rightarrow> observed_map \<Rightarrow> bool" where
  "map_ok E sw l m \<longleftrightarrow> distinct (map fst m) \<and>
     fst ` set m = mentions E sw l \<and>
     (\<forall>did entry. map_of m did = Some entry \<longrightarrow> entry_ok E sw l did entry)"

lemma about_append: "about E sw (l @ l') = about E sw l @ about E sw l'"
  by (simp add: about_def)

lemma payments_append: "payments E sw c (l @ l') = payments E sw c l \<union> payments E sw c l'"
  by (auto simp: payments_def about_append)

lemma spends_append: "spends E sw (l @ l') = spends E sw l \<union> spends E sw l'"
  by (auto simp: spends_def about_append)

lemma spent_by_append: "spent_by E sw (l @ l') did c kind secret \<longleftrightarrow>
    spent_by E sw l did c kind secret \<or> spent_by E sw l' did c kind secret"
  by (auto simp: spent_by_def about_append)

lemma single_item:
  "payments E sw c [(c', ev, Paid i outp)] =
    (if c' = c \<and> so_address outp = s_address sw then {item_id E ev (Paid i outp)} else {})"
  "payments E sw c [(c', ev, Spent inp)] = {}"
  "spends E sw [(c', ev, Paid i outp)] = {}"
  "spends E sw [(c', ev, Spent inp)] =
    (if so_address (se_output (in_parent inp)) = s_address sw then {item_id E ev (Spent inp)} else {})"
  by (auto simp: payments_def spends_def about_def)

lemma classify_kinds:
  assumes "classify_swap_spend E contract inp = (kind, secret)"
  shows "kind \<in> {''claim'', ''refund'', ''unknown''}" and "secret \<noteq> [] \<Longrightarrow> kind = ''claim''"
    and "secret \<noteq> [] \<Longrightarrow> \<exists>preimage. secret = hex_encode preimage \<and> sha256 preimage = sc_secret_hash contract"
  using assms by (auto simp: classify_swap_spend_def classify_lock_def Let_def split: sum.splits policy.splits if_splits)

text \<open>One item: the map stays a record of the log.\<close>

lemma mentions_append: "mentions E sw (l @ l') = mentions E sw l \<union> mentions E sw l'"
  by (auto simp: mentions_def payments_append spends_append)

lemma entry_ok_later:
  "entry_ok E sw l did entry \<Longrightarrow> (did \<in> payments E sw True l' \<Longrightarrow> oo_confirmed entry) \<Longrightarrow> entry_ok E sw (l @ l') did entry"
  by (auto simp: entry_ok_def payments_append spends_append spent_by_append)

lemma map_ok_same:
  assumes "map_ok E sw l m" and "mentions E sw l' \<subseteq> fst ` set m"
    and "\<And>did entry. map_of m did = Some entry \<Longrightarrow> did \<in> payments E sw True l' \<Longrightarrow> oo_confirmed entry"
  shows "map_ok E sw (l @ l') m"
proof -
  have "fst ` set m = mentions E sw (l @ l')"
    using assms(1,2) unfolding mentions_append map_ok_def by blast
  moreover have "entry_ok E sw (l @ l') did entry" if "map_of m did = Some entry" for did entry
    using assms(1) that assms(3) [OF that] by (intro entry_ok_later) (simp_all add: map_ok_def)
  ultimately show ?thesis using assms(1) by (simp add: map_ok_def)
qed

lemma map_ok_update:
  assumes "map_ok E sw l m" and "mentions E sw l' = {did}" and "entry_ok E sw (l @ l') did entry"
  shows "map_ok E sw (l @ l') (AList.update did entry m)"
proof -
  have "fst ` set (AList.update did entry m) = mentions E sw (l @ l')"
    using assms(1,2) unfolding mentions_append dom_update map_ok_def by auto
  moreover have "entry_ok E sw (l @ l') k e" if "map_of (AList.update did entry m) k = Some e" for k e
  proof (cases "k = did")
    case False
    then have "map_of m k = Some e" using that by (simp add: update_conv')
    moreover have "k \<notin> payments E sw True l'" using False assms(2) unfolding mentions_def by blast
    ultimately show ?thesis using assms(1) by (intro entry_ok_later) (simp_all add: map_ok_def)
  qed (use that assms(3) in \<open>simp add: update_conv'\<close>)
  ultimately show ?thesis
    using assms(1) by (simp add: map_ok_def distinct_update)
qed

lemma map_ok_lookup:
  assumes "map_ok E sw l m"
  shows "map_of m did = None \<longleftrightarrow> did \<notin> mentions E sw l" and "map_of m did = Some entry \<Longrightarrow> entry_ok E sw l did entry"
  using assms unfolding map_of_eq_None_iff by (simp_all add: map_ok_def)

lemma observe_item_alt:
  "observe_item E sw (c, ev, Paid i outp) m =
    (if so_address outp \<noteq> s_address sw then m
     else if (case map_of m (item_id E ev (Paid i outp)) of None \<Rightarrow> True | Some o0 \<Rightarrow> c \<and> \<not> oo_confirmed o0)
     then AList.update (item_id E ev (Paid i outp)) \<lparr>oo_view = funding_view E ev c (event_txid E ev)
       (item_id E ev (Paid i outp)) outp, oo_confirmed = c, oo_spent = False\<rparr> m else m)"
  "observe_item E sw (c, ev, Spent inp) m =
    (if so_address (se_output (in_parent inp)) \<noteq> s_address sw then m
     else let o0 = (case map_of m (item_id E ev (Spent inp)) of
         None \<Rightarrow> bare_output E (item_id E ev (Spent inp)) (so_value (se_output (in_parent inp))) | Some o0 \<Rightarrow> o0) in
       AList.update (item_id E ev (Spent inp)) (if oo_spent o0 \<and> \<not> c then o0
         else o0\<lparr>oo_spent := True, oo_view := spent_view E ev c (event_txid E ev)
          (classify_swap_spend E (swap_contract_of sw) inp) (oo_view o0)\<rparr>) m)"
  unfolding observe_item.simps observe_funding_def observe_spend_def item_id.simps Let_def
  by (simp_all split: if_split)

declare item_id.simps [simp del] observe_item.simps [simp del]

lemma observe_payment:
  assumes ok: "map_ok E sw l m"
  shows "map_ok E sw (l @ [(c, ev, Paid i outp)]) (observe_item E sw (c, ev, Paid i outp) m)"
proof (cases "so_address outp = s_address sw")
  case False
  then show ?thesis
    using map_ok_same [OF ok, of "[(c, ev, Paid i outp)]"] by (simp add: observe_item_alt mentions_def single_item)
next
  case True
  let ?x = "[(c, ev, Paid i outp)]" and ?did = "item_id E ev (Paid i outp)"
  have men: "mentions E sw ?x = {?did}" using True by (cases c) (auto simp: mentions_def single_item)
  have pay: "payments E sw True ?x = (if c then {?did} else {})" "spends E sw ?x = {}"
    using True by (simp_all add: single_item)
  show ?thesis
  proof (cases "case map_of m ?did of None \<Rightarrow> True | Some o0 \<Rightarrow> c \<and> \<not> oo_confirmed o0")
    case new: True
    have "c \<longleftrightarrow> ?did \<in> payments E sw True (l @ ?x)"
      using new pay map_ok_lookup(1) [OF ok, of ?did]
      by (auto simp: payments_append mentions_def split: option.splits)
    then have "entry_ok E sw (l @ ?x) ?did \<lparr>oo_view = funding_view E ev c (event_txid E ev) ?did outp,
        oo_confirmed = c, oo_spent = False\<rparr>"
      by (simp add: entry_ok_def funding_view_def)
    with map_ok_update [OF ok men] new True show ?thesis by (simp add: observe_item_alt)
  next
    case old: False
    then obtain o0 where o0: "map_of m ?did = Some o0" "c \<Longrightarrow> oo_confirmed o0" by (auto split: option.splits)
    then have "?did \<in> fst ` set m" by (metis map_of_eq_None_iff option.distinct(1))
    with ok men pay o0 have "map_ok E sw (l @ ?x) m"
      by (intro map_ok_same) (auto split: if_splits)
    with old True show ?thesis by (simp add: observe_item_alt)
  qed
qed

lemma spent_view_fields:
  "ov_id (spent_view E ev c txid (kind, secret) v) = ov_id v"
  "ov_spendable (spent_view E ev c txid (kind, secret) v) = ov_spendable v"
  "ov_secret (spent_view E ev c txid (kind, secret) v) = secret"
  "ov_status (spent_view E ev c txid (kind, secret) v) =
    (if kind = ''unknown'' then (if c then ''spent'' else ''spending'') else kind @ (if c then ''ed'' else ''ing''))"
  by (simp_all add: spent_view_def Let_def)

lemma spent_entry_ok:
  assumes ok: "entry_ok E sw l did o0" and rel: "so_address (se_output (in_parent inp)) = s_address sw"
    and did: "did = item_id E ev (Spent inp)"
  shows "entry_ok E sw (l @ [(c, ev, Spent inp)]) did (o0\<lparr>oo_spent := True, oo_view := spent_view E ev c txid
    (classify_swap_spend E (swap_contract_of sw) inp) (oo_view o0)\<rparr>)"
proof -
  obtain kind secret where cls: "classify_swap_spend E (swap_contract_of sw) inp = (kind, secret)" by fastforce
  have sp: "spent_by E sw (l @ [(c, ev, Spent inp)]) did c kind secret"
    using rel did cls by (auto simp: spent_by_append spent_by_def about_def)
  have "did \<in> spends E sw (l @ [(c, ev, Spent inp)])" using rel did by (simp add: spends_append single_item)
  moreover have "payments E sw True (l @ [(c, ev, Spent inp)]) = payments E sw True l"
    by (simp add: payments_append single_item)
  moreover have "secret \<noteq> [] \<longrightarrow> kind = ''claim''" using classify_kinds(2) [OF cls] by blast
  moreover have "kind = ''claim'' \<or> kind = ''refund'' \<or> kind = ''unknown''" using classify_kinds(1) [OF cls] by blast
  ultimately show ?thesis
    using ok sp unfolding entry_ok_def
    by (elim disjE; cases c) (simp_all add: cls spent_view_fields, blast+)
qed

lemma observe_spent:
  assumes ok: "map_ok E sw l m"
  shows "map_ok E sw (l @ [(c, ev, Spent inp)]) (observe_item E sw (c, ev, Spent inp) m)"
proof (cases "so_address (se_output (in_parent inp)) = s_address sw")
  case False
  then show ?thesis
    using map_ok_same [OF ok, of "[(c, ev, Spent inp)]"] by (simp add: observe_item_alt mentions_def single_item)
next
  case rel: True
  let ?x = "[(c, ev, Spent inp)]" and ?did = "item_id E ev (Spent inp)"
  define o0 where "o0 = (case map_of m ?did of None \<Rightarrow> bare_output E ?did (so_value (se_output (in_parent inp))) | Some o0 \<Rightarrow> o0)"
  have men: "mentions E sw ?x = {?did}" using rel by (simp add: mentions_def single_item)
  have o0: "entry_ok E sw l ?did o0"
  proof (cases "map_of m ?did")
    case None
    then show ?thesis
      using map_ok_lookup(1) [OF ok, of ?did] by (auto simp: o0_def entry_ok_def bare_output_def mentions_def)
  qed (use map_ok_lookup(2) [OF ok] in \<open>simp add: o0_def\<close>)
  then have old: "entry_ok E sw (l @ ?x) ?did o0"
    by (rule entry_ok_later) (simp add: single_item)
  have "observe_item E sw (c, ev, Spent inp) m = AList.update ?did (if oo_spent o0 \<and> \<not> c then o0
      else o0\<lparr>oo_spent := True, oo_view := spent_view E ev c (event_txid E ev)
        (classify_swap_spend E (swap_contract_of sw) inp) (oo_view o0)\<rparr>) m"
    using rel by (simp add: observe_item_alt o0_def Let_def)
  moreover have "entry_ok E sw (l @ ?x) ?did (if oo_spent o0 \<and> \<not> c then o0
      else o0\<lparr>oo_spent := True, oo_view := spent_view E ev c (event_txid E ev)
        (classify_swap_spend E (swap_contract_of sw) inp) (oo_view o0)\<rparr>)"
    by (rule if_split [THEN iffD2]) (use old spent_entry_ok [OF o0 rel refl] in blast)
  ultimately show ?thesis using map_ok_update [OF ok men] by simp
qed

lemma observe_log: "map_ok E sw l m \<Longrightarrow> map_ok E sw (l @ l') (fold (observe_item E sw) l' m)"
proof (induction l' arbitrary: l m)
  case (Cons x l')
  obtain c ev item where x: "x = (c, ev, item)" by (cases x) auto
  have "map_ok E sw (l @ [x]) (observe_item E sw x m)"
    unfolding x by (cases item) (simp_all add: observe_payment observe_spent Cons.prems)
  from Cons.IH [OF this] show ?case by simp
qed simp

text \<open>In a causal history an output is paid before it is spent. Then no later funding hides a spend.\<close>

definition causal :: "('x, 'z) env_scheme \<Rightarrow> swap \<Rightarrow> swap_log \<Rightarrow> bool" where
  "causal E sw l \<longleftrightarrow> (\<forall>pre x post. l = pre @ x # post \<longrightarrow> spends E sw [x] \<subseteq> payments E sw True pre)"

definition spent_seen :: "('x, 'z) env_scheme \<Rightarrow> swap \<Rightarrow> swap_log \<Rightarrow> observed_map \<Rightarrow> bool" where
  "spent_seen E sw l m \<longleftrightarrow> (\<forall>did entry. map_of m did = Some entry \<longrightarrow> did \<in> spends E sw l \<longrightarrow> oo_spent entry)"

definition all_confirmed :: "observed_map \<Rightarrow> bool" where
  "all_confirmed m \<longleftrightarrow> (\<forall>did entry. map_of m did = Some entry \<longrightarrow> oo_confirmed entry)"

lemma spent_seen_step:
  assumes ok: "map_ok E sw l m" and seen: "spent_seen E sw l m" and conf: "fst x \<Longrightarrow> all_confirmed m"
  shows "spent_seen E sw (l @ [x]) (observe_item E sw x m)"
proof -
  obtain c ev item where x: "x = (c, ev, item)" by (cases x) auto
  show ?thesis
  proof (cases item)
    case (Paid i outp)
    have "item_id E ev (Paid i outp) \<notin> spends E sw l" if "map_of m (item_id E ev (Paid i outp)) = None"
      using that map_ok_lookup(1) [OF ok] by (simp add: mentions_def)
    then show ?thesis
      using seen conf unfolding x Paid spent_seen_def all_confirmed_def
      by (auto simp: observe_item_alt spends_append single_item update_conv' split: option.splits if_splits)
  next
    case (Spent inp)
    show ?thesis
      using seen unfolding x Spent spent_seen_def
      by (auto simp: observe_item_alt spends_append single_item update_conv' Let_def split: if_splits option.splits)
  qed
qed

lemma confirmed_step:
  assumes "map_ok E sw l m" and "all_confirmed m" and "fst x" and "spends E sw [x] \<subseteq> payments E sw True l"
  shows "all_confirmed (observe_item E sw x m)"
proof -
  obtain c ev item where x: "x = (c, ev, item)" by (cases x) auto
  show ?thesis
  proof (cases item)
    case (Paid i outp)
    with x assms show ?thesis by (auto simp: all_confirmed_def observe_item_alt update_conv' split: if_splits)
  next
    case (Spent inp)
    show ?thesis
    proof (cases "so_address (se_output (in_parent inp)) = s_address sw")
      case True
      with assms(4) x Spent have "item_id E ev (Spent inp) \<in> mentions E sw l" by (simp add: single_item mentions_def)
      then obtain o0 where "map_of m (item_id E ev (Spent inp)) = Some o0"
        using map_ok_lookup(1) [OF assms(1)] by fastforce
      with x Spent True assms(2) show ?thesis
        by (auto simp: all_confirmed_def observe_item_alt update_conv' Let_def split: if_splits)
    qed (use x Spent assms(2) in \<open>simp add: observe_item_alt\<close>)
  qed
qed

lemma confirmed_log:
  assumes "causal E sw (l @ l')" and "\<And>x. x \<in> set l' \<Longrightarrow> fst x"
    and "map_ok E sw l m" and "spent_seen E sw l m" and "all_confirmed m"
  shows "spent_seen E sw (l @ l') (fold (observe_item E sw) l' m) \<and> all_confirmed (fold (observe_item E sw) l' m)"
  using assms
proof (induction l' arbitrary: l m)
  case (Cons x l')
  let ?m = "observe_item E sw x m"
  have sub: "spends E sw [x] \<subseteq> payments E sw True l" using Cons.prems(1) unfolding causal_def by blast
  have c: "fst x" using Cons.prems(2) by simp
  have "map_ok E sw (l @ [x]) ?m" using observe_log [OF Cons.prems(3), of "[x]"] by simp
  moreover have "spent_seen E sw (l @ [x]) ?m" using Cons.prems(3,4,5) by (intro spent_seen_step)
  moreover have "all_confirmed ?m" using Cons.prems(3,5) c sub by (rule confirmed_step)
  moreover have "causal E sw ((l @ [x]) @ l')" using Cons.prems(1) by simp
  ultimately show ?case
    using Cons.IH [of "l @ [x]" ?m] Cons.prems(2) by simp
qed simp

lemma unconfirmed_log:
  assumes "\<And>x. x \<in> set l' \<Longrightarrow> \<not> fst x" and "map_ok E sw l m" and "spent_seen E sw l m"
  shows "spent_seen E sw (l @ l') (fold (observe_item E sw) l' m)"
  using assms
proof (induction l' arbitrary: l m)
  case (Cons x l')
  let ?m = "observe_item E sw x m"
  have "\<not> fst x" using Cons.prems(1) by simp
  then have "spent_seen E sw (l @ [x]) ?m" using Cons.prems(2,3) by (intro spent_seen_step) simp_all
  moreover have "map_ok E sw (l @ [x]) ?m" using observe_log [OF Cons.prems(2), of "[x]"] by simp
  ultimately show ?case
    using Cons.IH [of "l @ [x]" ?m] Cons.prems(1) by simp
qed simp

section \<open>The listing\<close>

text \<open>The iteration order of a Go map is some order of its keys.\<close>

definition order_laws :: "('x, 'z) env_scheme \<Rightarrow> bool" where
  "order_laws E \<longleftrightarrow> (\<forall>ks w. mset (fst (map_order E ks w)) = mset ks)"

definition pool_events :: "('x, 'z) env_scheme \<Rightarrow> address \<Rightarrow> event list \<Rightarrow> bool" where
  "pool_events E a pool \<longleftrightarrow> (\<forall>w. fst (wm_unconfirmed E a w) = Inr pool)"

lemma scan_rows_iff: "scan_rows f xs = Inr ys \<longleftrightarrow> list_all2 (\<lambda>x y. f x = Inr y) xs ys"
proof (induction xs arbitrary: ys)
  case (Cons x xs)
  show ?case by (auto simp: list_all2_Cons1 simp flip: Cons.IH split: sum.splits)
qed auto

lemma output_view_fields:
  assumes "output_view E cs o0 = Inr v"
  shows "ov_id v = ov_id (oo_view o0)" and "ov_status v = ov_status (oo_view o0)" and "ov_secret v = ov_secret (oo_view o0)"
    and "ov_spendable (oo_view o0) = None \<Longrightarrow> ov_spendable v \<noteq> None \<longleftrightarrow> \<not> oo_spent o0 \<and> oo_confirmed o0"
  using assms by (auto simp: output_view_def Let_def split: sum.splits if_splits)

text \<open>What a line of the listing says of the log.\<close>

definition line_ok :: "('x, 'z) env_scheme \<Rightarrow> swap \<Rightarrow> event list \<Rightarrow> swap_log \<Rightarrow> swap_output_view \<Rightarrow> bool" where
  "line_ok E sw hist l v \<longleftrightarrow>
     (ov_status v = ''claimed'' \<longrightarrow> spent_by E sw l (ov_id v) True ''claim'' (ov_secret v)) \<and>
     (ov_status v = ''refunded'' \<longrightarrow> spent_by E sw l (ov_id v) True ''refund'' (ov_secret v)) \<and>
     (ov_secret v \<noteq> [] \<longrightarrow> (\<exists>c preimage. spent_by E sw l (ov_id v) c ''claim'' (ov_secret v) \<and>
        ov_secret v = hex_encode preimage \<and> sha256 preimage = s_secret_hash sw)) \<and>
     (causal E sw (log_of True (rev hist)) \<longrightarrow>
        (ov_spendable v \<noteq> None \<longleftrightarrow> ov_id v \<in> payments E sw True l - spends E sw l))"

lemma listed_line:
  assumes ok: "map_ok E sw l m" and entry: "map_of m did = Some o0" and view: "output_view E cs o0 = Inr v"
    and seen: "causal E sw (log_of True (rev hist)) \<Longrightarrow> spent_seen E sw l m"
  shows "ov_id v = did" and "line_ok E sw hist l v"
proof -
  have e: "entry_ok E sw l did o0" using map_ok_lookup(2) [OF ok entry] .
  note fields = output_view_fields [OF view]
  show did: "ov_id v = did" using e fields(1) by (simp add: entry_ok_def)
  have "\<exists>preimage. ov_secret v = hex_encode preimage \<and> sha256 preimage = s_secret_hash sw"
    if "spent_by E sw l did c ''claim'' (ov_secret v)" "ov_secret v \<noteq> []" for c
    using that classify_kinds(3) unfolding spent_by_def by (force simp: swap_contract_of_def)
  moreover have "ov_spendable v \<noteq> None \<longleftrightarrow> did \<in> payments E sw True l - spends E sw l"
    if "causal E sw (log_of True (rev hist))"
  proof -
    have "oo_spent o0 \<longleftrightarrow> did \<in> spends E sw l"
      using seen [OF that] entry e by (auto simp: spent_seen_def entry_ok_def)
    then show ?thesis using fields(4) e by (auto simp: entry_ok_def)
  qed
  ultimately show "line_ok E sw hist l v"
    using e did fields(2,3) unfolding line_ok_def entry_ok_def by metis
qed

lemma log_of_flag: "x \<in> set (log_of c evs) \<Longrightarrow> fst x = c"
  by (auto simp: log_of_def)

lemma empty_map_ok: "map_ok E sw [] []" "spent_seen E sw [] []" "all_confirmed []"
  by (simp_all add: map_ok_def mentions_def payments_def spends_def about_def spent_seen_def all_confirmed_def)

lemma observed_log_ok:
  assumes "m = fold (observe_transaction E sw False) pool (fold (observe_transaction E sw True) (rev hist) [])"
  shows "map_ok E sw (log_of True (rev hist) @ log_of False pool) m"
    and "causal E sw (log_of True (rev hist)) \<Longrightarrow> spent_seen E sw (log_of True (rev hist) @ log_of False pool) m"
proof -
  let ?l1 = "log_of True (rev hist)" and ?l2 = "log_of False pool"
  have m: "m = fold (observe_item E sw) ?l2 (fold (observe_item E sw) ?l1 [])"
    using assms by (simp add: observe_transactions_log)
  have one: "map_ok E sw ?l1 (fold (observe_item E sw) ?l1 [])" using observe_log [OF empty_map_ok(1), of E sw ?l1] by simp
  then show "map_ok E sw (?l1 @ ?l2) m" unfolding m by (rule observe_log)
  show "spent_seen E sw (?l1 @ ?l2) m" if "causal E sw ?l1"
  proof -
    have "spent_seen E sw ?l1 (fold (observe_item E sw) ?l1 [])"
      using confirmed_log [of E sw "[]" ?l1 "[]"] that empty_map_ok log_of_flag by fastforce
    with one show ?thesis unfolding m by (intro unconfirmed_log) (use log_of_flag in fastforce)
  qed
qed

text \<open>
  C20. The listing of a swap shows the outputs of the contract as chain and pool tell: each output that
  pays the contract's address, or is spent from it, is listed exactly once; an output is reported
  as claimed or refunded only if a confirmed transaction spends it by that branch of the contract;
  every secret shown is the preimage of the contract's hash lock, taken from a claim of that
  output; and when no output is spent before it is paid, an output is offered as spendable exactly
  if a confirmed transaction paid it and none, confirmed or not, spends it.
\<close>

theorem swap_outputs_rebuilt:
  assumes laws: "slice_laws E" "order_laws E"
    and hist: "address_history E (s_address sw) hist" and pool: "pool_events E (s_address sw) pool"
    and run: "observed_swap_outputs E sw s = (Ok views, t)"
  shows "distinct (map ov_id views) \<and>
    set (map ov_id views) = mentions E sw (log_of True (rev hist) @ log_of False pool) \<and>
    list_all (line_ok E sw hist (log_of True (rev hist) @ log_of False pool)) views"
proof -
  let ?l = "log_of True (rev hist) @ log_of False pool"
  define m where "m = fold (observe_transaction E sw False) pool (fold (observe_transaction E sw True) (rev hist) [])"
  from run obtain cs order lines u where order: "mset order = mset (map fst m)"
    and lines: "scan_rows (\<lambda>did. output_view E cs (the (map_of m did))) order = Inr lines"
    and views: "views = sort_elements E output_before lines"
    unfolding observed_swap_outputs_def Let_def
  proof (elim bnd_OkE)
    fix cs s1 scan s2 u s3 confirmed s4 indexed s5 changed s6 u' s7 unconfirmed s8 order s9 lines s10
    assume "loop (history_step E sw) (0, []) s3 = (Ok confirmed, s4)"
    then have "confirmed = hist" using history_read [OF hist] by blast
    moreover assume "ext_sum (wm_unconfirmed E (s_address sw)) s7 = (Ok unconfirmed, s8)"
    then have "unconfirmed = pool" using pool unfolding pool_events_def ext_sum_Ok_iff by (metis fst_conv sum.inject(2))
    moreover assume "ext (map_order E (map fst (fold (observe_transaction E sw False) unconfirmed
      (fold (observe_transaction E sw True) (rev confirmed) [])))) s8 = (Ok order, s9)"
    moreover assume "lift_sum (scan_rows (\<lambda>did. output_view E cs (the (map_of (fold (observe_transaction E sw False) unconfirmed
      (fold (observe_transaction E sw True) (rev confirmed) [])) did))) order) s9 = (Ok lines, s10)"
    moreover assume "ret (sort_elements E output_before lines) s10 = (Ok views, t)"
    ultimately show thesis
      using laws(2) by (intro that [of order cs lines]) (auto simp: ext_Ok_iff lift_sum_Ok_iff order_laws_def m_def)
  qed
  note ok = observed_log_ok [OF m_def]
  have keys: "set order = fst ` set m" "distinct order"
    using order mset_eq_setD [OF order] mset_eq_imp_distinct_iff [OF order] ok(1) unfolding map_ok_def by simp_all
  have each: "list_all2 (\<lambda>did v. ov_id v = did \<and> line_ok E sw hist ?l v) order lines"
    using lines [unfolded scan_rows_iff]
  proof (rule list.rel_mono_strong)
    fix did v assume "did \<in> set order" and view: "output_view E cs (the (map_of m did)) = Inr v"
    then obtain o0 where "map_of m did = Some o0" using keys(1) by (metis map_of_eq_None_iff not_None_eq)
    with view listed_line [OF ok(1) this _ ok(2), of cs v hist] show "ov_id v = did \<and> line_ok E sw hist ?l v" by simp
  qed
  then have ids: "map ov_id lines = order" by (induction rule: list_all2_induct) simp_all
  have all: "list_all (line_ok E sw hist ?l) lines" using each by (induction rule: list_all2_induct) simp_all
  have perm: "mset views = mset lines" unfolding views by (rule sort_laws_mset [OF slice_sort [OF laws(1)]])
  then have "mset (map ov_id views) = mset order" using ids by (metis mset_map)
  moreover have "list_all (line_ok E sw hist ?l) views"
    using all perm by (metis list.pred_set mset_eq_setD)
  ultimately show ?thesis
    using keys ok(1) by (metis map_ok_def mset_eq_imp_distinct_iff mset_eq_setD)
qed

section \<open>Example: a contract that was claimed\<close>

definition sample_secret :: bytes where
  "sample_secret = replicate 32 3"

definition sample_lock :: bytes where
  "sample_lock = sha256 sample_secret"

definition sample_swap :: swap where
  "sample_swap = \<lparr>s_swap = ''swap-1'', s_role = ''recipient'', s_recipient = sample_keys,
     s_refund = \<lparr>classical = replicate 32 4, reserve = replicate 32 5\<rparr>, s_secret_hash = sample_lock,
     s_refund_height = 100, s_address = sample_lock, s_created = 0\<rparr>"

definition sample_contract_output :: siacoin_element where
  "sample_contract_output = \<lparr>se_id = [9, 0], se_state = [],
     se_output = \<lparr>so_value = 500, so_address = sample_lock\<rparr>, se_maturity = 0\<rparr>"

definition sample_claim_input :: v2input where
  "sample_claim_input = \<lparr>in_parent = sample_contract_output, in_satisfied = \<lparr>sp_policy =
     PolicyThreshold 1 [PolicyThreshold 3 [PolicyNil, PolicyNil, PolicyHash sample_lock], PolicyOpaque []],
     sp_signatures = [], sp_preimages = [sample_secret]\<rparr>\<rparr>"

definition sample_event :: "v2input list \<Rightarrow> siacoin_output list \<Rightarrow> event" where
  "sample_event ins outs = \<lparr>ev_id = [9], ev_index = sample_index, ev_confirmations = 1, ev_type = ''v2Transaction'',
     ev_data = EventV2Transaction \<lparr>tx_inputs = ins, tx_outputs = outs, tx_fee = 0, tx_arbitrary = [], tx_rest = []\<rparr>,
     ev_maturity = 10, ev_timestamp = 0\<rparr>"

definition sample_swap_history :: "event list" where
  "sample_swap_history = [sample_event [sample_claim_input] [], sample_event [] [se_output sample_contract_output]]"

definition sample_swap_env :: "unit env" where
  "sample_swap_env = (sample_env [] [])\<lparr>policy_address := (\<lambda>p. [8]), is_swap_spend_policy := (\<lambda>p. True),
     wm_address_events := (\<lambda>a k n w. (Inr (take n (drop k sample_swap_history)), w))\<rparr>"

lemma sample_swap_laws: "slice_laws sample_swap_env" "order_laws sample_swap_env"
  "address_history sample_swap_env a sample_swap_history" "pool_events sample_swap_env a []"
  using sample_slice_laws [of "[]" "[]"]
  by (simp_all add: slice_laws_def order_laws_def address_history_def pool_events_def sample_swap_env_def)

lemma sample_swap_classified:
  "classify_swap_spend sample_swap_env (swap_contract_of sample_swap) sample_claim_input = (''claim'', hex_encode sample_secret)"
  by (simp add: classify_swap_spend_def classify_lock_def sample_claim_input_def sample_swap_env_def
      swap_contract_of_def sample_swap_def sample_lock_def)

definition sample_entry :: observed_output where
  "sample_entry = \<lparr>oo_view = \<lparr>ov_id = bytes_text [9, 0], ov_value = \<lparr>am_atomic = decimal_digits 500, am_qday = []\<rparr>,
      ov_spendable = None, ov_maturity = 10, ov_funding_txn = bytes_text [9], ov_funding_height = Some 10,
      ov_confirmations = 1, ov_status = ''claimed'', ov_spend_txn = bytes_text [9], ov_spend_height = Some 10,
      ov_secret = hex_encode sample_secret\<rparr>, oo_confirmed = True, oo_spent = True\<rparr>"

lemma sample_observed:
  "fold (observe_transaction sample_swap_env sample_swap True) (rev sample_swap_history) [] = [(bytes_text [9, 0], sample_entry)]"
proof -
  have addr: "s_address sample_swap = sample_lock" by (simp add: sample_swap_def)
  have "observe_transaction sample_swap_env sample_swap True (sample_event [] [se_output sample_contract_output]) [] =
      [(bytes_text [9, 0], sample_entry\<lparr>oo_view := (oo_view sample_entry)\<lparr>ov_status := ''funded'', ov_spend_txn := [],
        ov_spend_height := None, ov_secret := []\<rparr>, oo_spent := False\<rparr>)]"
    by (simp add: observe_transaction_def sample_event_def observe_funding_def addr sample_contract_output_def
        funding_view_def atomic_amount_def sample_swap_env_def sample_entry_def sample_index_def Let_def)
  moreover have "observe_transaction sample_swap_env sample_swap True (sample_event [sample_claim_input] [])
      [(bytes_text [9, 0], sample_entry\<lparr>oo_view := (oo_view sample_entry)\<lparr>ov_status := ''funded'', ov_spend_txn := [],
        ov_spend_height := None, ov_secret := []\<rparr>, oo_spent := False\<rparr>)] = [(bytes_text [9, 0], sample_entry)]"
  proof -
    have parent: "in_parent sample_claim_input = sample_contract_output" by (simp add: sample_claim_input_def)
    have env: "output_id_string sample_swap_env = bytes_text" "id_string sample_swap_env = bytes_text"
      "txn_id sample_swap_env = (\<lambda>t. [9])"
      by (simp_all add: sample_swap_env_def)
    show ?thesis
      by (simp add: observe_transaction_def sample_event_def observe_spend_def addr parent sample_contract_output_def
        spent_view_def env sample_swap_classified sample_entry_def sample_index_def Let_def)
  qed
  ultimately show ?thesis by (simp add: sample_swap_history_def)
qed

definition sample_line :: swap_output_view where
  "sample_line = (oo_view sample_entry)\<lparr>ov_value := amount_of sample_swap_env 500 1\<rparr>"

lemma sample_listing: "observed_swap_outputs sample_swap_env sample_swap sample_sys = (Ok [sample_line], sample_sys)"
proof -
  have env: "cm_tip_state sample_swap_env = (\<lambda>w. (sample_cs, w))" "wm_tip sample_swap_env = (\<lambda>w. (Inr sample_index, w))"
    "cm_tip sample_swap_env = (\<lambda>w. (sample_index, w))" "cs_index sample_cs = sample_index"
    "wm_unconfirmed sample_swap_env = (\<lambda>a w. (Inr [], w))" "map_order sample_swap_env = (\<lambda>ks w. (ks, w))"
    "wm_address_events sample_swap_env = (\<lambda>a k n w. (Inr (take n (drop k sample_swap_history)), w))"
    "cur_parse sample_swap_env = sample_parse" "qday_units sample_swap_env = (\<lambda>cs h. 1)"
    by (simp_all add: sample_swap_env_def sample_cs_def)
  have sort: "sort_elements sample_swap_env lt [v] = [v]" for lt and v :: swap_output_view
    by (simp add: sort_elements_def sample_swap_env_def insertion_sort_def)
  have world: "sample_sys\<lparr>world := ()\<rparr> = sample_sys" by simp
  have "history_step sample_swap_env sample_swap (0, []) sample_sys = (Ok (Inr sample_swap_history), sample_sys)"
    by (simp add: history_step_def bnd_def ext_sum_def ext_def env world page_size_def max_events_def sample_swap_history_def)
  then have loop: "loop (history_step sample_swap_env sample_swap) (0, []) sample_sys = (Ok sample_swap_history, sample_sys)"
    by (rule loop_done)
  have view: "output_view sample_swap_env sample_cs sample_entry = Inr sample_line"
    by (simp add: output_view_def sample_entry_def env sample_parse_def sample_line_def)
  show ?thesis
    by (simp add: observed_swap_outputs_def bnd_def ext_sum_def ext_def guard_err_def env world loop sample_observed view sort)
qed

theorem swap_outputs_rebuilt_witness:
  "spent_by sample_swap_env sample_swap (log_of True (rev sample_swap_history) @ log_of False []) (bytes_text [9, 0])
     True ''claim'' (hex_encode sample_secret)"
  using swap_outputs_rebuilt [OF sample_swap_laws sample_listing]
  by (simp add: line_ok_def sample_line_def sample_entry_def)

section \<open>The status of a swap\<close>

text \<open>
  What the status of a swap should be, said without a loop: the first output that is settled decides;
  without one, the last output that is being settled; otherwise the contract is funded when any
  output is, it is being funded when an output or the funding action is on its way, and it waits.
\<close>

definition settled :: "string \<Rightarrow> bool" where
  "settled st \<longleftrightarrow> st \<in> {''claimed'', ''refunded''}"

definition settling :: "string \<Rightarrow> bool" where
  "settling st \<longleftrightarrow> st \<in> {''claiming'', ''refunding''}"

definition open_of :: "string set \<Rightarrow> swap_action_view list \<Rightarrow> string" where
  "open_of sts actions =
     (if ''funded'' \<in> sts then ''funded''
      else if ''funding'' \<in> sts \<or> (\<exists>c\<in>set actions. xv_kind c = ''fund'' \<and> xv_status c \<noteq> ''confirmed'')
      then ''funding'' else ''waiting'')"

definition status_of :: "string list \<Rightarrow> swap_action_view list \<Rightarrow> string" where
  "status_of sts actions =
     (case filter settled sts of st # _ \<Rightarrow> st
      | [] \<Rightarrow> (case filter settling sts of [] \<Rightarrow> open_of (set sts) actions | pending \<Rightarrow> last pending))"

lemma outputs_status_settled: "filter settled (map ov_status vs) = st # rest \<Longrightarrow> outputs_status status vs = st"
  by (induction vs arbitrary: status) (auto simp: settled_def settling_def split: if_splits)

lemma outputs_status_settling:
  "filter settled (map ov_status vs) = [] \<Longrightarrow> settling status \<Longrightarrow>
    outputs_status status vs = last (status # filter settling (map ov_status vs))"
  by (induction vs arbitrary: status) (auto simp: settled_def settling_def split: if_splits)

lemma outputs_status_open:
  assumes "filter settled (map ov_status vs) = []" and "status \<in> {''waiting'', ''funding'', ''funded''}"
  shows "outputs_status status vs =
    (if filter settling (map ov_status vs) \<noteq> [] then last (filter settling (map ov_status vs))
     else if status = ''funded'' \<or> ''funded'' \<in> ov_status ` set vs then ''funded''
     else if status = ''funding'' \<or> ''funding'' \<in> ov_status ` set vs then ''funding'' else ''waiting'')"
  using assms
proof (induction vs arbitrary: status)
  case (Cons v vs)
  have no: "filter settled (map ov_status vs) = []" "\<not> settled (ov_status v)"
    using Cons.prems(1) by (auto split: if_splits)
  show ?case
  proof (cases "settling (ov_status v)")
    case True
    then have "outputs_status status (v # vs) = outputs_status (ov_status v) vs"
      using no(2) by (auto simp: settled_def settling_def)
    then show ?thesis using outputs_status_settling [OF no(1) True] True by simp
  next
    case False
    then have "outputs_status status (v # vs) = outputs_status
      (if ov_status v = ''funded'' \<and> status \<noteq> ''funded'' then ''funded''
       else if ov_status v = ''funding'' \<and> status = ''waiting'' then ''funding'' else status) vs"
      using no(2) Cons.prems(2) by (auto simp: settled_def settling_def)
    with False Cons.IH [OF no(1)] Cons.prems(2) show ?thesis by auto
  qed
qed auto

text \<open>
  C21. The status of a swap is the documented summary of its outputs and of the funding action.
\<close>

theorem swap_status_summary:
  "aggregate_swap_status outputs actions = status_of (map ov_status outputs) actions"
proof (cases "filter settled (map ov_status outputs)")
  case Nil
  have "open_status actions \<in> {''waiting'', ''funding'', ''funded''}" by (simp add: open_status_def)
  from outputs_status_open [OF Nil this] Nil show ?thesis
    by (auto simp: aggregate_swap_status_def status_of_def open_of_def open_status_def split: list.split)
next
  case (Cons st rest)
  then show ?thesis
    using outputs_status_settled [OF Cons] by (simp add: aggregate_swap_status_def status_of_def)
qed

end
