(* ===== verification/Swap_Register.thy ===== *)
theory Swap_Register
  imports Swap_Facts Swap_View_Facts
begin

text \<open>
  Registration: a swap identifier is bound to one contract, whose address is the one its terms
  give, with the session keys of the daemon on its own side.
\<close>

section \<open>What a view shows of the contract\<close>

definition shows_swap :: "('x, 'z) env_scheme \<Rightarrow> swap \<Rightarrow> swap_view \<Rightarrow> bool" where
  "shows_swap E sw v \<longleftrightarrow> vv_swap v = s_swap sw \<and> vv_role v = s_role sw \<and>
     vv_recipient v = view_swap_keys E (s_recipient sw) \<and> vv_refund v = view_swap_keys E (s_refund sw) \<and>
     vv_secret_hash v = hex_encode (s_secret_hash sw) \<and> vv_refund_height v = s_refund_height sw \<and>
     vv_address v = qaddr_string E (s_address sw)"

lemma view_swap_ok: "oks (shows_swap E sw) (view_swap E sw)"
  unfolding view_swap_def by (intro oks_intros) (simp add: shows_swap_def)

lemma shows_swap_same: "same_swap a b \<Longrightarrow> shows_swap E a = shows_swap E b"
  by (simp add: shows_swap_def same_swap_def fun_eq_iff)

section \<open>Rows\<close>

lemma decode_keys_full: "decode_qday_keys E raw = Inr k \<Longrightarrow> full_keys k"
  by (auto simp: decode_qday_keys_def full_keys_def Let_def split: if_splits option.splits)

lemma decode_keys_bytes:
  assumes "codec_laws E" and "full_keys k" and "decode_qday_keys E (keys_bytes E k) = Inr k'"
  shows "k' = k"
  using assms(2,3) codec_lawsD(5) [OF assms(1), of k] qkeys_split
  by (auto simp: decode_qday_keys_def full_keys_def Let_def split: if_splits option.splits)

lemma scan_swap_row:
  assumes laws: "codec_laws E" and full: "full_keys (s_recipient sw)" "full_keys (s_refund sw)"
    and h: "sql_uint64 (s_refund_height sw) = Inr h" and scan: "scan_swap E (swap_row_of E sw h) = Inr old"
  shows "same_swap old sw"
proof -
  from scan obtain a b addr where a: "decode_qday_keys E (keys_bytes E (s_recipient sw)) = Inr a"
    and b: "decode_qday_keys E (keys_bytes E (s_refund sw)) = Inr b"
    and addr: "parse_qaddr E (qaddr_string E (s_address sw)) = Inr addr"
    and old: "s_swap old = s_swap sw" "s_role old = s_role sw" "s_recipient old = a" "s_refund old = b"
      "s_secret_hash old = s_secret_hash sw" "s_refund_height old = s_refund_height sw" "s_address old = addr"
    using scan_sql_uint64 [OF h] by (auto simp: scan_swap_def swap_row_of_def split: sum.splits if_splits)
  with decode_keys_bytes [OF laws full(1) a] decode_keys_bytes [OF laws full(2) b] codec_lawsD(1) [OF laws]
  show ?thesis by (simp add: same_swap_def)
qed

lemma add_swap_ok:
  assumes "add_swap E sw s = (Ok (), t)"
  obtains h where "sql_uint64 (s_refund_height sw) = Inr h"
    and "swap_constraints (t_swap_keys (tables s)) (t_swaps (tables s)) (swap_row_of E sw h)"
    and "frame (s\<lparr>tables := (tables s)\<lparr>t_swaps := t_swaps (tables s) @ [swap_row_of E sw h]\<rparr>\<rparr>) t"
  using assms unfolding add_swap_def Let_def
  by (elim bnd_OkE) (auto simp: lift_sum_Ok_iff guard_err_Ok_iff statement_Ok_iff frame_def)

section \<open>The contract of a request\<close>

text \<open>The terms a request stands for, at the state \<open>s\<close>.\<close>

definition stands_for :: "('x, 'z) env_scheme \<Rightarrow> register_request \<Rightarrow> 'x sys \<Rightarrow> swap \<Rightarrow> bool" where
  "stands_for E rq s sw \<longleftrightarrow> (\<exists>own other row.
     s_swap sw = rg_swap rq \<and> s_role sw = rg_role rq \<and> rg_role rq \<in> {''recipient'', ''refund''} \<and>
     key_tab.lookup (rg_swap rq) (t_swap_keys (tables s)) = Some row \<and> map_sum id k_public (scan_swap_key E row) = Inr own \<and>
     parse_swap_keys E ''counterparty'' (rg_counterparty rq) = Inr other \<and>
     (s_recipient sw, s_refund sw) = (if rg_role rq = ''recipient'' then (own, other) else (other, own)) \<and>
     rg_secret_hash rq = hex_encode (s_secret_hash sw) \<and> s_refund_height sw = rg_refund_height rq \<and>
     contract_address E (swap_contract_of sw) = Inr (s_address sw))"

lemma stands_for_full: "stands_for E rq s sw \<Longrightarrow> full_keys (s_recipient sw) \<and> full_keys (s_refund sw)"
proof -
  assume "stands_for E rq s sw"
  then obtain own other row where key: "map_sum id k_public (scan_swap_key E row) = Inr own"
    and other: "parse_swap_keys E ''counterparty'' (rg_counterparty rq) = Inr other"
    and sides: "(s_recipient sw, s_refund sw) = (if rg_role rq = ''recipient'' then (own, other) else (other, own))"
    unfolding stands_for_def by blast
  have "full_keys own" using key decode_keys_full by (auto simp: scan_swap_key_def split: sum.splits)
  moreover have "full_keys other" using other by (auto simp: parse_swap_keys_iff full_keys_def)
  ultimately show ?thesis using sides by (auto split: if_splits)
qed

lemma draft_stands_for:
  assumes role: "rg_role rq \<in> {''recipient'', ''refund''}"
    and row: "key_tab.lookup (rg_swap rq) (t_swap_keys (tables s)) = Some row" "scan_swap_key E row = Inr own"
    and other: "parse_swap_keys E ''counterparty'' (rg_counterparty rq) = Inr counterparty"
    and hash: "parse_hash ''secretHash'' (rg_secret_hash rq) = Inr hash"
    and addr: "contract_address E (swap_contract_of (draft_swap rq (k_public own) counterparty hash tm)) = Inr addr"
  shows "stands_for E rq s ((draft_swap rq (k_public own) counterparty hash tm)\<lparr>s_address := addr\<rparr>)"
proof -
  have "rg_secret_hash rq = hex_encode hash" using hash by (simp add: parse_hash_iff)
  moreover have "map_sum id k_public (scan_swap_key E row) = Inr (k_public own)" using row(2) by simp
  ultimately show ?thesis
    unfolding stands_for_def using role row(1) other addr
    by (intro exI [of _ "k_public own"] exI [of _ counterparty] exI [of _ row])
      (auto simp: draft_swap_def Let_def swap_contract_of_def)
qed

text \<open>The run of a registration that succeeds.\<close>

lemma register_run:
  assumes "register_swap E rq s = (Ok (v, created), t)"
  obtains sw s1 existing s2 where "stands_for E rq s sw" and "frame s s1"
    and "swap_get E (rg_swap rq) s1 = (Ok existing, s2)"
    and "(case existing of
           Some old \<Rightarrow>
             bnd (guard_err (\<not> same_swap old sw) (Swp BoundContract)) (\<lambda>_.
             bnd (watch_swap E old) (\<lambda>_.
             bnd (view_swap E old) (\<lambda>view. ret (view, False))))
         | None \<Rightarrow>
             bnd (add_swap E sw) (\<lambda>_.
             bnd (watch_swap E sw) (\<lambda>_.
             bnd (view_swap E sw) (\<lambda>view. ret (view, True))))) s2 = (Ok (v, created), t)"
  using assms unfolding register_swap_def Let_def
proof (elim bnd_OkE, goal_cases)
  case (1 x s1 y s2 counterparty s3 hash s4 found s5)
  then have st: "s4 = s" and role: "rg_role rq \<in> {''recipient'', ''refund''}"
    and other: "parse_swap_keys E ''counterparty'' (rg_counterparty rq) = Inr counterparty"
    and hash: "parse_hash ''secretHash'' (rg_secret_hash rq) = Inr hash"
    by (auto simp: lift_sum_Ok_iff guard_err_Ok_iff)
  from 1(7) obtain own where found: "found = Some own" by (cases found) auto
  obtain row where row: "key_tab.lookup (rg_swap rq) (t_swap_keys (tables s)) = Some row" "scan_swap_key E row = Inr own"
    using swap_key_get_ok [OF 1(6)] st found by (auto split: option.splits)
  have fr: "frame s s5" using evolvesD [OF frame_swap_reads(1) 1(6)] st by simp
  from 1(7) show ?case
    unfolding found option.case
  proof (elim bnd_OkE, goal_cases)
    case (1 tm s6 addr s7 existing s8)
    then have addr: "contract_address E (swap_contract_of (draft_swap rq (k_public own) counterparty hash tm)) = Inr addr"
      and "s7 = s6" by (auto simp: lift_sum_Ok_iff)
    moreover have "frame s s6" using fr evolvesD [OF frame_ext 1(1)] by (rule frame.le_trans)
    ultimately show ?case
      using 1(3,4) that [OF draft_stands_for [OF role row other hash addr]] by blast
  qed
qed

lemma register_swap_new:
  assumes "register_swap E rq s = (Ok (v, True), t)"
  obtains sw h where "stands_for E rq s sw" and "sql_uint64 (s_refund_height sw) = Inr h" and "shows_swap E sw v"
    and "swap_constraints (t_swap_keys (tables s)) (t_swaps (tables s)) (swap_row_of E sw h)"
    and "frame (s\<lparr>tables := (tables s)\<lparr>t_swaps := t_swaps (tables s) @ [swap_row_of E sw h]\<rparr>\<rparr>) t"
proof -
  obtain sw s1 existing s2 where sw: "stands_for E rq s sw" and f1: "frame s s1"
    and get: "swap_get E (rg_swap rq) s1 = (Ok existing, s2)"
    and rest: "(case existing of
           Some old \<Rightarrow>
             bnd (guard_err (\<not> same_swap old sw) (Swp BoundContract)) (\<lambda>_.
             bnd (watch_swap E old) (\<lambda>_.
             bnd (view_swap E old) (\<lambda>view. ret (view, False))))
         | None \<Rightarrow>
             bnd (add_swap E sw) (\<lambda>_.
             bnd (watch_swap E sw) (\<lambda>_.
             bnd (view_swap E sw) (\<lambda>view. ret (view, True))))) s2 = (Ok (v, True), t)"
    by (rule register_run [OF assms])
  have none: "existing = None" using rest by (cases existing) (auto simp: bnd_Ok_iff)
  have f2: "frame s s2" using f1 evolvesD [OF frame_swap_reads(2) get] by (rule frame.le_trans)
  from rest none obtain s3 x s4 where add: "add_swap E sw s2 = (Ok (), s3)" and w: "watch_swap E sw s3 = (Ok x, s4)"
    and view: "view_swap E sw s4 = (Ok v, t)"
    by (auto simp: bnd_Ok_iff)
  from add_swap_ok [OF add] obtain h where h: "sql_uint64 (s_refund_height sw) = Inr h"
    and con: "swap_constraints (t_swap_keys (tables s2)) (t_swaps (tables s2)) (swap_row_of E sw h)"
    and f3: "frame (s2\<lparr>tables := (tables s2)\<lparr>t_swaps := t_swaps (tables s2) @ [swap_row_of E sw h]\<rparr>\<rparr>) s3" .
  have "frame s3 t" using evolvesD [OF watch_swap_frame w] evolvesD [OF view_swap_frame view] by (rule frame.le_trans)
  with f2 f3 con show thesis
    by (intro that [OF sw h oksD [OF view_swap_ok view]]) (auto simp: frame_def)
qed

lemma register_swap_known:
  assumes known: "swap_tab.lookup (rg_swap rq) (t_swaps (tables s)) = Some row"
    and run: "register_swap E rq s = (r, t)"
  shows "frame s t"
    and "\<And>v b. r = Ok (v, b) \<Longrightarrow> \<not> b \<and> (\<exists>old sw. scan_swap E row = Inr old \<and> shows_swap E old v \<and>
      stands_for E rq s sw \<and> same_swap old sw)"
proof -
  let ?J = "\<lambda>s :: 'a sys. swap_tab.lookup (rg_swap rq) (t_swaps (tables s)) = Some row"
  have J: "stable ?J" by (simp add: stable_def frame_def)
  have found: "swap_get E (rg_swap rq) u \<noteq> (Ok None, u')" if "?J u" for u u'
    using swap_get_ok [of E "rg_swap rq" u None u'] that by auto
  have "quiet ?J (register_swap E rq)"
    unfolding register_swap_def Let_def
    apply (rule quiet_bnd [OF J], intro frame_intros)+
    apply (rule quiet_bnd [OF J], rule frame_swap_reads)
    apply (rule quiet_option, intro quiet_frame frame_intros)
    apply (rule quiet_bnd [OF J], intro frame_intros)+
    apply (rule quiet_found [OF J frame_swap_reads(2) found], assumption)
    apply (intro quiet_frame frame_intros watch_swap_frame view_swap_frame)
    done
  then show "frame s t" using known run by (rule quietD)
  fix v b assume r: "r = Ok (v, b)"
  obtain sw s1 existing s2 where sw: "stands_for E rq s sw" and f1: "frame s s1"
    and get: "swap_get E (rg_swap rq) s1 = (Ok existing, s2)"
    and rest: "(case existing of
           Some old \<Rightarrow>
             bnd (guard_err (\<not> same_swap old sw) (Swp BoundContract)) (\<lambda>_.
             bnd (watch_swap E old) (\<lambda>_.
             bnd (view_swap E old) (\<lambda>view. ret (view, False))))
         | None \<Rightarrow>
             bnd (add_swap E sw) (\<lambda>_.
             bnd (watch_swap E sw) (\<lambda>_.
             bnd (view_swap E sw) (\<lambda>view. ret (view, True))))) s2 = (Ok (v, b), t)"
    by (rule register_run [OF run [unfolded r]])
  have "swap_tab.lookup (rg_swap rq) (t_swaps (tables s1)) = Some row" using known f1 by (simp add: frame_def)
  with swap_get_ok [OF get] obtain old where old: "scan_swap E row = Inr old" "existing = Some old" by auto
  with rest obtain x where "same_swap old sw" "\<not> b" and view: "view_swap E old x = (Ok v, t)"
    by (auto simp: bnd_Ok_iff guard_err_Ok_iff)
  with old sw oksD [OF view_swap_ok view]
  show "\<not> b \<and> (\<exists>old sw. scan_swap E row = Inr old \<and> shows_swap E old v \<and> stands_for E rq s sw \<and> same_swap old sw)"
    by blast
qed

text \<open>
  C19. A swap identifier is bound to one contract. A registration that is carried out adds one row, for
  the contract the request stands for: the daemon's session keys on its own side, the counterparty's
  on the other, the hash lock and the refund height of the request, and the address these terms give.
  Every later registration under the identifier, at any later state, stores nothing; when it succeeds
  it stands for the same contract and shows the same contract.
\<close>

theorem swap_registered_once:
  assumes laws: "codec_laws E" and run: "register_swap E rq s = (Ok (v, True), t)"
    and later: "store_le t u" "rg_swap rq' = rg_swap rq" "register_swap E rq' u = (r, w)"
  shows "\<exists>sw h. stands_for E rq s sw \<and> shows_swap E sw v \<and>
    t_swaps (tables t) = t_swaps (tables s) @ [swap_row_of E sw h] \<and> h = uint (rg_refund_height rq) \<and>
    frame u w \<and> (\<forall>v' b. r = Ok (v', b) \<longrightarrow> \<not> b \<and> shows_swap E sw v' \<and> (\<exists>sw'. stands_for E rq' u sw' \<and> same_swap sw' sw))"
proof -
  obtain sw h where sw: "stands_for E rq s sw" and h: "sql_uint64 (s_refund_height sw) = Inr h" and v: "shows_swap E sw v"
    and con: "swap_constraints (t_swap_keys (tables s)) (t_swaps (tables s)) (swap_row_of E sw h)"
    and fr: "frame (s\<lparr>tables := (tables s)\<lparr>t_swaps := t_swaps (tables s) @ [swap_row_of E sw h]\<rparr>\<rparr>) t"
    by (rule register_swap_new [OF run])
  let ?row = "swap_row_of E sw h"
  have id: "sr_swap ?row = rg_swap rq'" using sw later(2) by (auto simp: swap_row_of_def stands_for_def)
  have rows: "t_swaps (tables t) = t_swaps (tables s) @ [?row]" using fr by (simp add: frame_def)
  have "swap_tab.lookup (rg_swap rq') (t_swaps (tables t)) = Some ?row"
    using swap_tab.lookup_inserted [OF con] id rows by simp
  moreover have "prefix (t_swaps (tables t)) (t_swaps (tables u))" using later(1) by (simp add: store_le_def tables_le_def)
  ultimately have look: "swap_tab.lookup (rg_swap rq') (t_swaps (tables u)) = Some ?row"
    using swap_tab.lookup_lasting [of "\<lambda>r. r" "t_swaps (tables t)" "t_swaps (tables u)" "rg_swap rq'" ?row] by simp
  note known = register_swap_known [OF look later(3)]
  have "\<not> b \<and> shows_swap E sw v' \<and> (\<exists>sw'. stands_for E rq' u sw' \<and> same_swap sw' sw)" if r: "r = Ok (v', b)" for v' b
  proof -
    from known(2) [OF r] obtain old sw' where "\<not> b" and old: "scan_swap E ?row = Inr old" "shows_swap E old v'"
      and sw': "stands_for E rq' u sw'" "same_swap old sw'" by blast
    have same: "same_swap old sw" using scan_swap_row [OF laws _ _ h old(1)] stands_for_full [OF sw] by blast
    with sw'(2) have "same_swap sw' sw" by (simp add: same_swap_def)
    moreover have "shows_swap E sw v'" using old(2) shows_swap_same [OF same, of E] by simp
    ultimately show ?thesis using sw'(1) \<open>\<not> b\<close> by blast
  qed
  moreover have "h = uint (rg_refund_height rq)"
    using h sw by (auto simp: sql_uint64_def stands_for_def split: if_splits)
  ultimately show ?thesis using sw v rows known(1) by blast
qed

end
