(* ===== verification/Swap_Examples.thy ===== *)
theory Swap_Examples
  imports Swap_Register
begin

text \<open>
  The properties of the swap actions at a concrete contract: a daemon that holds the recipient's
  session keys claims one output of 500 units for a fee of 200.
\<close>

section \<open>A claim\<close>

definition sample_key_row :: key_row where
  "sample_key_row = \<lparr>kr_swap = ''swap-1'', kr_public = classical sample_keys @ reserve sample_keys, kr_created = 0\<rparr>"

definition sample_swap_row :: swap_row where
  "sample_swap_row = \<lparr>sr_swap = ''swap-1'', sr_role = ''recipient'', sr_recipient = classical sample_keys @ reserve sample_keys,
     sr_refund = replicate 32 4 @ replicate 32 5, sr_hash = sample_lock, sr_refund_height = 100,
     sr_address = bytes_text sample_lock, sr_created = 0\<rparr>"

definition sample_swap_store :: store where
  "sample_swap_store = empty_store\<lparr>t_swap_keys := [sample_key_row], t_swaps := [sample_swap_row]\<rparr>"

definition sample_swap_sys :: "unit sys" where
  "sample_swap_sys = sample_sys\<lparr>tables := sample_swap_store\<rparr>"

definition sample_claimable :: siacoin_element where
  "sample_claimable = sample_contract_output\<lparr>se_id := [111]\<rparr>"

definition sample_claim :: v2txn where
  "sample_claim = \<lparr>tx_inputs = [\<lparr>in_parent = sample_claimable, in_satisfied = zero_satisfied\<rparr>],
     tx_outputs = [\<lparr>so_value = 300, so_address = classical sample_keys\<rparr>], tx_fee = 200, tx_arbitrary = [1], tx_rest = []\<rparr>"

abbreviation sample_claim_env :: "unit env" where
  "sample_claim_env \<equiv> sample_env [sample_claim] [sample_claimable]"

definition sample_claim_request :: spend_request where
  "sample_claim_request = \<lparr>sq_output = ''o'', sq_fee = ''200'', sq_secret = hex_encode sample_secret\<rparr>"

definition sample_claim_action :: swap_action where
  "sample_claim_action = spend_action sample_claim_env ''swap-1'' ''claim'' [111] sample_cs sample_claim (classical sample_keys) 300 200 0"

definition sample_change_row :: address_row where
  "sample_change_row = sample_row\<lparr>ar_reference := None, ar_kind := ''change''\<rparr>"

definition sample_claimed_store :: store where
  "sample_claimed_store = sample_swap_store\<lparr>t_addresses := [sample_change_row],
     t_actions := [action_row_of sample_claim_env sample_claim_action [0] 10]\<rparr>"

definition sample_claimed_sys :: "unit sys" where
  "sample_claimed_sys = sample_swap_sys\<lparr>tables := sample_claimed_store, wake := True\<rparr>"

lemma sample_swap_get:
  "t_swaps (tables s) = [sample_swap_row] \<Longrightarrow> swap_get (sample_env txns outs) ''swap-1'' s = (Ok (Some sample_swap), s)"
  "t_swap_keys (tables s) = [sample_key_row] \<Longrightarrow> swap_key_get (sample_env txns outs) ''swap-1'' s
    = (Ok (Some \<lparr>k_swap = ''swap-1'', k_public = sample_keys, k_created = 0\<rparr>), s)"
  "t_actions (tables s) = [] \<Longrightarrow> swap_action_get (sample_env txns outs) ''swap-1'' kind outp s = (Ok None, s)"
proof -
  have len: "length sample_lock = 32" by (simp add: sample_lock_def)
  have keys: "length (classical sample_keys) = 32" "length (reserve sample_keys) = 32" by (simp_all add: sample_keys_def)
  show "swap_get (sample_env txns outs) ''swap-1'' s = (Ok (Some sample_swap), s)" if "t_swaps (tables s) = [sample_swap_row]"
    using that keys len
    by (simp add: swap_get_def sample_run world_unit sample_swap_row_def scan_swap_def decode_qday_keys_def
        scan_uint64_def sample_swap_def unix_time_def)
  show "swap_key_get (sample_env txns outs) ''swap-1'' s
    = (Ok (Some \<lparr>k_swap = ''swap-1'', k_public = sample_keys, k_created = 0\<rparr>), s)" if "t_swap_keys (tables s) = [sample_key_row]"
    using that keys
    by (simp add: swap_key_get_def sample_run world_unit sample_key_row_def scan_swap_key_def decode_qday_keys_def
        unix_time_def)
  show "swap_action_get (sample_env txns outs) ''swap-1'' kind outp s = (Ok None, s)" if "t_actions (tables s) = []"
    using that by (simp add: swap_action_get_def sample_run world_unit)
qed

lemma sample_swap_tables [simp]:
  "t_swaps sample_swap_store = [sample_swap_row]" "t_swap_keys sample_swap_store = [sample_key_row]"
  "t_actions sample_swap_store = []"
  by (simp_all add: sample_swap_store_def empty_store_def)

lemma sample_claim_parsed:
  "parse_output_id (sample_env txns outs) (trim_space ''o'') = Some [111]"
  "default_fee (sample_env txns outs) ''200'' = Inr 200"
  "request_secret ''claim'' sample_claim_request = Inr sample_secret"
proof -
  have "segments ''o'' = [(111, ''o'')]" by (simp add: segments.simps decode_rune_def byte_of_def)
  then show "parse_output_id (sample_env txns outs) (trim_space ''o'') = Some [111]"
    by (simp add: trim_space_def is_space_def text_bytes_def)
  show "default_fee (sample_env txns outs) ''200'' = Inr 200"
    by (simp add: default_fee_def parse_positive_currency_def sample_parse_def digits_value_def byte_of_def)
  show "request_secret ''claim'' sample_claim_request = Inr sample_secret"
    by (simp add: request_secret_def sample_claim_request_def parse_hash_iff sample_secret_def)
qed

lemma sample_session: "session_keys (sample_env txns outs) ''swap-1'' sample_swap_sys
    = (Ok \<lparr>pk_public = sample_keys, pk_secret = []\<rparr>, sample_swap_sys)"
  by (simp add: session_keys_def master_seed_def bnd_def sample_swap_sys_def sample_sys_def derive_swap_keys_def
      sample_swap_get session_public_def)

lemma sample_synced: "n_development (the_node s) \<Longrightarrow> synced_state (sample_env txns outs) s = (Ok sample_cs, s)"
  by (simp add: synced_state_def network_synced_def sample_run sample_cs_def)

lemma sample_change:
  "new_address (sample_env txns outs) [] ''change'' sample_swap_sys
    = (Ok (sample_owner\<lparr>a_reference := [], a_kind := ''change''\<rparr>),
       sample_swap_sys\<lparr>tables := sample_swap_store\<lparr>t_addresses := [sample_change_row]\<rparr>\<rparr>)"
  by (simp add: sample_run sample_swap_sys_def sample_state new_address_def sample_swap_store_def
        master_seed_def next_index_def next_value_def scan_uint64_def derive_keys_def add_address_def
        sql_uint64_def address_row_of_def address_constraints_def sample_keys_def register_address_def
        sample_owner_def sample_row_def sample_change_row_def unix_seconds_def numeral_eq_Suc)

lemma sample_found:
  "find_swap_output sample_claim_env sample_swap [111] sample_cs s = (Ok sample_claimable, s)"
proof -
  have "output_page_step sample_claim_env sample_swap [111] sample_cs 0 s = (Ok (Inr sample_claimable), s)"
    by (simp add: output_page_step_def sample_run page_size_def sample_cs_def sample_claimable_def)
  then have "loop (output_page_step sample_claim_env sample_swap [111] sample_cs) 0 s = (Ok sample_claimable, s)"
    by (rule loop_done)
  then show ?thesis by (simp add: find_swap_output_def sample_run pool_spent_def world_unit)
qed

lemma sample_claim_built:
  "build_swap_spend sample_claim_env ServiceCtx sample_cs ''claim'' sample_swap \<lparr>pk_public = sample_keys, pk_secret = []\<rparr>
     sample_secret [111] 200 sample_swap_sys
    = (Ok (sample_claim, classical sample_keys, 300), sample_swap_sys\<lparr>tables := sample_swap_store\<lparr>t_addresses := [sample_change_row]\<rparr>\<rparr>)"
proof -
  have el: "se_maturity sample_claimable = 0" "so_value (se_output sample_claimable) = 500"
    by (simp_all add: sample_claimable_def sample_contract_output_def)
  have cs: "cs_index sample_cs = sample_index" "ci_height sample_index = 10" by (simp_all add: sample_cs_def sample_index_def)
  have owner: "a_address sample_owner = classical sample_keys" by (simp add: sample_owner_def)
  show ?thesis
    by (simp add: build_swap_spend_def bnd_def sample_found el cs guard_err_def sample_change owner
        sign_swap_spend_def ext_sum_def ext_def Let_def sample_claim_def [symmetric])
qed

definition sample_claim_view :: swap_action_view where
  "sample_claim_view = queued_action sample_claim_env 1 sample_claim_action"

lemma sample_claim_journal:
  "journal_swap_action sample_claim_env sample_claim_action
     (sample_swap_sys\<lparr>tables := sample_swap_store\<lparr>t_addresses := [sample_change_row]\<rparr>\<rparr>)
    = (Ok (sample_claim_view, True), sample_claimed_sys)"
proof -
  let ?s = "sample_swap_sys\<lparr>tables := sample_swap_store\<lparr>t_addresses := [sample_change_row]\<rparr>\<rparr>"
  let ?row = "action_row_of sample_claim_env sample_claim_action [0] 10"
  let ?u = "sample_swap_sys\<lparr>tables := sample_swap_store\<lparr>t_addresses := [sample_change_row], t_actions := [?row]\<rparr>\<rparr>"
  have enc: "sample_encode [sample_claim] (c_txn sample_claim_action) = Inr [0]"
    "sql_uint64 (ci_height (c_basis sample_claim_action)) = Inr 10"
    "sample_encode [sample_claim] sample_claim = Inr [0]"
    by (simp_all add: sample_claim_action_def spend_action_def sample_encode_def sql_uint64_def sample_cs_def sample_index_def)
  have con: "action_constraints [sample_swap_row] [] ?row"
    by (simp add: action_constraints_def action_checks_def action_row_of_def sample_claim_action_def spend_action_def
        sample_swap_row_def sample_cs_def sample_index_def)
  have rows: "t_swaps sample_swap_store = [sample_swap_row]" "t_actions sample_swap_store = []"
    by (simp_all add: sample_swap_store_def empty_store_def)
  have add: "add_swap_action sample_claim_env sample_claim_action ?s
    = (Ok (), ?u)"
    by (simp add: add_swap_action_def bnd_def enc statement_def ext_err_def ext_def lift_err_def world_unit rows con Let_def)
  have c: "c_basis sample_claim_action = sample_index" "c_txn sample_claim_action = sample_claim" "c_error sample_claim_action = []"
    by (simp_all add: sample_claim_action_def spend_action_def sample_cs_def)
  have upd: "update_swap_action sample_claim_env (c_action sample_claim_action) sample_index sample_claim []
     (?u) = (Ok (), ?u)"
  proof -
    have h: "sql_uint64 (ci_height sample_index) = Inr 10" using enc(2) c by simp
    have r: "cr_action ?row = c_action sample_claim_action" by (simp add: action_row_of_def)
    have same: "?row\<lparr>cr_blob := [0], cr_basis_height := 10, cr_basis_id := ci_id sample_index, cr_error := []\<rparr> = ?row"
      using c by (simp add: action_row_of_def)
    have chk: "action_checks ?row" using con by (simp add: action_constraints_def)
    show ?thesis
      by (simp add: update_swap_action_def update_actions_def update_where_def bnd_def enc(3) h r same chk
          statement_def ext_err_def ext_def lift_err_def world_unit del: action_row.update_convs)
  qed
  have view: "view_swap_action sample_claim_env sample_claim_action s = (Ok sample_claim_view, s)" for s
    by (simp add: view_swap_action_def sample_run world_unit sample_claim_view_def c sample_cs_def sample_index_def)
  have node: "n_has_syncer (the_node sample_swap_sys)" by (simp add: sample_swap_sys_def sample_sys_def)
  show ?thesis
    by (simp add: journal_swap_action_def bnd_def add node submit_swap_action_def submit_def broadcast_def ext_def ext_err_def
        lift_err_def world_unit attempt_def c upd wake_rebroadcast_def view sample_claimed_sys_def sample_claimed_store_def)
qed

lemma sample_claim_run:
  "spend_swap sample_claim_env ServiceCtx ''swap-1'' ''claim'' sample_claim_request sample_swap_sys
    = (Ok (sample_claim_view, True), sample_claimed_sys)"
proof -
  have st: "tables sample_swap_sys = sample_swap_store" "n_development (the_node sample_swap_sys)"
    by (simp_all add: sample_swap_sys_def sample_sys_def)
  have "new_spend sample_claim_env ServiceCtx ''swap-1'' ''claim'' sample_swap sample_secret [111] 200 sample_swap_sys
    = (Ok (sample_claim_view, True), sample_claimed_sys)"
    using sample_claim_journal
    by (simp add: new_spend_def bnd_def sample_session sample_synced st sample_claim_built ext_def world_unit sample_claim_action_def)
  moreover have "s_role sample_swap = ''recipient''" by (simp add: sample_swap_def)
  ultimately show ?thesis
    using sample_claim_parsed st
    by (simp add: spend_swap_def bnd_def sample_claim_request_def sample_swap_get)
qed

theorem swap_spend_safe_witness:
  "\<exists>sw cs keys s1 parent a amnt fee txn.
     spends_contract sample_claim_env ServiceCtx cs ''claim'' sw keys sample_secret s1 parent a amnt fee txn"
proof -
  have secret: "sq_secret sample_claim_request = hex_encode sample_secret" by (simp add: sample_claim_request_def)
  have "''claim'' \<in> {''claim'', ''refund''}" by simp
  from swap_spend_safe [OF sample_currency_laws sample_codec_laws this sample_claim_run]
  show ?thesis unfolding secret hex_encode_inj if_P [OF refl] by (elim exE conjE) blast
qed

theorem swap_spend_once_witness:
  "frame sample_claimed_sys (snd (spend_swap sample_claim_env ServiceCtx ''swap-1'' ''claim'' sample_claim_request sample_claimed_sys))"
proof -
  obtain r w where run: "spend_swap sample_claim_env ServiceCtx ''swap-1'' ''claim'' sample_claim_request sample_claimed_sys = (r, w)"
    by fastforce
  from swap_spend_once [OF sample_currency_laws sample_codec_laws sample_claim_run grow.le_refl refl run] run
  show ?thesis by simp
qed

section \<open>A funding\<close>

text \<open>The wallet of theory Sample, with its one address and the registered contract.\<close>

definition sample_funder :: "unit sys" where
  "sample_funder = sample_sys\<lparr>tables := sample_swap_store\<lparr>t_addresses := [sample_row]\<rparr>\<rparr>"

abbreviation sample_fund_env :: "unit env" where
  "sample_fund_env \<equiv> sample_env [sample_payment sample_lock] sample_outputs"

definition sample_funding :: fund_request where
  "sample_funding = \<lparr>fr_amount = ''500'', fr_fee = ''200'', fr_unit = ''1''\<rparr>"

definition sample_fund_action :: swap_action where
  "sample_fund_action = fund_action ''swap-1'' sample_swap sample_cs (sample_payment sample_lock) 500 200 0"

definition sample_funded :: "unit sys" where
  "sample_funded = sample_funder\<lparr>tables := (tables sample_funder)\<lparr>t_actions :=
     [action_row_of sample_fund_env sample_fund_action [0] 10]\<rparr>, wake := True\<rparr>"

definition sample_fund_view :: swap_action_view where
  "sample_fund_view = queued_action sample_fund_env 1 sample_fund_action"

lemma sample_funder_wallet: "sample_wallet sample_funder"
  by (simp add: sample_wallet_def sample_funder_def sample_sys_def)

lemma sample_funder_ok: "wallet_ok (sample_env txns outs) [1] sample_funder"
  using sample_sys_wallet_ok [of txns outs]
  by (auto simp: wallet_ok_def sample_funder_def sample_state children_def child_row_def)

lemma sample_fund_journal:
  "journal_swap_action sample_fund_env sample_fund_action sample_funder = (Ok (sample_fund_view, True), sample_funded)"
proof -
  let ?row = "action_row_of sample_fund_env sample_fund_action [0] 10"
  let ?u = "sample_funder\<lparr>tables := (tables sample_funder)\<lparr>t_actions := [?row]\<rparr>\<rparr>"
  have c: "c_basis sample_fund_action = sample_index" "c_txn sample_fund_action = sample_payment sample_lock"
    "c_error sample_fund_action = []"
    by (simp_all add: sample_fund_action_def fund_action_def sample_cs_def)
  have enc: "sample_encode [sample_payment sample_lock] (sample_payment sample_lock) = Inr [0]"
    "sql_uint64 (ci_height sample_index) = Inr 10"
    by (simp_all add: sample_encode_def sql_uint64_def sample_index_def)
  have con: "action_constraints [sample_swap_row] [] ?row"
    by (simp add: action_constraints_def action_checks_def action_row_of_def sample_fund_action_def fund_action_def
        sample_swap_row_def sample_cs_def sample_index_def)
  have rows: "t_swaps (tables sample_funder) = [sample_swap_row]" "t_actions (tables sample_funder) = []"
    by (simp_all add: sample_funder_def sample_swap_store_def empty_store_def)
  have add: "add_swap_action sample_fund_env sample_fund_action sample_funder = (Ok (), ?u)"
    by (simp add: add_swap_action_def bnd_def c enc statement_def ext_err_def ext_def lift_err_def world_unit rows con Let_def)
  have upd: "update_swap_action sample_fund_env (c_action sample_fund_action) sample_index (sample_payment sample_lock) [] ?u = (Ok (), ?u)"
  proof -
    have r: "cr_action ?row = c_action sample_fund_action" by (simp add: action_row_of_def)
    have same: "?row\<lparr>cr_blob := [0], cr_basis_height := 10, cr_basis_id := ci_id sample_index, cr_error := []\<rparr> = ?row"
      using c by (simp add: action_row_of_def)
    have chk: "action_checks ?row" using con by (simp add: action_constraints_def)
    show ?thesis
      by (simp add: update_swap_action_def update_actions_def update_where_def bnd_def enc r same chk
          statement_def ext_err_def ext_def lift_err_def world_unit del: action_row.update_convs)
  qed
  have view: "view_swap_action sample_fund_env sample_fund_action s = (Ok sample_fund_view, s)" for s
    by (simp add: view_swap_action_def sample_run world_unit sample_fund_view_def c sample_cs_def sample_index_def)
  have node: "n_has_syncer (the_node sample_funder)" by (simp add: sample_funder_def sample_sys_def)
  show ?thesis
    by (simp add: journal_swap_action_def bnd_def add node submit_swap_action_def submit_def broadcast_def ext_def ext_err_def
        lift_err_def world_unit attempt_def c upd wake_rebroadcast_def view sample_funded_def)
qed

lemma sample_fund_parsed:
  "parse_positive_currency (sample_env txns outs) ''500'' name = Inr 500"
  "default_fee (sample_env txns outs) ''200'' = Inr 200"
  by (simp_all add: parse_positive_currency_def default_fee_def sample_parse_def digits_value_def byte_of_def)

lemma sample_fund_run:
  "fund_swap sample_fund_env ServiceCtx ''swap-1'' sample_funding sample_funder = (Ok (sample_fund_view, True), sample_funded)"
proof -
  have ready: "ready_state sample_fund_env sample_funder = (Ok ([1], sample_cs), sample_funder)"
    by (simp add: ready_state_def synced_state_def master_seed_def network_synced_def sample_run sample_funder_def
        sample_state sample_cs_def)
  have build: "build_custody_transfer sample_fund_env ServiceCtx sample_cs [1] (s_address sample_swap) 500 200 sample_funder
    = (Ok (sample_payment sample_lock), sample_funder)"
    using sample_pay [OF sample_funder_wallet] by (simp add: sample_swap_def)
  have early: "ci_height (cs_index sample_cs) + 1 < s_refund_height sample_swap"
    by (simp add: sample_cs_def sample_index_def sample_swap_def)
  have "char_of (of_char CHR ''1'' :: nat) = CHR ''1''" by (rule char_of_char)
  then have one: "decimal_digits (Suc 0) = ''1''" by (subst decimal_digits.simps) simp
  have now: "ext (Pair 0) sample_funder = (Ok 0, sample_funder)"
    by (simp add: ext_def)
  have rows: "t_swaps (tables sample_funder) = [sample_swap_row]" "t_actions (tables sample_funder) = []"
    by (simp_all add: sample_funder_def)
  have "new_funding sample_fund_env ServiceCtx ''swap-1'' sample_swap 500 200 ''1'' sample_funder
    = (Ok (sample_fund_view, True), sample_funded)"
    using early sample_fund_journal
    by (simp add: new_funding_def bnd_def ready build check_unit_def one now guard_err_def sample_fund_action_def not_le)
  then show ?thesis
    using rows by (simp add: fund_swap_def bnd_def sample_funding_def sample_fund_parsed sample_swap_get)
qed

theorem swap_funded_once_witness:
  "frame sample_funded (snd (fund_swap sample_fund_env ServiceCtx ''swap-1'' sample_funding sample_funded)) \<and>
   (\<exists>row txn. t_actions (tables sample_funded) = [row] \<and> decode_txn sample_fund_env (cr_blob row) = Inr txn)"
proof -
  obtain r w where run: "fund_swap sample_fund_env ServiceCtx ''swap-1'' sample_funding sample_funded = (r, w)"
    by fastforce
  note paid = swap_funded_once [OF sample_currency_laws sample_codec_laws sample_slice_laws sample_funder_ok
      sample_fund_run grow.le_refl run]
  have "t_actions (tables sample_funder) = []" by (simp add: sample_funder_def)
  with paid [THEN conjunct1]
  have "\<exists>row txn. t_actions (tables sample_funded) = [row] \<and> decode_txn sample_fund_env (cr_blob row) = Inr txn"
    by (elim exE conjE) auto
  with paid [THEN conjunct2, THEN conjunct1] run show ?thesis by simp
qed

section \<open>A registration\<close>

definition sample_unregistered :: "unit sys" where
  "sample_unregistered = sample_swap_sys\<lparr>tables := sample_swap_store\<lparr>t_swaps := []\<rparr>\<rparr>"

definition sample_registration :: register_request where
  "sample_registration = \<lparr>rg_swap = ''swap-1'', rg_role = ''recipient'',
     rg_counterparty = \<lparr>kv_classical = hex_encode (replicate 32 4), kv_reserve = hex_encode (replicate 32 5), kv_address = []\<rparr>,
     rg_secret_hash = hex_encode sample_lock, rg_refund_height = 100\<rparr>"

lemma sample_swap_id: "valid_request_id ''swap-1''"
  unfolding valid_request_id_def by (subst runes_ascii) (auto simp: byte_of_def)

lemma sample_no_outputs: "observed_swap_outputs (sample_env txns outs) sw s = (Ok [], s)"
proof -
  have "history_step (sample_env txns outs) sw (0, []) s = (Ok (Inr []), s)"
    by (simp add: history_step_def sample_run world_unit page_size_def max_events_def)
  then have loop: "loop (history_step (sample_env txns outs) sw) (0, []) s = (Ok [], s)"
    by (rule loop_done)
  have index: "cs_index sample_cs = sample_index" by (simp add: sample_cs_def)
  show ?thesis
    by (simp add: observed_swap_outputs_def bnd_def ext_sum_def ext_def guard_err_def world_unit index loop insertion_sort_def)
qed

lemma sample_registered:
  "\<exists>v. register_swap (sample_env [] []) sample_registration sample_unregistered = (Ok (v, True), sample_swap_sys)"
proof -
  let ?E = "sample_env [] [] :: unit env"
  have key: "swap_key_get ?E ''swap-1'' s = (Ok (Some \<lparr>k_swap = ''swap-1'', k_public = sample_keys, k_created = 0\<rparr>), s)"
    if "t_swap_keys (tables s) = [sample_key_row]" for s
    using that by (simp add: swap_key_get_def sample_run world_unit sample_key_row_def scan_swap_key_def decode_qday_keys_def
        unix_time_def sample_keys_def)
  have other: "parse_swap_keys ?E ''counterparty'' (rg_counterparty sample_registration)
      = Inr \<lparr>classical = replicate 32 4, reserve = replicate 32 5\<rparr>"
    by (simp add: parse_swap_keys_iff sample_registration_def view_swap_keys_def)
  have hash: "parse_hash ''secretHash'' (hex_encode sample_lock) = Inr sample_lock"
    by (simp add: parse_hash_iff sample_lock_def)
  have draft: "(draft_swap sample_registration sample_keys \<lparr>classical = replicate 32 4, reserve = replicate 32 5\<rparr> sample_lock 0)
      \<lparr>s_address := sample_lock\<rparr> = sample_swap"
    by (simp add: draft_swap_def sample_registration_def sample_swap_def)
  have lock: "sc_secret_hash (swap_contract_of (draft_swap sample_registration sample_keys
      \<lparr>classical = replicate 32 4, reserve = replicate 32 5\<rparr> sample_lock 0)) = sample_lock"
    by (simp add: draft_swap_def sample_registration_def swap_contract_of_def)
  have row: "swap_row_of ?E sample_swap 100 = sample_swap_row"
    by (simp add: swap_row_of_def sample_swap_def sample_swap_row_def unix_seconds_def)
  have con: "swap_constraints [sample_key_row] [] sample_swap_row"
    by (simp add: swap_constraints_def sample_swap_row_def sample_key_row_def sample_lock_def sample_keys_def)
  have tab: "t_swap_keys sample_swap_store = [sample_key_row]" "sample_swap_store\<lparr>t_swaps := [sample_swap_row]\<rparr> = sample_swap_store"
    "t_actions sample_swap_store = []"
    by (simp_all add: sample_swap_store_def empty_store_def)
  have h: "sql_uint64 (s_refund_height sample_swap) = Inr 100" by (simp add: sample_swap_def sql_uint64_def)
  have st: "sample_swap_sys\<lparr>tables := sample_swap_store\<rparr> = sample_swap_sys" by (simp add: sample_swap_sys_def)
  have get: "swap_get ?E ''swap-1'' sample_unregistered = (Ok None, sample_unregistered)"
    by (simp add: swap_get_def sample_run world_unit sample_unregistered_def)
  have add: "add_swap ?E sample_swap sample_unregistered = (Ok (), sample_swap_sys)"
    by (simp add: add_swap_def sample_run world_unit h row con tab sample_unregistered_def st)
  have id: "s_swap sample_swap = ''swap-1''" by (simp add: sample_swap_def)
  have watch: "watch_swap ?E sample_swap sample_swap_sys = (Ok (), sample_swap_sys)"
    by (simp add: watch_swap_def sample_run world_unit)
  have "\<exists>v. view_swap ?E sample_swap sample_swap_sys = (Ok v, sample_swap_sys)"
    using key [of sample_swap_sys]
    by (simp add: view_swap_def sample_run world_unit id sample_swap_sys_def tab swap_actions_def sample_no_outputs)
  then obtain v where view: "view_swap ?E sample_swap sample_swap_sys = (Ok v, sample_swap_sys)" ..
  have rq: "rg_swap sample_registration = ''swap-1''" "rg_role sample_registration = ''recipient''"
    "rg_secret_hash sample_registration = hex_encode sample_lock"
    by (simp_all add: sample_registration_def)
  have "t_swap_keys (tables sample_unregistered) = [sample_key_row]" by (simp add: sample_unregistered_def tab)
  from key [OF this] have "register_swap ?E sample_registration sample_unregistered = (Ok (v, True), sample_swap_sys)"
    by (simp add: register_swap_def bnd_def guard_err_def rq sample_swap_id other hash ext_def world_unit lock Let_def draft get add watch view)
  then show ?thesis by blast
qed

theorem swap_registered_once_witness:
  "frame sample_swap_sys (snd (register_swap (sample_env [] []) sample_registration sample_swap_sys))"
proof -
  obtain v where first: "register_swap (sample_env [] []) sample_registration sample_unregistered = (Ok (v, True), sample_swap_sys)"
    using sample_registered ..
  obtain r w where run: "register_swap (sample_env [] []) sample_registration sample_swap_sys = (r, w)" by fastforce
  from swap_registered_once [OF sample_codec_laws first grow.le_refl refl run] run show ?thesis by auto
qed

end
