(* ===== verification/Deposit_Facts.thy ===== *)
theory Deposit_Facts
  imports Withdrawal_Facts
begin

text \<open>
  The pages of \<open>Deposits\<close>: for a history that does not change, a page reports exactly the deposits
  of the events it went through, in order, and the returned offset is where the next page goes
  on; and the loop over the pages ends.
\<close>

section \<open>What an event deposits\<close>

definition owner_of :: "('x, 'z) env_scheme \<Rightarrow> address_row list \<Rightarrow> address \<Rightarrow> addr_rec option" where
  "owner_of E rows addr =
     (case List.find (\<lambda>r. ar_address r = qaddr_string E addr) rows of
        None \<Rightarrow> None
      | Some row \<Rightarrow> (case decode_address E row of Inl _ \<Rightarrow> None | Inr a \<Rightarrow> Some a))"

text \<open>An output that pays a deposit address of the wallet.\<close>

definition deposit_owner :: "('x, 'z) env_scheme \<Rightarrow> address_row list \<Rightarrow> siacoin_output \<Rightarrow> addr_rec option" where
  "deposit_owner E rows output =
     (case owner_of E rows (so_address output) of
        None \<Rightarrow> None | Some a \<Rightarrow> if a_kind a = ''deposit'' then Some a else None)"

definition output_deposit :: "('x, 'z) env_scheme \<Rightarrow> address_row list \<Rightarrow> currency \<Rightarrow> event \<Rightarrow> string \<Rightarrow> bool \<Rightarrow>
    nat \<times> siacoin_output \<Rightarrow> deposit list" where
  "output_deposit E rows unt ev did internal = (\<lambda>(i, output).
     case deposit_owner E rows output of None \<Rightarrow> []
     | Some a \<Rightarrow> [event_deposit E unt ev (did @ '':'' @ decimal_digits i) did (Some i) a (so_value output)
         (\<not> internal)])"

text \<open>The deposits of an event. Those of a transaction that spends an output of the wallet itself
  are internal and not creditable.\<close>

definition spends_wallet :: "('x, 'z) env_scheme \<Rightarrow> address_row list \<Rightarrow> v2input list \<Rightarrow> bool" where
  "spends_wallet E rows ins \<longleftrightarrow> (\<exists>i\<in>set ins. owner_of E rows (so_address (se_output (in_parent i))) \<noteq> None)"

definition event_deposits :: "('x, 'z) env_scheme \<Rightarrow> address_row list \<Rightarrow> cstate \<Rightarrow> event \<Rightarrow> deposit list" where
  "event_deposits E rows cs ev =
     (let unt = qday_units E cs (ci_height (ev_index ev)) in
      case ev_data ev of
        EventV2Transaction txn \<Rightarrow>
          concat (map (output_deposit E rows unt ev (id_string E (txn_id E txn)) (spends_wallet E rows (tx_inputs txn)))
            (enumerate 0 (tx_outputs txn)))
      | EventPayout el \<Rightarrow>
          (case deposit_owner E rows (se_output el) of None \<Rightarrow> []
           | Some a \<Rightarrow> [event_deposit E unt ev (hash_string E (ev_id ev)) [] None a (so_value (se_output el)) True])
      | EventOther \<Rightarrow> [])"

lemma address_by_hash_owner:
  assumes "address_by_hash E addr s = (Ok r, t)"
  shows "r = owner_of E (t_addresses (tables s)) addr" and "frame s t"
proof -
  show "frame s t" using frame_reads(6) assms by (rule evolvesD)
  show "r = owner_of E (t_addresses (tables s)) addr"
    using assms by (auto simp: address_by_hash_def run_iffs query_row_def owner_of_def
        split: option.splits sum.splits)
qed

lemma own_step_ok:
  assumes "own_step E i u s = (Ok r, t)"
  shows "r = (if spends_wallet E (t_addresses (tables s)) [i] then Inr () else Inl ())" and "frame s t"
proof -
  from assms obtain found where a: "address_by_hash E (so_address (se_output (in_parent i))) s = (Ok found, t)"
    and r: "r = (if found \<noteq> None then Inr () else Inl ())"
    by (auto simp: own_step_def bnd_Ok_iff ret_Ok_iff)
  show "frame s t" using address_by_hash_owner(2) [OF a] .
  show "r = (if spends_wallet E (t_addresses (tables s)) [i] then Inr () else Inl ())"
    using r address_by_hash_owner(1) [OF a] by (simp add: spends_wallet_def)
qed

lemma spends_own_ok:
  assumes "spends_own E txn s = (Ok b, t)"
  shows "b \<longleftrightarrow> spends_wallet E (t_addresses (tables s)) (tx_inputs txn)" and "frame s t"
proof -
  have "(r = Inr () \<longleftrightarrow> spends_wallet E (t_addresses (tables s)) ins) \<and> frame s t"
    if "foreach (own_step E) ins () s = (Ok r, t)" for ins s r t
    using that
  proof (induction ins arbitrary: s)
    case (Cons i ins)
    from Cons.prems obtain r1 s' where step: "own_step E i () s = (Ok r1, s')"
      and rest: "(case r1 of Inl u \<Rightarrow> foreach (own_step E) ins u | Inr c \<Rightarrow> ret (Inr ())) s' = (Ok r, t)"
      by (auto simp: bnd_Ok_iff)
    note o = own_step_ok [OF step]
    have eq: "t_addresses (tables s') = t_addresses (tables s)" using o(2) by (simp add: frame_def)
    show ?case
    proof (cases "spends_wallet E (t_addresses (tables s)) [i]")
      case True
      with rest o show ?thesis by (auto simp: spends_wallet_def)
    next
      case False
      with rest o Cons.IH [of s'] eq show ?thesis by (auto simp: spends_wallet_def intro: frame.le_trans)
    qed
  qed (auto simp: frame.le_refl spends_wallet_def)
  with assms show "b \<longleftrightarrow> spends_wallet E (t_addresses (tables s)) (tx_inputs txn)" and "frame s t"
    by (fastforce simp: spends_own_def bnd_Ok_iff)+
qed

lemma output_step_ok:
  assumes "output_step E unt ev did internal x acc s = (Ok acc', t)"
  shows "acc' = acc @ output_deposit E (t_addresses (tables s)) unt ev did internal x" and "frame s t"
proof -
  obtain i outp where x: "x = (i, outp)" by fastforce
  with assms show "acc' = acc @ output_deposit E (t_addresses (tables s)) unt ev did internal x"
    by (auto simp: output_step_def output_deposit_def deposit_owner_def bnd_Ok_iff
        dest!: address_by_hash_owner(1) split: option.splits if_splits)
  from assms x show "frame s t"
    by (auto simp: output_step_def bnd_Ok_iff dest!: address_by_hash_owner(2) split: option.splits if_splits)
qed

lemma txn_deposits_ok:
  assumes "txn_deposits E (qday_units E cs (ci_height (ev_index ev))) ev txn acc s = (Ok acc', t)"
    and "ev_data ev = EventV2Transaction txn"
  shows "acc' = acc @ event_deposits E (t_addresses (tables s)) cs ev" and "frame s t"
proof -
  have *: "acc' = acc @ concat (map (output_deposit E (t_addresses (tables s)) unt ev did internal) xs) \<and> frame s t"
    if "fold_c (output_step E unt ev did internal) xs acc s = (Ok acc', t)" for unt did internal xs acc s
    using that
  proof (induction xs arbitrary: acc s)
    case (Cons x xs)
    from Cons.prems obtain acc1 s' where step: "output_step E unt ev did internal x acc s = (Ok acc1, s')"
      and rest: "fold_c (output_step E unt ev did internal) xs acc1 s' = (Ok acc', t)"
      by (auto simp: bnd_Ok_iff)
    note o = output_step_ok [OF step]
    then have "t_addresses (tables s') = t_addresses (tables s)" by (simp add: frame_def)
    with Cons.IH [OF rest] o show ?case by (auto intro: frame.le_trans)
  qed (auto simp: frame.le_refl)
  from assms(1) obtain internal s1 where own: "spends_own E txn s = (Ok internal, s1)"
    and fold: "fold_c (output_step E (qday_units E cs (ci_height (ev_index ev))) ev (id_string E (txn_id E txn)) internal)
      (enumerate 0 (tx_outputs txn)) acc s1 = (Ok acc', t)"
    by (auto simp: txn_deposits_def bnd_Ok_iff)
  note o = spends_own_ok [OF own]
  have same: "t_addresses (tables s1) = t_addresses (tables s)" using o(2) by (simp add: frame_def)
  show "acc' = acc @ event_deposits E (t_addresses (tables s)) cs ev"
    using * [OF fold] o(1) same assms(2) by (simp add: event_deposits_def Let_def)
  show "frame s t" using * [OF fold] o(2) by (blast intro: frame.le_trans)
qed

lemma event_step_ok:
  assumes "event_step E cs limit ev (acc, k) s = (Ok r, t)"
  shows "frame s t" and "r = Inl (acc @ event_deposits E (t_addresses (tables s)) cs ev, Suc k) \<or>
    r = Inr (acc @ event_deposits E (t_addresses (tables s)) cs ev, Suc k)"
    and "\<And>x. r = Inr x \<Longrightarrow> limit \<le> length (fst x)"
proof -
  have "frame s t \<and> (r = Inl (acc @ event_deposits E (t_addresses (tables s)) cs ev, Suc k) \<or>
    r = Inr (acc @ event_deposits E (t_addresses (tables s)) cs ev, Suc k)) \<and>
    (\<forall>x. r = Inr x \<longrightarrow> limit \<le> length (fst x))"
  proof (cases "ev_data ev")
    case (EventV2Transaction txn)
    with assms obtain acc' where
      run: "txn_deposits E (qday_units E cs (ci_height (ev_index ev))) ev txn acc s = (Ok acc', t)"
      and r: "r = next_event limit acc' (Suc k)"
      by (auto simp: event_step_def bnd_Ok_iff Let_def)
    from txn_deposits_ok [OF run EventV2Transaction] r show ?thesis
      by (auto simp: next_event_def)
  next
    case (EventPayout el)
    with assms obtain found where a: "address_by_hash E (so_address (se_output el)) s = (Ok found, t)"
      and r: "r = after_payout E limit (qday_units E cs (ci_height (ev_index ev))) ev (se_output el) acc (Suc k) found"
      by (auto simp: event_step_def bnd_Ok_iff Let_def)
    note o = address_by_hash_owner [OF a]
    show ?thesis
    proof (cases found)
      case None
      with r o EventPayout show ?thesis by (auto simp: event_deposits_def deposit_owner_def after_payout_def)
    next
      case (Some b)
      then have "owner_of E (t_addresses (tables s)) (so_address (se_output el)) = Some b" using o(1) by simp
      with r o(2) EventPayout Some show ?thesis
        by (cases "a_kind b = ''deposit''")
          (auto simp: event_deposits_def deposit_owner_def after_payout_def next_event_def Let_def split: if_splits)
    qed
  next
    case EventOther
    with assms show ?thesis
      by (auto simp: event_step_def Let_def next_event_def event_deposits_def frame.le_refl split: if_splits)
  qed
  then show "frame s t" and "r = Inl (acc @ event_deposits E (t_addresses (tables s)) cs ev, Suc k) \<or>
    r = Inr (acc @ event_deposits E (t_addresses (tables s)) cs ev, Suc k)"
    and "\<And>x. r = Inr x \<Longrightarrow> limit \<le> length (fst x)" by blast+
qed

section \<open>A page\<close>

text \<open>The events a loop went through, and what it collected.\<close>

definition went_through :: "('x, 'z) env_scheme \<Rightarrow> address_row list \<Rightarrow> cstate \<Rightarrow> event list \<Rightarrow>
    deposit list \<times> nat \<Rightarrow> deposit list \<times> nat \<Rightarrow> nat \<Rightarrow> bool" where
  "went_through E rows cs events x y n \<longleftrightarrow> n \<le> length events \<and>
     y = (fst x @ concat (map (event_deposits E rows cs) (take n events)), snd x + n)"

lemma event_loop_ok:
  assumes "foreach (event_step E cs limit) events x s = (Ok r, t)"
  shows "frame s t \<and> (\<exists>n y. went_through E (t_addresses (tables s)) cs events x y n \<and> (events \<noteq> [] \<longrightarrow> 0 < n) \<and>
    (r = Inl y \<and> n = length events \<or> r = Inr y \<and> limit \<le> length (fst y)))"
  using assms
proof (induction events arbitrary: x s)
  case Nil
  then show ?case by (auto simp: went_through_def frame.le_refl)
next
  case (Cons ev events)
  obtain acc k where x: "x = (acc, k)" by fastforce
  from Cons.prems obtain r1 s1 where step: "event_step E cs limit ev (acc, k) s = (Ok r1, s1)"
    and rest: "(case r1 of Inl y \<Rightarrow> foreach (event_step E cs limit) events y | Inr c \<Rightarrow> ret (Inr c)) s1 = (Ok r, t)"
    unfolding x by (auto simp: bnd_Ok_iff)
  note o = event_step_ok [OF step]
  let ?y = "(acc @ event_deposits E (t_addresses (tables s)) cs ev, Suc k)"
  show ?case
  proof (cases r1)
    case (Inr c)
    with o(2) rest have "r = Inr ?y" "t = s1" by auto
    with o(1) o(3) [OF Inr] Inr rest x show ?thesis
      by (intro conjI exI [of _ 1] exI [of _ ?y]) (auto simp: went_through_def)
  next
    case (Inl c)
    with o(2) have "c = ?y" by auto
    with rest Inl have loop: "foreach (event_step E cs limit) events ?y s1 = (Ok r, t)" by simp
    have same: "t_addresses (tables s1) = t_addresses (tables s)" using o(1) by (simp add: frame_def)
    from Cons.IH [OF loop] obtain n y where fr: "frame s1 t"
      and n: "went_through E (t_addresses (tables s)) cs events ?y y n"
      and r: "r = Inl y \<and> n = length events \<or> r = Inr y \<and> limit \<le> length (fst y)"
      unfolding same by blast
    from n have "went_through E (t_addresses (tables s)) cs (ev # events) x y (Suc n)"
      by (simp add: went_through_def x)
    with r frame.le_trans [OF o(1) fr] show ?thesis by (intro conjI exI [of _ "Suc n"] exI [of _ y]) auto
  qed
qed

text \<open>The documented behaviour of the wallet manager's listing: pages of one history.\<close>

definition pages_of :: "('x, 'z) env_scheme \<Rightarrow> nat \<Rightarrow> event list \<Rightarrow> bool" where
  "pages_of E wid history \<longleftrightarrow> (\<forall>k n w r w'. wm_wallet_events E wid k n w = (r, w') \<longrightarrow>
     (\<forall>events. r = Inr events \<longrightarrow> events = take n (drop k history)))"

lemma pages_ofD: "pages_of E wid history \<Longrightarrow> wm_wallet_events E wid k n w = (Inr events, w') \<Longrightarrow>
    events = take n (drop k history)"
  unfolding pages_of_def by blast

text \<open>The invariant of the page loop.\<close>

definition collected :: "('x, 'z) env_scheme \<Rightarrow> address_row list \<Rightarrow> cstate \<Rightarrow> event list \<Rightarrow> nat \<Rightarrow> deposit list \<times> nat \<Rightarrow> bool" where
  "collected E rows cs history start y \<longleftrightarrow> (\<exists>n. went_through E rows cs (drop start history) ([], start) y n)"

lemma collected_step:
  assumes "collected E rows cs history start (acc, k)"
    and "went_through E rows cs (take m (drop k history)) (acc, k) y n"
  shows "collected E rows cs history start y"
proof -
  from assms(1) obtain n0 where n0: "n0 \<le> length (drop start history)" "k = start + n0"
    "acc = concat (map (event_deposits E rows cs) (take n0 (drop start history)))"
    by (auto simp: collected_def went_through_def)
  from assms(2) have n: "n \<le> m" "n \<le> length (drop k history)"
    "y = (acc @ concat (map (event_deposits E rows cs) (take n (drop k history))), k + n)"
    by (auto simp: went_through_def min_def split: if_splits)
  have "take (n0 + n) (drop start history) = take n0 (drop start history) @ take n (drop k history)"
    using take_add [of n0 n "drop start history"] n0(2) by (simp add: add.commute)
  with n0 n show ?thesis
    by (auto simp: collected_def went_through_def intro!: exI [of _ "n0 + n"])
qed

lemma page_step_ok:
  assumes "page_step E cs limit x s = (Ok r, t)" and "pages_of E (n_wallet (the_node s)) history"
    and "collected E (t_addresses (tables s)) cs history start x" and "0 < limit"
  shows "frame s t \<and> (\<exists>y. collected E (t_addresses (tables s)) cs history start y \<and>
    (r = Inl y \<and> snd x < snd y \<and> snd x < length history \<or>
     r = Inr y \<and> (limit \<le> length (fst y) \<or> length history \<le> snd y)))"
proof -
  obtain acc k where x: "x = (acc, k)" by fastforce
  let ?m = "min page_size (limit * 2)"
  have m: "0 < ?m" using assms(4) by (simp add: page_size_def)
  show ?thesis
  proof (cases "limit \<le> length acc")
    case True
    with assms(1,3) x show ?thesis by (auto simp: page_step_def frame.le_refl)
  next
    case False
    with assms(1) x obtain events w where
      ev: "wm_wallet_events E (n_wallet (the_node s)) k ?m (world s) = (Inr events, w)"
      and rest: "(if events = [] then ret (Inr (acc, k)) else
        bnd (foreach (event_step E cs limit) events (acc, k)) (\<lambda>r.
        let r' = (case r of Inl x \<Rightarrow> x | Inr x \<Rightarrow> x) in
        ret (if length events < ?m then Inr r' else Inl r'))) (s\<lparr>world := w\<rparr>) = (Ok r, t)"
      by (auto simp: page_step_def bnd_Ok_iff ext_sum_Ok_iff)
    have events: "events = take ?m (drop k history)" using pages_ofD [OF assms(2) ev] .
    have fr: "frame s (s\<lparr>world := w\<rparr>)" by (rule frame_world)
    show ?thesis
    proof (cases "events = []")
      case True
      with events m have "length history \<le> k" by auto
      with True rest fr assms(3) x show ?thesis by auto
    next
      case False
      with rest obtain q where loop: "foreach (event_step E cs limit) events (acc, k) (s\<lparr>world := w\<rparr>) = (Ok q, t)"
        and r: "r = (if length events < ?m then Inr (case q of Inl x \<Rightarrow> x | Inr x \<Rightarrow> x) else Inl (case q of Inl x \<Rightarrow> x | Inr x \<Rightarrow> x))"
        by (auto simp: bnd_Ok_iff Let_def simp del: foreach.simps)
      from event_loop_ok [OF loop] False obtain n y where f2: "frame (s\<lparr>world := w\<rparr>) t"
        and n: "went_through E (t_addresses (tables s)) cs events (acc, k) y n" "0 < n"
        and q: "q = Inl y \<and> n = length events \<or> q = Inr y \<and> limit \<le> length (fst y)" by auto
      have col: "collected E (t_addresses (tables s)) cs history start y"
        using collected_step assms(3) n(1) unfolding x events by blast
      have "r = (if length events < ?m then Inr y else Inl y)" using r q by auto
      moreover have "snd y = k + n" "k < length history"
        using n(1) False events by (auto simp: went_through_def)
      moreover have "limit \<le> length (fst y) \<or> length history \<le> snd y" if "length events < ?m"
      proof -
        have "length events = length history - k" using that events by (simp add: min_def split: if_splits)
        with q calculation(2) show ?thesis by auto
      qed
      ultimately show ?thesis
        using frame.le_trans [OF fr f2] col n(2) x by (intro conjI exI [of _ y]) auto
    qed
  qed
qed

section \<open>The whole listing\<close>

lemma address_by_hash_returns: "returns (address_by_hash E a)"
  unfolding address_by_hash_def by (intro call_returns)

lemma page_step_returns: "returns (page_step E cs limit x)"
  unfolding page_step_def event_step_def txn_deposits_def output_step_def spends_own_def own_step_def
  by (intro call_returns address_by_hash_returns) (auto intro!: call_returns address_by_hash_returns split: event_data.split)

lemma page_loop:
  assumes hist: "pages_of E (n_wallet (the_node s)) history" and lim: "0 < limit"
  shows "fst (loop (page_step E cs limit) ([], start) s) \<noteq> Hang"
    and "loop (page_step E cs limit) ([], start) s = (Ok y, t) \<Longrightarrow>
      frame s t \<and> collected E (t_addresses (tables s)) cs history start y \<and>
      (limit \<le> length (fst y) \<or> length history \<le> snd y)"
proof -
  let ?I = "\<lambda>x u. frame s u \<and> collected E (t_addresses (tables s)) cs history start x"
  have start: "?I ([], start) s"
    by (auto simp: frame.le_refl collected_def went_through_def intro: exI [of _ 0])
  have step: "frame s u \<and> (\<exists>y. collected E (t_addresses (tables s)) cs history start y \<and>
    (r = Inl y \<and> snd x < snd y \<and> snd x < length history \<or>
     r = Inr y \<and> (limit \<le> length (fst y) \<or> length history \<le> snd y)))"
    if "?I x v" "page_step E cs limit x v = (Ok r, u)" for x v r u
  proof -
    from that(1) have eq: "t_addresses (tables v) = t_addresses (tables s)" "the_node v = the_node s" and fr: "frame s v"
      by (simp_all add: frame_def)
    from page_step_ok [OF that(2) _ _ lim, unfolded eq, OF hist] that(1) fr show ?thesis
      by (blast intro: frame.le_trans)
  qed
  show "fst (loop (page_step E cs limit) ([], start) s) \<noteq> Hang"
    by (rule loop_returns [where I = ?I and mu = "\<lambda>x u. length history - snd x", OF start])
      (use step returnsD [OF page_step_returns] in fastforce)+
  show "frame s t \<and> collected E (t_addresses (tables s)) cs history start y \<and>
      (limit \<le> length (fst y) \<or> length history \<le> snd y)"
    if run: "loop (page_step E cs limit) ([], start) s = (Ok y, t)"
    by (rule loop_yields [where I = ?I, OF _ start run]) (use step in \<open>fastforce split: sum.split\<close>)
qed

text \<open>
  C6. Paging through the deposits loses and repeats nothing. Over a history of the wallet that is
  listed page by page, a call returns exactly the deposits of the events from the given offset up
  to the returned one, in order, so calling again from there continues the list; it stops short
  of the limit only at the end of the history; and it always ends. A deposit is creditable unless
  its transaction spends an output of the wallet.
\<close>

theorem deposit_pages:
  assumes "pages_of E (n_wallet (the_node s)) history"
  shows "fst (get_deposits E limit start s) \<noteq> Hang \<and>
    (\<forall>ds after t. get_deposits E limit start s = (Ok (ds, after), t) \<longrightarrow>
      (\<exists>n cs. n \<le> length (drop (nat start) history) \<and> after = nat start + n \<and>
        cs = fst (cm_tip_state E (world s)) \<and>
        ds = concat (map (event_deposits E (t_addresses (tables s)) cs) (take n (drop (nat start) history))) \<and>
        (nat limit \<le> length ds \<or> length history \<le> after)))"
proof (intro conjI allI impI)
  let ?cs = "fst (cm_tip_state E (world s))"
  define s1 where "s1 = s\<lparr>world := snd (cm_tip_state E (world s))\<rparr>"
  have cs: "ext (cm_tip_state E) s = (Ok ?cs, s1)" by (simp add: ext_app s1_def)
  have same: "t_addresses (tables u) = t_addresses (tables s)" "the_node u = the_node s" if "frame s1 u" for u
    using that by (simp_all add: frame_def s1_def)
  show "fst (get_deposits E limit start s) \<noteq> Hang"
  proof (cases "limit < 1 \<or> limit > 200 \<or> start < 0")
    case False
    then have lim: "0 < nat limit" by simp
    have pages: "fst (loop (page_step E cs (nat limit)) ([], nat start) u) \<noteq> Hang" if "frame s1 u" for cs u
      by (rule page_loop(1) [OF _ lim, where history = history]) (simp add: same(2) [OF that] assms)
    show ?thesis
      using False unfolding get_deposits_def
      by (intro returns_at pages) (auto simp: cs run_iffs s1_def frame_def intro!: returnsD call_returns)
  qed (auto simp: get_deposits_def)
  fix ds after t
  assume run: "get_deposits E limit start s = (Ok (ds, after), t)"
  then obtain w v where lim: "0 < nat limit"
    and loop: "loop (page_step E ?cs (nat limit)) ([], nat start) (s\<lparr>world := w\<rparr>) = (Ok (ds, after), v)"
    by (auto simp: get_deposits_def run_iffs not_less split: prod.splits)
  have fr: "frame s1 (s\<lparr>world := w\<rparr>)" by (simp add: frame_def s1_def)
  from page_loop(2) [OF _ lim loop, of history] assms same [OF fr]
  have "collected E (t_addresses (tables s)) ?cs history (nat start) (ds, after)"
    and "nat limit \<le> length ds \<or> length history \<le> after" by simp_all
  then show "\<exists>n cs. n \<le> length (drop (nat start) history) \<and> after = nat start + n \<and>
        cs = fst (cm_tip_state E (world s)) \<and>
        ds = concat (map (event_deposits E (t_addresses (tables s)) cs) (take n (drop (nat start) history))) \<and>
        (nat limit \<le> length ds \<or> length history \<le> after)"
    unfolding collected_def went_through_def by auto
qed

text \<open>A history of one payout to the deposit address of the sample.\<close>

definition sample_payout :: event where
  "sample_payout = \<lparr>ev_id = [3], ev_index = sample_index, ev_confirmations = 1, ev_type = ''miner'',
     ev_data = EventPayout (sample_output 4 30), ev_maturity = 12, ev_timestamp = 0\<rparr>"

definition sample_history_env :: "unit env" where
  "sample_history_env = (sample_env [] [])\<lparr>wm_wallet_events := (\<lambda>wid k n w. (Inr (take n (drop k [sample_payout])), w))\<rparr>"

lemma sample_history_run:
  "get_deposits sample_history_env 10 0 sample_sys =
     (Ok ([event_deposit sample_history_env 1 sample_payout (bytes_text [3]) [] None sample_owner 30 True], 1), sample_sys)"
proof -
  have same: "decode_address (E\<lparr>wm_wallet_events := f\<rparr>) = decode_address E" for E :: "unit env" and f
    by (simp add: fun_eq_iff decode_address_def Let_def split: sum.split option.split)
  have owner: "address_by_hash sample_history_env (classical sample_keys) sample_sys = (Ok (Some sample_owner), sample_sys)"
    using sample_by_hash [of sample_sys "[]" "[]"]
    by (simp add: address_by_hash_def sample_history_env_def sample_run same)
  have env: "wm_wallet_events sample_history_env = (\<lambda>wid k n w. (Inr (take n (drop k [sample_payout])), w))"
    "qday_units sample_history_env = (\<lambda>cs h. 1)" "hash_string sample_history_env = bytes_text"
    "cm_tip_state sample_history_env = (\<lambda>w. (sample_cs, w))" "wm_tip sample_history_env = (\<lambda>w. (Inr sample_index, w))"
    "cm_tip sample_history_env = (\<lambda>w. (sample_index, w))" "cs_index sample_cs = sample_index"
    by (simp_all add: sample_history_env_def sample_cs_def)
  have world: "sample_sys\<lparr>world := ()\<rparr> = sample_sys" by simp
  have ev: "ev_data sample_payout = EventPayout (sample_output 4 30)" "ev_id sample_payout = [3]"
    "se_output (sample_output 4 30) = \<lparr>so_value = 30, so_address = classical sample_keys\<rparr>"
    "a_kind sample_owner = ''deposit''"
    by (simp_all add: sample_payout_def sample_output_def sample_owner_def)
  have "page_step sample_history_env sample_cs 10 ([], 0) sample_sys =
     (Ok (Inr ([event_deposit sample_history_env 1 sample_payout (bytes_text [3]) [] None sample_owner 30 True], 1)), sample_sys)"
    using owner
    by (simp add: page_step_def event_step_def bnd_def ext_sum_def ext_def env ev world page_size_def
        after_payout_def next_event_def)
  then have "loop (page_step sample_history_env sample_cs 10) ([], 0) sample_sys =
     (Ok ([event_deposit sample_history_env 1 sample_payout (bytes_text [3]) [] None sample_owner 30 True], 1), sample_sys)"
    by (rule loop_done)
  then show ?thesis
    by (simp add: get_deposits_def bnd_def ext_sum_def ext_def env world)
qed

theorem deposit_pages_witness:
  "\<exists>n cs. n \<le> 1 \<and> 1 = nat 0 + n \<and>
     [event_deposit sample_history_env 1 sample_payout (bytes_text [3]) [] None sample_owner 30 True] =
     concat (map (event_deposits sample_history_env [sample_row] cs) (take n [sample_payout]))"
proof -
  have "pages_of sample_history_env (n_wallet (the_node sample_sys)) [sample_payout]"
    by (simp add: pages_of_def sample_history_env_def)
  from deposit_pages [OF this, of 10 0] sample_history_run show ?thesis
    by (auto simp: sample_state)
qed

end
