(* ===== verification/Robust.thy ===== *)
theory Robust
  imports Store_Facts
begin

text \<open>
  Methods that cannot fail: the ways in which a method ends without a value, and the rules by
  which a method that swallows the errors of its calls avoids them.
\<close>

datatype defect = Failure | Crash | Endless

fun defects :: "('e, 'a) outcome \<Rightarrow> defect set" where
  "defects (Ok _) = {}"
| "defects (Err _) = {Failure}"
| "defects Panic = {Crash}"
| "defects Hang = {Endless}"

definition never :: "defect set \<Rightarrow> ('s, 'e, 'a) comp \<Rightarrow> bool" where
  "never K m \<longleftrightarrow> (\<forall>s. defects (fst (m s)) \<inter> K = {})"

lemma neverD: "never K m \<Longrightarrow> defects (fst (m s)) \<inter> K = {}"
  by (simp add: never_def)

lemma Endless_defects: "Endless \<in> defects r \<longleftrightarrow> r = Hang"
  by (cases r) simp_all

lemma never_Endless: "never {Endless} m = returns m"
  by (simp add: never_def returns_def Endless_defects)

text \<open>A method without failure and crash returns a value where it ends.\<close>

lemma never_Ok:
  assumes "never {Failure, Crash} m" and "fst (m s) \<noteq> Hang"
  obtains a t where "m s = (Ok a, t)"
proof (cases "m s")
  case (Pair r t)
  with assms neverD [OF assms(1), of s] that show ?thesis by (cases r) auto
qed

lemma never_basic: "never K (ret a)" "never K (get_st g)" "never K (mod_st f)" "never K (ext c)"
  by (simp_all add: never_def ext_app)

lemma never_fail: "Failure \<notin> K \<Longrightarrow> never K (fail e)"
  "Failure \<notin> K \<Longrightarrow> never K (guard_err b e)" "Failure \<notin> K \<Longrightarrow> never K (lift_sum r)"
  "Failure \<notin> K \<Longrightarrow> never K (lift_err x)"
  by (simp_all add: never_def guard_err_def lift_sum_def lift_err_def split: sum.split option.split)

lemma never_bnd:
  assumes "never K m" and "\<And>a. never K (f a)"
  shows "never K (bnd m f)"
  unfolding never_def
proof
  fix s
  obtain r s' where m: "m s = (r, s')" by fastforce
  with neverD [OF assms(1), of s] neverD [OF assms(2), of _ s']
  show "defects (fst (bnd m f s)) \<inter> K = {}" by (cases r) (auto simp: bnd_def)
qed

lemma never_attempt:
  assumes "never (K - {Failure}) m"
  shows "never K (attempt m)"
  unfolding never_def
proof
  fix s
  obtain r s' where m: "m s = (r, s')" by fastforce
  with neverD [OF assms, of s] show "defects (fst (attempt m s)) \<inter> K = {}"
    by (cases r) (auto simp: attempt_def)
qed

lemma never_calls: "Failure \<notin> K \<Longrightarrow> never K (ext_sum c)" "Failure \<notin> K \<Longrightarrow> never K (ext_err d)"
  "Failure \<notin> K \<Longrightarrow> never K (statement E)"
  unfolding ext_sum_def ext_err_def statement_def by (intro never_bnd never_basic never_fail; assumption)+

lemma never_cases:
  "(b \<Longrightarrow> never K m) \<Longrightarrow> (\<not> b \<Longrightarrow> never K n) \<Longrightarrow> never K (if b then m else n)"
  "(\<And>x. x = v \<Longrightarrow> never K (f x)) \<Longrightarrow> never K (let x = v in f x)"
  "never K m \<Longrightarrow> (\<And>x. never K (f x)) \<Longrightarrow> never K (case r of None \<Rightarrow> m | Some x \<Rightarrow> f x)"
  "(\<And>x. never K (f x)) \<Longrightarrow> (\<And>y. never K (g y)) \<Longrightarrow> never K (case u of Inl x \<Rightarrow> f x | Inr y \<Rightarrow> g y)"
  "never K m \<Longrightarrow> (\<And>x xs. never K (h x xs)) \<Longrightarrow> never K (case l of [] \<Rightarrow> m | x # xs \<Rightarrow> h x xs)"
  "(\<And>x y. never K (k x y)) \<Longrightarrow> never K (case p of (x, y) \<Rightarrow> k x y)"
  by (simp_all split: option.split sum.split list.split prod.split)

lemma never_foreach: "(\<And>x acc. never K (f x acc)) \<Longrightarrow> never K (foreach f xs acc)"
  by (induction xs arbitrary: acc) (auto intro!: never_basic never_bnd split: sum.split)

lemma never_fold: "(\<And>x acc. never K (f x acc)) \<Longrightarrow> never K (fold_c f xs acc)"
  by (induction xs arbitrary: acc) (auto intro!: never_basic never_bnd)

lemma never_map: "(\<And>x. never K (f x)) \<Longrightarrow> never K (map_c f xs)"
  by (induction xs) (auto intro!: never_basic never_bnd)

text \<open>A loop adds nothing but the loop without end.\<close>

lemma never_loop:
  fixes body :: "'a \<Rightarrow> ('s, 'e, 'a + 'b) comp"
  assumes "\<And>a. never K (body a)" and "Endless \<notin> K"
  shows "never K (loop body a)"
  unfolding never_def
proof
  fix s
  show "defects (fst (loop body a s)) \<inter> K = {}"
  proof (cases "while_option loop_going (loop_step body) (Ok (Inl a), s)")
    case None
    with assms(2) show ?thesis by (simp add: loop_def)
  next
    case (Some x)
    have "defects (fst x) \<inter> K = {}"
    proof (rule while_option_rule [OF _ Some, where P = "\<lambda>x. defects (fst x) \<inter> K = {}"])
      fix y :: "('e, 'a + 'b) outcome \<times> 's"
      assume "loop_going y"
      then obtain a' s' where y: "y = (Ok (Inl a'), s')"
        by (auto simp: loop_going_def split: prod.splits outcome.splits sum.splits)
      show "defects (fst (loop_step body y)) \<inter> K = {}"
        using neverD [OF assms(1), of a' s'] y by simp
    qed simp
    with Some assms(2) show ?thesis
      by (auto simp: loop_def split: prod.splits outcome.splits sum.splits)
  qed
qed

lemmas never_intros = never_basic never_fail never_bnd never_attempt never_calls never_cases
  never_foreach never_fold never_map never_loop

end
