(* ===== verification/Proof_Update.thy ===== *)
theory Proof_Update
  imports Rebroadcast Robust Custody_Transfer
begin

text \<open>
  \<open>updateProofs\<close>: on a best chain that does not move during the call it ends whatever the two
  ends are, forks included, every request to the chain manager spans at most 72 blocks, and what
  it returns was carried from the first basis to the last without a gap.
\<close>

text \<open>The best chain during the call; \<open>BestIndex h\<close> is the block at height \<open>h\<close>.\<close>

definition fixed_chain :: "('x, 'z) env_scheme \<Rightarrow> (u64 \<Rightarrow> chain_index option) \<Rightarrow> bool" where
  "fixed_chain E best \<longleftrightarrow> (\<forall>h w. fst (cm_best_index E h w) = best h) \<and>
     (\<forall>h ci. best h = Some ci \<longrightarrow> ci_height ci = h)"

definition apart :: "chain_index \<Rightarrow> chain_index \<Rightarrow> nat" where
  "apart a b = (unat (ci_height a) - unat (ci_height b)) + (unat (ci_height b) - unat (ci_height a))"

text \<open>A set was carried from one basis to another by successful requests of at most 72 blocks.\<close>

inductive carried :: "('x, 'z) env_scheme \<Rightarrow> v2txn list \<Rightarrow> chain_index \<Rightarrow> v2txn list \<Rightarrow> chain_index \<Rightarrow> bool" for E where
  stay: "carried E txns src txns src"
| hop: "carried E txns src txns' mid \<Longrightarrow> apart mid dst \<le> 72 \<Longrightarrow>
    cm_update_set E txns' mid dst w = ((txns'', None), w') \<Longrightarrow> txns'' \<noteq> [] \<Longrightarrow>
    carried E txns src txns'' dst"

section \<open>One hop\<close>

lemma back_step_ok:
  assumes "back_step E dst x src s = (Ok r, t)"
  shows "Suc (unat (ci_height (case r of Inl nxt \<Rightarrow> nxt | Inr nxt \<Rightarrow> nxt))) = unat (ci_height src)"
  using assms
  by (auto simp: back_step_def run_iffs Let_def unat_minus_one unat_eq_0 split: option.splits)
    (metis Suc_pred unat_eq_0 neq0_conv)+

lemma back_loop_ok:
  assumes "foreach (back_step E dst) xs src s = (Ok r, t)"
  defines "nxt \<equiv> (case r of Inl nxt \<Rightarrow> nxt | Inr nxt \<Rightarrow> nxt)"
  shows "unat (ci_height nxt) \<le> unat (ci_height src) \<and>
    unat (ci_height src) \<le> unat (ci_height nxt) + length xs \<and>
    (xs \<noteq> [] \<longrightarrow> unat (ci_height nxt) < unat (ci_height src))"
  using assms(1) unfolding nxt_def
proof (induction xs arbitrary: src s)
  case Nil
  then show ?case by (auto split: sum.split)
next
  case (Cons x xs)
  from Cons.prems obtain r1 s1 where step: "back_step E dst x src s = (Ok r1, s1)"
    and rest: "(case r1 of Inl acc' \<Rightarrow> foreach (back_step E dst) xs acc' | Inr c \<Rightarrow> ret (Inr c)) s1 = (Ok r, t)"
    by (auto simp: bnd_Ok_iff)
  note one = back_step_ok [OF step]
  show ?case
  proof (cases r1)
    case (Inl mid)
    with rest Cons.IH [of mid s1] one show ?thesis by auto
  next
    case (Inr mid)
    with rest one show ?thesis by auto
  qed
qed

text \<open>The measure of the loop: on the best chain below the target the distance to it; before that
  the height, above all of these.\<close>

definition hops_left :: "(u64 \<Rightarrow> chain_index option) \<Rightarrow> chain_index \<Rightarrow> chain_index \<Rightarrow> nat" where
  "hops_left best dst src =
     (if src = dst then 0
      else if best (ci_height src) = Some src \<and> ci_height src \<le> ci_height dst
      then Suc (unat (ci_height dst) - unat (ci_height src))
      else 2 ^ 64 + Suc (unat (ci_height src)))"

lemma next_basis_ok:
  assumes chain: "fixed_chain E best" and room: "unat (ci_height dst) + 72 < 2 ^ 64" and "src \<noteq> dst"
    and run: "next_basis E src dst (best (ci_height src)) s = (Ok nxt, t)"
  shows "apart src nxt \<le> 72 \<and> hops_left best dst nxt < hops_left best dst src"
proof -
  have d64: "unat (ci_height dst) < 2 ^ 64" by (rule unat_u64_less)
  consider (forward) "best (ci_height src) = Some src" "ci_height src < ci_height dst"
    | (over) "best (ci_height src) = Some src" "ci_height src = ci_height dst"
    | (fork) "\<not> (best (ci_height src) = Some src \<and> ci_height src \<le> ci_height dst)"
    by force
  then show ?thesis
  proof cases
    case forward
    let ?h = "min (ci_height src + proof_hop) (ci_height dst)"
    have ask: "fst (cm_best_index E h w) = best h" for h w using chain by (simp add: fixed_chain_def)
    from forward run have "best ?h = Some nxt"
      by (auto simp: next_basis_def bnd_Ok_iff ext_app ask split: option.splits)
    then have on: "best (ci_height nxt) = Some nxt" and nxt: "ci_height nxt = ?h"
      using chain by (auto simp: fixed_chain_def)
    from forward(2) have lt: "unat (ci_height src) < unat (ci_height dst)" by (simp add: word_less_nat_alt)
    with room have sum: "unat (ci_height src + proof_hop) = unat (ci_height src) + 72"
      by (simp add: proof_hop_def unat_word_ariths)
    have un: "unat (ci_height nxt) = min (unat (ci_height src) + 72) (unat (ci_height dst))"
      using nxt sum by (simp add: min_def word_le_nat_alt)
    with lt have "unat (ci_height src) < unat (ci_height nxt)" by simp
    moreover have "hops_left best dst src = Suc (unat (ci_height dst) - unat (ci_height src))"
      using forward assms(3) by (simp add: hops_left_def less_imp_le)
    moreover have "ci_height nxt \<le> ci_height dst" by (simp add: nxt)
    then have "hops_left best dst nxt \<le> Suc (unat (ci_height dst) - unat (ci_height nxt))"
      using on by (simp add: hops_left_def)
    ultimately show ?thesis using un lt by (auto simp: apart_def min_def split: if_splits)
  next
    case over
    with run have "nxt = dst" by (simp add: next_basis_def)
    with over assms(3) show ?thesis by (simp add: hops_left_def apart_def)
  next
    case fork
    then have "next_basis E src dst (best (ci_height src)) s =
        bnd (foreach (back_step E dst) [0..<unat proof_hop] src) (\<lambda>r.
        ret (case r of Inl nxt \<Rightarrow> nxt | Inr nxt \<Rightarrow> nxt)) s"
      by (auto simp: next_basis_def less_imp_le)
    with run obtain r u where loop: "foreach (back_step E dst) [0..<unat proof_hop] src s = (Ok r, u)"
      and nxt: "nxt = (case r of Inl nxt \<Rightarrow> nxt | Inr nxt \<Rightarrow> nxt)"
      by (auto simp: bnd_Ok_iff)
    have hop: "unat proof_hop = 72" by (simp add: proof_hop_def)
    from back_loop_ok [OF loop] nxt have h: "unat (ci_height nxt) < unat (ci_height src)"
      "unat (ci_height src) \<le> unat (ci_height nxt) + 72" by (simp_all add: hop)
    moreover have "hops_left best dst src = 2 ^ 64 + Suc (unat (ci_height src))"
      using fork assms(3) by (simp only: hops_left_def if_False)
    moreover have "hops_left best dst nxt \<le> 2 ^ 64 + Suc (unat (ci_height nxt))"
      using d64 by (auto simp: hops_left_def)
    ultimately show ?thesis by (simp add: apart_def)
  qed
qed

lemma proof_step_cases:
  assumes run: "proof_step E dst (txns, mid) s = (Ok r, t)" and "mid \<noteq> dst"
  obtains e where "r = Inr ([], Some e)"
  | nxt txns' err w0 u u' w w' where
      "next_basis E mid dst (fst (cm_best_index E (ci_height mid) w0)) u = (Ok nxt, u')"
      "cm_update_set E txns mid nxt w = ((txns', err), w')"
      "r = (if err \<noteq> None \<or> txns' = [] then Inr (txns', err) else Inl (txns', nxt))"
proof -
  let ?next = "bnd (ext_err (ctx_err E ServiceCtx)) (\<lambda>_.
       bnd (ext (cm_best_index E (ci_height mid))) (next_basis E mid dst))"
  let ?rest = "\<lambda>q. case q of Inl e \<Rightarrow> ret (Inr ([], Some e))
     | Inr nxt \<Rightarrow> bnd (ext (cm_update_set E txns mid nxt)) (\<lambda>(txns', err).
         ret (if err \<noteq> None \<or> txns' = [] then Inr (txns', err) else Inl (txns', nxt)))"
  from assms have "bnd (attempt ?next) ?rest s = (Ok r, t)" by (simp only: proof_step_def prod.case if_False)
  then obtain q s1 where att: "attempt ?next s = (Ok q, s1)" and rest: "?rest q s1 = (Ok r, t)"
    unfolding bnd_Ok_iff by blast
  show thesis
  proof (cases q)
    case (Inl e)
    with rest that(1) show ?thesis by auto
  next
    case (Inr nxt)
    from att Inr have "?next s = (Ok nxt, s1)"
      by (auto simp: attempt_def split: prod.splits outcome.splits)
    then obtain w0 u where nb: "next_basis E mid dst (fst (cm_best_index E (ci_height mid) w0)) u = (Ok nxt, s1)"
      by (auto simp: run_iffs)
    obtain txns' err w where upd: "cm_update_set E txns mid nxt (world s1) = ((txns', err), w)"
      by (metis prod.exhaust)
    with rest Inr have "r = (if err \<noteq> None \<or> txns' = [] then Inr (txns', err) else Inl (txns', nxt))"
      by (auto simp: run_iffs split: if_splits)
    with nb upd show ?thesis by (rule that(2))
  qed
qed

lemma proof_step_ok:
  assumes chain: "fixed_chain E best" and room: "unat (ci_height dst) + 72 < 2 ^ 64"
    and run: "proof_step E dst (txns', mid) s = (Ok r, t)" and car: "carried E txns src txns' mid"
  shows "case r of
      Inl (txns'', nxt) \<Rightarrow> carried E txns src txns'' nxt \<and> hops_left best dst nxt < hops_left best dst mid
    | Inr (txns'', err) \<Rightarrow> err = None \<longrightarrow> txns'' = [] \<or> carried E txns src txns'' dst"
proof (cases "mid = dst")
  case True
  with run car show ?thesis by (auto simp: proof_step_def)
next
  case False
  from run False show ?thesis
  proof (cases rule: proof_step_cases)
    case (2 nxt txns'' err w0 u u' w w')
    have "fst (cm_best_index E (ci_height mid) w0) = best (ci_height mid)"
      using chain by (simp add: fixed_chain_def)
    with 2(1) have hop: "apart mid nxt \<le> 72" "hops_left best dst nxt < hops_left best dst mid"
      using next_basis_ok [OF chain room False] by metis+
    show ?thesis
    proof (cases "err \<noteq> None \<or> txns'' = []")
      case True
      with 2(3) show ?thesis by auto
    next
      case False
      with 2(2) hop carried.hop [OF car, of nxt] have "carried E txns src txns'' nxt" by auto
      with False 2(3) hop show ?thesis by auto
    qed
  qed simp
qed

section \<open>The loop\<close>

lemma back_step_returns: "returns (back_step E dst x nxt)"
  unfolding back_step_def by (intro call_returns)

lemma proof_step_returns: "returns (proof_step E dst x)"
  unfolding proof_step_def next_basis_def by (intro call_returns back_step_returns)

lemma proof_step_never: "never {Failure, Crash} (proof_step E dst x)"
  unfolding proof_step_def next_basis_def back_step_def
  by (intro never_intros) simp_all

lemma update_proofs_never: "never {Failure, Crash} (update_proofs E txns src dst)"
  unfolding update_proofs_def by (intro never_loop proof_step_never) simp

lemma update_proofs_ok:
  assumes chain: "fixed_chain E best" and room: "unat (ci_height dst) + 72 < 2 ^ 64"
  shows "\<exists>txns' err t. update_proofs E txns src dst s = (Ok (txns', err), t) \<and>
    (err = None \<longrightarrow> txns' = [] \<or> carried E txns src txns' dst)"
proof -
  let ?I = "\<lambda>(txns', mid) u. carried E txns src txns' mid"
  have start: "?I (txns, src) s" by (simp add: carried.stay)
  have "fst (update_proofs E txns src dst s) \<noteq> Hang"
    unfolding update_proofs_def
  proof (rule loop_returns [where I = ?I and mu = "\<lambda>x u. hops_left best dst (snd x)", OF start])
    show "?I a' u' \<and> hops_left best dst (snd a') < hops_left best dst (snd a)"
      if "?I a u" "proof_step E dst a u = (Ok (Inl a'), u')" for a u a' u'
      using that proof_step_ok [OF chain room, of "fst a" "snd a" u "Inl a'" u' txns src] by (auto split: prod.splits)
  qed (rule returnsD [OF proof_step_returns])
  with update_proofs_never obtain res t where run: "update_proofs E txns src dst s = (Ok res, t)"
    by (rule never_Ok)
  have "case res of (txns', err) \<Rightarrow> err = None \<longrightarrow> txns' = [] \<or> carried E txns src txns' dst"
    by (rule loop_yields [where I = ?I and a = "(txns, src)" and body = "proof_step E dst", OF _ start
        run [unfolded update_proofs_def]])
      (use proof_step_ok [OF chain room] in \<open>fastforce split: sum.splits prod.splits\<close>)
  with run show ?thesis by (cases res) auto
qed

text \<open>
  C13. Bringing a transaction set from one block to another always comes to an end and returns: along
  the best chain, back from a fork and forward again, or over to the other block at the same
  height. Every request to the chain manager spans at most 72 blocks, and a set that is
  returned without an error was carried by such requests, each starting where the last one
  ended, all the way from the first block to the last, unless the set became empty.
\<close>

theorem proofs_carried:
  assumes "fixed_chain E best" and "unat (ci_height dst) + 72 < 2 ^ 64"
  shows "\<exists>txns' err t. update_proofs E txns src dst s = (Ok (txns', err), t) \<and>
    (err = None \<longrightarrow> txns' = [] \<or> carried E txns src txns' dst)"
  using assms by (rule update_proofs_ok)

text \<open>The chain of the sample is one block per height up to ten.\<close>

lemma sample_chain: "fixed_chain (sample_env txns outs)
    (\<lambda>h. if h \<le> 10 then Some \<lparr>ci_height = h, ci_id = replicate 32 7\<rparr> else None)"
  by (simp add: fixed_chain_def)

theorem proofs_carried_witness:
  "\<exists>txns' err t. update_proofs (sample_env [] []) [sample_transfer] \<lparr>ci_height = 3, ci_id = [8]\<rparr> sample_index sample_sys
     = (Ok (txns', err), t) \<and>
    (case err of Some _ \<Rightarrow> True | None \<Rightarrow>
      txns' = [] \<or> carried (sample_env [] []) [sample_transfer] \<lparr>ci_height = 3, ci_id = [8]\<rparr> txns' sample_index)"
proof -
  have "unat (ci_height sample_index) + 72 < 2 ^ 64" by (simp add: sample_index_def)
  from proofs_carried [OF sample_chain this] show ?thesis by (fastforce split: option.split)
qed

end
