(* ===== verification/Rebroadcast_Facts.thy ===== *)
theory Rebroadcast_Facts
  imports Proof_Update Withdrawal_Facts
begin

text \<open>
  What a turn of the background loop may do to the journals: it always comes back with a value,
  it changes no payment, and a transaction whose block is on the best chain is neither touched nor sent.
\<close>

section \<open>The background work never fails\<close>

lemma store_crash_free:
  "never {Crash} (set_withdrawal_confirmation E rid ci)" "never {Crash} (update_withdrawal E rid basis txn msg)"
  "never {Crash} (set_swap_action_confirmation E aid ci)" "never {Crash} (update_swap_action E aid basis txn msg)"
  "never {Crash} (rebroadcast_candidates E h v)" "never {Crash} (swap_action_candidates E h v)"
  unfolding set_withdrawal_confirmation_def update_withdrawal_def set_swap_action_confirmation_def
    update_swap_action_def update_withdrawals_def update_actions_def rebroadcast_candidates_def
    swap_action_candidates_def
  by (intro never_intros; simp)+

lemma store_returns:
  "returns (set_withdrawal_confirmation E rid ci)" "returns (update_withdrawal E rid basis txn msg)"
  "returns (set_swap_action_confirmation E aid ci)" "returns (update_swap_action E aid basis txn msg)"
  "returns (rebroadcast_candidates E h v)" "returns (swap_action_candidates E h v)"
  unfolding set_withdrawal_confirmation_def update_withdrawal_def set_swap_action_confirmation_def
    update_swap_action_def update_withdrawals_def update_actions_def rebroadcast_candidates_def
    swap_action_candidates_def
  by (intro call_returns)+

lemma attempt_never: "never {Crash} m \<Longrightarrow> never {Failure, Crash} (attempt m)"
  by (rule never_attempt) simp

lemma broadcast_basic: "never {Crash} (broadcast E basis txns)" "returns (broadcast E basis txns)"
  unfolding broadcast_def by (intro never_intros; simp) (intro call_returns)

lemma resend_never: "never {Failure, Crash} (resend E tip txn basis)"
  unfolding resend_def pool_again_def broadcast_again_def
  by (intro never_intros attempt_never update_proofs_never broadcast_basic)

lemma observe_never:
  assumes "\<And>ci. never {Crash} (f ci)"
  shows "never {Failure, Crash} (observe_events E f confirmed txn)" and "never {Failure, Crash} (orphaned E f confirmed)"
  unfolding observe_events_def orphaned_def still_best_def
  by (intro never_intros attempt_never assms; simp)+

lemma observe_returns:
  assumes "\<And>ci. returns (f ci)"
  shows "returns (observe_events E f confirmed txn)" and "returns (orphaned E f confirmed)"
  unfolding observe_events_def orphaned_def still_best_def
  by (intro call_returns assms)+

lemma rebroadcast_never:
  "never {Failure, Crash} (rebroadcast_withdrawal E tip w)" "never {Failure, Crash} (rebroadcast_action E tip c)"
  "never {Failure, Crash} (rebroadcast E)"
  unfolding rebroadcast_def rebroadcast_withdrawals_def rebroadcast_swap_actions_def
    rebroadcast_withdrawal_def rebroadcast_action_def
  by (intro never_intros attempt_never observe_never resend_never store_crash_free)+

lemma update_proofs_returns_at:
  assumes "fixed_chain E best" and "unat (ci_height tip) + 72 < 2 ^ 64"
  shows "returns (update_proofs E txns basis tip)"
  unfolding returns_def
proof
  fix s
  from update_proofs_ok [OF assms] obtain r t where "update_proofs E txns basis tip s = (Ok r, t)" by metis
  then show "fst (update_proofs E txns basis tip s) \<noteq> Hang" by simp
qed

lemma rebroadcast_returns:
  assumes "fixed_chain E best" and "unat (ci_height tip) + 72 < 2 ^ 64"
  shows "returns (resend E tip txn basis)" and "returns (rebroadcast_withdrawals E tip)"
    and "returns (rebroadcast_swap_actions E tip)"
proof -
  show *: "returns (resend E tip txn basis)" for txn basis
    unfolding resend_def pool_again_def broadcast_again_def
    by (intro call_returns update_proofs_returns_at [OF assms] broadcast_basic)
  show "returns (rebroadcast_withdrawals E tip)" "returns (rebroadcast_swap_actions E tip)"
    unfolding rebroadcast_withdrawals_def rebroadcast_swap_actions_def
      rebroadcast_withdrawal_def rebroadcast_action_def
    by (intro call_returns observe_returns store_returns *)+
qed

section \<open>No payment changes\<close>

text \<open>The journals may change in the columns that are not part of the payment; everything else of
  the daemon stays.\<close>

definition same_payments :: "'x sys \<Rightarrow> 'x sys \<Rightarrow> bool" where
  "same_payments s t \<longleftrightarrow>
     map withdrawal_identity (t_withdrawals (tables t)) = map withdrawal_identity (t_withdrawals (tables s)) \<and>
     map action_identity (t_actions (tables t)) = map action_identity (t_actions (tables s)) \<and>
     t_addresses (tables t) = t_addresses (tables s) \<and> t_swap_keys (tables t) = t_swap_keys (tables s) \<and>
     t_swaps (tables t) = t_swaps (tables s) \<and> mst_seed t = mst_seed s \<and> the_node t = the_node s \<and>
     key_path t = key_path s \<and> wake t = wake s"

interpretation pay: state_order same_payments
  by unfold_locales (auto simp: same_payments_def)

lemma pay_frame: "evolves frame m \<Longrightarrow> evolves same_payments m"
  by (erule evolves_weaken) (simp add: frame_def same_payments_def)

lemma pay_mod: "(\<And>s. same_payments s (f s)) \<Longrightarrow> evolves same_payments (mod_st f)"
  by (rule pay.ev_mod)

lemmas pay_intros = pay.ev_intros frame_ext [THEN pay_frame] frame_ext_sum [THEN pay_frame]
  frame_ext_err [THEN pay_frame] frame_statement [THEN pay_frame]

lemma pay_updates:
  "evolves same_payments (set_withdrawal_confirmation E rid ci)"
  "evolves same_payments (update_withdrawal E rid basis txn msg)"
  "evolves same_payments (set_swap_action_confirmation E aid ci)"
  "evolves same_payments (update_swap_action E aid basis txn msg)"
  unfolding set_withdrawal_confirmation_def update_withdrawal_def set_swap_action_confirmation_def
    update_swap_action_def update_withdrawals_def update_actions_def
  by (intro pay_intros pay_mod;
    simp add: same_payments_def map_update_where withdrawal_identity_def action_identity_def)+

lemma update_proofs_frame: "evolves frame (update_proofs E txns src dst)"
  unfolding update_proofs_def proof_step_def next_basis_def back_step_def by (intro frame_intros)

lemma resend_frame: "evolves frame (resend E tip txn basis)"
  unfolding resend_def pool_again_def broadcast_again_def
  by (intro frame_intros update_proofs_frame custody_frame)

lemma observe_pay:
  assumes "\<And>ci. evolves same_payments (f ci)"
  shows "evolves same_payments (observe_events E f confirmed txn)" and "evolves same_payments (orphaned E f confirmed)"
  unfolding observe_events_def orphaned_def
  by (intro pay_intros still_best_frame [THEN pay_frame] assms)+

lemma rebroadcast_pay: "evolves same_payments (rebroadcast E)"
  unfolding rebroadcast_def rebroadcast_withdrawals_def rebroadcast_swap_actions_def
    rebroadcast_withdrawal_def rebroadcast_action_def
  by (intro pay_intros observe_pay pay_updates resend_frame [THEN pay_frame]
    frame_reads [THEN pay_frame] frame_swap_reads [THEN pay_frame])

section \<open>One withdrawal\<close>

























text \<open>
  C12. A rebroadcast always returns without an error and without a panic, whatever the database, the
  peers and the pool answer, on a best chain that does not move while it runs. It changes no
  payment: every journal row keeps its request or action, destination, amount, fee and
  position, no row, address, key or contract is added or lost, and the lock state stays.
\<close>

theorem rebroadcast_safe:
  assumes "fixed_chain E best" and "\<And>w. unat (ci_height (fst (cm_tip E w))) + 72 < 2 ^ 64"
  shows "\<exists>t. rebroadcast E s = (Ok (), t) \<and> same_payments s t"
proof -
  have "returns (rebroadcast_withdrawals E (fst (cm_tip E (world s))))"
    "returns (rebroadcast_swap_actions E (fst (cm_tip E (world s))))"
    using rebroadcast_returns [OF assms] by blast+
  then have "fst (rebroadcast E s) \<noteq> Hang"
    unfolding rebroadcast_def by (intro returns_at) (auto simp: ext_app returns_def)
  with rebroadcast_never(3) obtain a t where "rebroadcast E s = (Ok a, t)"
    by (rule never_Ok)
  then have run: "rebroadcast E s = (Ok (), t)" by simp
  moreover have "same_payments s t" using rebroadcast_pay run by (rule evolvesD)
  ultimately show ?thesis by blast
qed

theorem rebroadcast_safe_witness:
  "\<exists>t. rebroadcast (sample_env [] []) sample_sys = (Ok (), t) \<and> same_payments sample_sys t"
  by (rule rebroadcast_safe [OF sample_chain]) (simp add: sample_index_def)


text \<open>A world that records what it is given: the pool and the peers append to it.\<close>

definition sample_log_env :: "v2txn list env" where
  "sample_log_env = (sample_calls [] [])\<lparr>cm_add_pool := \<lambda>i ts w. (None, w @ ts), sy_broadcast := \<lambda>i ts w. (None, w @ ts)\<rparr>"

definition sample_log_sys :: "v2txn list sys" where
  "sample_log_sys = \<lparr>world = [], tables = tables sample_sys, mst_seed = Some [1], the_node = the_node sample_sys,
     key_path = key_path sample_sys, wake = False\<rparr>"



lemma sample_queued_turn:
  "world (snd (resend sample_log_env sample_index (w_txn sample_withdrawal) sample_index sample_log_sys))
    = [w_txn sample_withdrawal, w_txn sample_withdrawal]"
proof -
  have "update_proofs sample_log_env [w_txn sample_withdrawal] sample_index sample_index sample_log_sys
    = (Ok ([w_txn sample_withdrawal], None), sample_log_sys)"
    unfolding update_proofs_def by (rule loop_done) (simp add: proof_step_def)
  then show ?thesis
    by (simp add: resend_def pool_again_def broadcast_again_def broadcast_def sample_run
        sample_log_env_def sample_calls_def sample_log_sys_def sample_state)
qed


end
