(* ===== verification/Go_Net.thy ===== *)
theory Go_Net
  imports Go_Crypto
begin

text \<open>
  The functions of \<open>mime\<close>, \<open>net/url\<close> and \<open>net\<close> the sources call: the media type of a request, its
  query parameters, host and port of an address, and IP addresses.
\<close>

section \<open>Media types\<close>

definition trim_left :: "string \<Rightarrow> string" where
  "trim_left s = concat (map snd (dropWhile (is_space \<circ> fst) (segments s)))"

lemma concat_segments: "concat (map snd (segments s)) = s"
proof (induction s rule: segments.induct)
  case (2 c cs)
  then show ?case
    by (cases "decode_rune (c # cs)") (simp add: segments.simps)
qed simp

lemma trim_left_shorter: "length (trim_left s) \<le> length s"
proof -
  obtain xs where "segments s = xs @ dropWhile (is_space \<circ> fst) (segments s)"
    by (metis takeWhile_dropWhile_id)
  then have "concat (map snd (segments s)) = concat (map snd xs) @ trim_left s"
    by (metis concat_append map_append trim_left_def)
  then show ?thesis using concat_segments [of s] by (metis length_append le_add2)
qed

text \<open>
  \<open>strings.ToLower\<close>, for a comparison with ASCII text: the two other runes with an ASCII lower
  case are U+0130 and U+212A; what else is not ASCII stays so.
\<close>

definition lower_runes :: "string \<Rightarrow> string" where
  "lower_runes s = concat (map (\<lambda>(r, bs). if r = 0x130 then ''i'' else if r = 0x212A then ''k''
     else map lower_char bs) (segments s))"

definition token_special :: "char \<Rightarrow> bool" where
  "token_special c \<longleftrightarrow> c \<in> set ''()<>@,;:/[]?='' \<or> c = CHR 0x22 \<or> c = CHR 0x5C"

definition token_char :: "char \<Rightarrow> bool" where
  "token_char c \<longleftrightarrow> 0x20 < byte_of c \<and> byte_of c < 0x7F \<and> \<not> token_special c"

text \<open>After the opening quote: the value and what follows the closing quote.\<close>

fun quoted_value :: "string \<Rightarrow> (string \<times> string) option" where
  "quoted_value [] = None"
| "quoted_value (c # cs) =
     (if c = CHR 0x22 then Some ([], cs)
      else if c = CHR 0x5C \<and> cs \<noteq> [] \<and> token_special (hd cs) then
        (case cs of d # ds \<Rightarrow> map_option (\<lambda>(v, r). (d # v, r)) (quoted_value ds) | [] \<Rightarrow> None)
      else if c = CHR 0x0D \<or> c = CHR 0x0A then None
      else map_option (\<lambda>(v, r). (c # v, r)) (quoted_value cs))"

definition consume_value :: "string \<Rightarrow> (string \<times> string) option" where
  "consume_value s = (case s of
       c # cs \<Rightarrow> if c = CHR 0x22 then quoted_value cs
         else (case takeWhile token_char s of [] \<Rightarrow> None | v \<Rightarrow> Some (v, dropWhile token_char s))
     | [] \<Rightarrow> None)"

text \<open>\<open>consumeMediaParam\<close>: name, value and rest.\<close>

definition media_param :: "string \<Rightarrow> (string \<times> string \<times> string) option" where
  "media_param v = (case trim_left v of c # r \<Rightarrow>
       if c \<noteq> CHR '';'' then None else
       let u = trim_left r; param = takeWhile token_char u in
       if param = [] then None else
       (case trim_left (dropWhile token_char u) of d # q \<Rightarrow>
          if d \<noteq> CHR ''='' then None
          else map_option (\<lambda>(x, rest). (to_lower param, x, rest)) (consume_value (trim_left q))
        | [] \<Rightarrow> None)
     | [] \<Rightarrow> None)"

lemma quoted_value_shorter: "quoted_value s = Some (v, r) \<Longrightarrow> length r < length s"
  by (induction s arbitrary: v rule: quoted_value.induct) (auto split: if_splits list.splits intro: less_SucI)

lemma consume_value_shorter: "consume_value s = Some (v, r) \<Longrightarrow> length r \<le> length s"
  using length_dropWhile_le [of token_char s]
  by (auto simp: consume_value_def split: list.splits if_splits dest: quoted_value_shorter)

lemma media_param_shorter:
  assumes "media_param v = Some (k, x, r)"
  shows "length r < length v"
proof -
  from assms obtain c u d q where 1: "trim_left v = c # u" and 2: "trim_left (dropWhile token_char (trim_left u)) = d # q"
    and 3: "consume_value (trim_left q) = Some (x, r)"
    by (auto simp: media_param_def Let_def split: list.splits if_splits)
  have "length r \<le> length q" using consume_value_shorter [OF 3] trim_left_shorter [of q] by simp
  moreover have "length (d # q) \<le> length u"
    using trim_left_shorter [of "dropWhile token_char (trim_left u)"] length_dropWhile_le [of token_char "trim_left u"]
      trim_left_shorter [of u] unfolding 2 by simp
  moreover have "length (c # u) \<le> length v" using trim_left_shorter [of v] unfolding 1 .
  ultimately show ?thesis by simp
qed

text \<open>The parameters parse; a name may come twice only with the same value.\<close>

function media_params :: "string \<Rightarrow> (string \<times> string) list \<Rightarrow> bool" where
  "media_params v seen =
     (let u = trim_left v in
      if u = [] then True else
      case media_param u of
        None \<Rightarrow> trim_space u = '';''
      | Some (k, x, rest) \<Rightarrow>
          (case map_of seen k of
             Some y \<Rightarrow> x = y \<and> media_params rest seen
           | None \<Rightarrow> media_params rest ((k, x) # seen)))"
  by pat_completeness auto
termination
proof (relation "measure (\<lambda>(v, seen). length v)")
  show "wf (measure (\<lambda>(v, seen :: (string \<times> string) list). length (v :: string)))" by simp
next
  fix v seen u p k y x rest
  assume "u = trim_left v" "media_param u = Some p" "(k, y) = p" "(x, rest) = y"
  then show "((rest, seen), (v, seen)) \<in> measure (\<lambda>(v, seen). length v)"
    and "((rest, (k, x) # seen), (v, seen)) \<in> measure (\<lambda>(v, seen). length v)"
    using media_param_shorter [of u k x rest] trim_left_shorter [of v] by auto
qed

declare media_params.simps [simp del]

text \<open>\<open>mime.ParseMediaType(v)\<close> succeeds with the given lower-case type.\<close>

definition media_type_is :: "string \<Rightarrow> string \<Rightarrow> bool" where
  "media_type_is name v \<longleftrightarrow>
     trim_space (lower_runes (takeWhile (\<lambda>c. c \<noteq> CHR '';'') v)) = name \<and>
     media_params (dropWhile (\<lambda>c. c \<noteq> CHR '';'') v) []"

section \<open>Query parameters\<close>

text \<open>\<open>url.QueryUnescape\<close>\<close>

fun query_unescape :: "string \<Rightarrow> string option" where
  "query_unescape [] = Some []"
| "query_unescape (c # cs) =
     (if c = CHR ''%'' then
        (case cs of a # b # r \<Rightarrow>
           (case (hex_value a, hex_value b) of
              (Some x, Some y) \<Rightarrow> map_option (\<lambda>t. char_of (16 * x + y) # t) (query_unescape r)
            | _ \<Rightarrow> None)
         | _ \<Rightarrow> None)
      else if c = CHR ''+'' then map_option (\<lambda>t. CHR '' '' # t) (query_unescape cs)
      else map_option (\<lambda>t. c # t) (query_unescape cs))"

text \<open>One key and value; a part that is malformed is skipped.\<close>

definition query_pair :: "string \<Rightarrow> (string \<times> string) list" where
  "query_pair part =
     (if part = [] \<or> CHR '';'' \<in> set part then [] else
      case (query_unescape (takeWhile (\<lambda>c. c \<noteq> CHR ''='') part),
            query_unescape (drop 1 (dropWhile (\<lambda>c. c \<noteq> CHR ''='') part))) of
        (Some k, Some v) \<Rightarrow> [(k, v)]
      | _ \<Rightarrow> [])"

text \<open>\<open>url.ParseQuery\<close>, which gives up on more than 10000 parts.\<close>

definition parse_query :: "string \<Rightarrow> (string \<times> string) list" where
  "parse_query q = (let parts = split_on CHR ''&'' q in
     if 10000 < length parts then [] else concat (map query_pair parts))"

text \<open>\<open>Values.Get\<close>: the first value, or the empty string.\<close>

definition query_get :: "string \<Rightarrow> string \<Rightarrow> string" where
  "query_get q k = (case map_of (parse_query q) k of Some v \<Rightarrow> v | None \<Rightarrow> [])"

section \<open>Host and port\<close>

definition before_last :: "char \<Rightarrow> string \<Rightarrow> string" where
  "before_last c s = rev (drop 1 (dropWhile (\<lambda>x. x \<noteq> c) (rev s)))"

definition after_last :: "char \<Rightarrow> string \<Rightarrow> string" where
  "after_last c s = rev (takeWhile (\<lambda>x. x \<noteq> c) (rev s))"

text \<open>\<open>net.SplitHostPort\<close>: the port is after the last colon; a host with colons is in brackets.\<close>

definition split_host_port :: "string \<Rightarrow> (string \<times> string) option" where
  "split_host_port s =
     (if CHR '':'' \<notin> set s then None else
      let port = after_last CHR '':'' s in
      if hd s = CHR ''['' then
        (let host = takeWhile (\<lambda>c. c \<noteq> CHR '']'') (tl s); rest = dropWhile (\<lambda>c. c \<noteq> CHR '']'') (tl s) in
         if rest \<noteq> CHR '']'' # CHR '':'' # port then None
         else if CHR ''['' \<in> set (tl s) \<or> CHR '']'' \<in> set port then None
         else Some (host, port))
      else
        (let host = before_last CHR '':'' s in
         if CHR '':'' \<in> set host \<or> CHR ''['' \<in> set s \<or> CHR '']'' \<in> set s then None
         else Some (host, port)))"

text \<open>\<open>net.JoinHostPort\<close>\<close>

definition join_host_port :: "string \<Rightarrow> string \<Rightarrow> string" where
  "join_host_port host port =
     (if CHR '':'' \<in> set host \<or> CHR ''%'' \<in> set host then ''['' @ host @ '']:'' @ port else host @ '':'' @ port)"

section \<open>IP addresses\<close>

text \<open>\<open>net.ParseIP\<close>, as the sixteen bytes of the IPv6 form.\<close>

definition ipv4_field :: "string \<Rightarrow> nat option" where
  "ipv4_field s =
     (if s = [] \<or> \<not> list_all is_digit s \<or> 255 < digits_value s \<or> 1 < length s \<and> hd s = CHR ''0'' then None
      else Some (digits_value s))"

definition ipv4_fields :: "string \<Rightarrow> nat list option" where
  "ipv4_fields s = (case map ipv4_field (split_on CHR ''.'' s) of
       [Some a, Some b, Some c, Some d] \<Rightarrow> Some [a, b, c, d]
     | _ \<Rightarrow> None)"

definition is_hex_digit :: "char \<Rightarrow> bool" where
  "is_hex_digit c \<longleftrightarrow> hex_value c \<noteq> None"

definition hex_number :: "string \<Rightarrow> nat" where
  "hex_number s = foldl (\<lambda>acc c. acc * 16 + (case hex_value c of Some v \<Rightarrow> v | None \<Rightarrow> 0)) 0 s"

text \<open>The groups: the bytes so far and the position of the double colon.\<close>

function ipv6_groups :: "string \<Rightarrow> nat list \<Rightarrow> nat option \<Rightarrow> (nat list \<times> nat option \<times> string) option" where
  "ipv6_groups s acc ell =
     (if 16 \<le> length acc then Some (acc, ell, s) else
      let ds = takeWhile is_hex_digit s; r = dropWhile is_hex_digit s;
          acc' = acc @ [hex_number ds div 256, hex_number ds mod 256] in
      if ds = [] \<or> 4 < length ds then None
      else if r \<noteq> [] \<and> hd r = CHR ''.'' then
        (if ell = None \<and> length acc \<noteq> 12 \<or> 12 < length acc then None
         else map_option (\<lambda>v. (acc @ v, ell, [])) (ipv4_fields s))
      else (case r of
          [] \<Rightarrow> Some (acc', ell, [])
        | c # r1 \<Rightarrow>
            if c \<noteq> CHR '':'' then None else
            (case r1 of
               [] \<Rightarrow> None
             | d # r2 \<Rightarrow>
                 if d \<noteq> CHR '':'' then ipv6_groups r1 acc' ell
                 else if ell \<noteq> None then None
                 else if r2 = [] then Some (acc', Some (length acc'), [])
                 else ipv6_groups r2 acc' (Some (length acc')))))"
  by pat_completeness auto
termination
proof (relation "measure (\<lambda>(s, acc, ell). 16 - length acc)")
qed auto

declare ipv6_groups.simps [simp del]

definition parse_ipv6 :: "string \<Rightarrow> nat list option" where
  "parse_ipv6 s =
     (if s = ''::'' then Some (replicate 16 0) else
      Option.bind (if take 2 s = ''::'' then ipv6_groups (drop 2 s) [] (Some 0) else ipv6_groups s [] None)
        (\<lambda>(acc, ell, rest).
           if rest \<noteq> [] then None
           else if length acc < 16 then
             (case ell of None \<Rightarrow> None
              | Some n \<Rightarrow> Some (take n acc @ replicate (16 - length acc) 0 @ drop n acc))
           else if ell = None then Some acc else None))"

definition parse_ip :: "string \<Rightarrow> nat list option" where
  "parse_ip s = (case dropWhile (\<lambda>c. c \<notin> set ''.:%'') s of
       c # _ \<Rightarrow>
         if c = CHR ''.'' then map_option (\<lambda>v. replicate 10 0 @ [255, 255] @ v) (ipv4_fields s)
         else if c = CHR '':'' then (if CHR ''%'' \<in> set s then None else parse_ipv6 s)
         else None
     | [] \<Rightarrow> None)"

definition mapped_ipv4 :: "nat list \<Rightarrow> bool" where
  "mapped_ipv4 ip \<longleftrightarrow> take 12 ip = replicate 10 0 @ [255, 255]"

definition ip_loopback :: "nat list \<Rightarrow> bool" where
  "ip_loopback ip \<longleftrightarrow> (if mapped_ipv4 ip then ip ! 12 = 127 else ip = replicate 15 0 @ [1])"

definition ip_unspecified :: "nat list \<Rightarrow> bool" where
  "ip_unspecified ip \<longleftrightarrow> ip = replicate 10 0 @ [255, 255, 0, 0, 0, 0] \<or> ip = replicate 16 0"

end
