(* ===== verification/Go_Json.thy ===== *)
theory Go_Json
  imports Go_Net
begin

text \<open>
  Reading a request body with \<open>encoding/json\<close>: the scanner (tokens, then the stack machine of
  \<open>scanner.go\<close>), the text of string literals, and the decoding of an object into a struct with
  \<open>DisallowUnknownFields\<close>. The texts of the errors are not modelled, and neither is the nesting
  limit, which only decides which error a body gets: no field of a request holds an array.
\<close>

section \<open>Tokens\<close>

datatype json =
    JNull
  | JBool bool
  | JNumber string
  | JString string
  | JArray "json list"
  | JObject "(string \<times> json) list"

datatype token =
    TOpen | TClose | TOpenArray | TCloseArray | TColon | TComma
  | TScalar json
  | TString string
  | TBad

definition json_space :: "char \<Rightarrow> bool" where
  "json_space c \<longleftrightarrow> byte_of c \<in> {9, 10, 13, 32}"

text \<open>After the opening quote: the text as written, and what follows the closing quote.\<close>

function scan_string :: "string \<Rightarrow> (string \<times> string) option" where
  "scan_string [] = None"
| "scan_string (c # cs) =
     (if c = CHR 0x22 then Some ([], cs)
      else if c = CHR 0x5C then
        (case cs of [] \<Rightarrow> None
         | e # r \<Rightarrow>
             if e = CHR ''u'' then
               (if 4 \<le> length r \<and> list_all is_hex_digit (take 4 r)
                then map_option (\<lambda>(t, q). (c # e # take 4 r @ t, q)) (scan_string (drop 4 r)) else None)
             else if e \<in> set ''bfnrt/'' \<or> e = CHR 0x5C \<or> e = CHR 0x22
             then map_option (\<lambda>(t, q). (c # e # t, q)) (scan_string r) else None)
      else if byte_of c < 32 then None
      else map_option (\<lambda>(t, q). (c # t, q)) (scan_string cs))"
  by pat_completeness auto
termination
  by (relation "measure length") auto

declare scan_string.simps(2) [simp del]

lemma scan_string_shorter: "scan_string cs = Some (t, r) \<Longrightarrow> length r < length cs"
proof (induction "length cs" arbitrary: cs t rule: less_induct)
  case less
  have step: "length r < length (c # cs')"
    if "map_option (\<lambda>(t, q). (g t, q)) (scan_string q) = Some (t, r)" "length q \<le> length cs'" "cs = c # cs'"
    for g :: "string \<Rightarrow> string" and q c cs'
  proof -
    from that(1) obtain u where "scan_string q = Some (u, r)" by auto
    with less.hyps [of q u] that(2,3) show ?thesis by simp
  qed
  show ?case
  proof (cases cs)
    case (Cons c cs')
    show ?thesis
      using less.prems step [OF _ _ Cons] unfolding Cons scan_string.simps(2)
      by (cases cs') (auto split: if_splits)
  qed (use less.prems in simp)
qed

text \<open>The longest number, with the digits a sign, a point and an exponent must have.\<close>

definition scan_digits :: "string \<Rightarrow> (string \<times> string) option" where
  "scan_digits s = (case takeWhile is_digit s of [] \<Rightarrow> None | ds \<Rightarrow> Some (ds, dropWhile is_digit s))"

definition scan_fraction :: "string \<Rightarrow> (string \<times> string) option" where
  "scan_fraction s = (case s of c # r \<Rightarrow>
       if c = CHR ''.'' then map_option (\<lambda>(ds, q). (c # ds, q)) (scan_digits r) else Some ([], s)
     | [] \<Rightarrow> Some ([], []))"

definition scan_exponent :: "string \<Rightarrow> (string \<times> string) option" where
  "scan_exponent s = (case s of c # r \<Rightarrow>
       if c = CHR ''e'' \<or> c = CHR ''E'' then
         (case r of d # q \<Rightarrow> if d = CHR ''+'' \<or> d = CHR ''-''
            then map_option (\<lambda>(ds, z). (c # d # ds, z)) (scan_digits q)
            else map_option (\<lambda>(ds, z). (c # ds, z)) (scan_digits r)
          | [] \<Rightarrow> None)
       else Some ([], s)
     | [] \<Rightarrow> Some ([], []))"

definition scan_number :: "string \<Rightarrow> (string \<times> string) option" where
  "scan_number s =
     (let (sign, u) = (if s \<noteq> [] \<and> hd s = CHR ''-'' then ([CHR ''-''], tl s) else ([], s)) in
      case u of [] \<Rightarrow> None
      | c # r \<Rightarrow> Option.bind (if c = CHR ''0'' then Some ([c], r) else scan_digits u) (\<lambda>(i, r1).
          Option.bind (scan_fraction r1) (\<lambda>(f, r2).
          Option.bind (scan_exponent r2) (\<lambda>(e, r3). Some (sign @ i @ f @ e, r3)))))"

text \<open>One token, and what follows it.\<close>

definition next_token :: "char \<Rightarrow> string \<Rightarrow> token \<times> string" where
  "next_token c cs =
     (if c = CHR 0x7B then (TOpen, cs) else if c = CHR 0x7D then (TClose, cs)
      else if c = CHR ''['' then (TOpenArray, cs) else if c = CHR '']'' then (TCloseArray, cs)
      else if c = CHR '':'' then (TColon, cs) else if c = CHR '','' then (TComma, cs)
      else if c = CHR 0x22 then
        (case scan_string cs of Some (t, r) \<Rightarrow> (TString t, r) | None \<Rightarrow> (TBad, []))
      else if take 4 (c # cs) = ''null'' then (TScalar JNull, drop 3 cs)
      else if take 4 (c # cs) = ''true'' then (TScalar (JBool True), drop 3 cs)
      else if take 5 (c # cs) = ''false'' then (TScalar (JBool False), drop 4 cs)
      else (case scan_number (c # cs) of
          Some (t, r) \<Rightarrow> (if length r \<le> length cs then (TScalar (JNumber t), r) else (TBad, []))
        | None \<Rightarrow> (TBad, [])))"

lemma next_token_shorter: "length (snd (next_token c cs)) \<le> length cs"
  by (auto simp: next_token_def split: option.split dest: scan_string_shorter)

text \<open>The tokens, each with the bytes after it; a token that is not one ends the list.\<close>

function tokens :: "string \<Rightarrow> (token \<times> string) list" where
  "tokens [] = []"
| "tokens (c # cs) = (if json_space c then tokens cs else next_token c cs # tokens (snd (next_token c cs)))"
  by pat_completeness auto
termination
  by (relation "measure length") (auto simp: le_imp_less_Suc next_token_shorter)

section \<open>The text of a string literal\<close>

definition hex4 :: "string \<Rightarrow> nat" where
  "hex4 s = hex_number (take 4 s)"

text \<open>\<open>utf8.EncodeRune\<close>\<close>

definition encode_rune :: "nat \<Rightarrow> string" where
  "encode_rune r0 =
     (let r = (if 0xD800 \<le> r0 \<and> r0 < 0xE000 \<or> 0x10FFFF < r0 then rune_error else r0) in
      if r < 0x80 then [char_of r]
      else if r < 0x800 then [char_of (192 + r div 64), char_of (128 + r mod 64)]
      else if r < 0x10000 then [char_of (224 + r div 4096), char_of (128 + r div 64 mod 64), char_of (128 + r mod 64)]
      else [char_of (240 + r div 262144), char_of (128 + r div 4096 mod 64),
            char_of (128 + r div 64 mod 64), char_of (128 + r mod 64)])"

definition escape_char :: "char \<Rightarrow> char" where
  "escape_char e =
     (if e = CHR ''b'' then CHR 0x08 else if e = CHR ''f'' then CHR 0x0C else if e = CHR ''n'' then CHR 0x0A
      else if e = CHR ''r'' then CHR 0x0D else if e = CHR ''t'' then CHR 0x09 else e)"

text \<open>The second half of a surrogate pair, when it is one.\<close>

definition low_surrogate :: "nat \<Rightarrow> string \<Rightarrow> nat option" where
  "low_surrogate high s =
     (if 6 \<le> length s \<and> take 2 s = [CHR 0x5C, CHR ''u''] \<and> high < 0xDC00 \<and>
         0xDC00 \<le> hex4 (drop 2 s) \<and> hex4 (drop 2 s) < 0xE000
      then Some (0x10000 + (high - 0xD800) * 1024 + (hex4 (drop 2 s) - 0xDC00)) else None)"

function unquote :: "string \<Rightarrow> string" where
  "unquote [] = []"
| "unquote (c # cs) =
     (if c = CHR 0x5C then
        (case cs of [] \<Rightarrow> []
         | e # r \<Rightarrow>
             if e = CHR ''u'' then
               (let rr = hex4 r; q = drop 4 r in
                if 0xD800 \<le> rr \<and> rr < 0xE000 then
                  (case low_surrogate rr q of
                     Some rune \<Rightarrow> encode_rune rune @ unquote (drop 6 q)
                   | None \<Rightarrow> encode_rune rune_error @ unquote q)
                else encode_rune rr @ unquote q)
             else escape_char e # unquote r)
      else if byte_of c < 128 then c # unquote cs
      else (let (r, w) = decode_rune (c # cs) in encode_rune r @ unquote (drop (max 1 w) (c # cs))))"
  by pat_completeness auto
termination
  by (relation "measure length") auto

declare unquote.simps(2) [simp del]

section \<open>Values\<close>

text \<open>The scanner's stack: the values read so far, the newest first, and an open member's key.\<close>

datatype nesting = InArray "json list" | InObject "(string \<times> json) list" string

datatype expects = WantValue | WantElement | WantKey | WantMember | WantColon | WantNext

text \<open>A value is complete: the whole text is, or the enclosing array or object goes on.\<close>

fun value_done :: "json \<Rightarrow> nesting list \<Rightarrow> (expects \<times> nesting list) + json" where
  "value_done v [] = Inr v"
| "value_done v (InArray vs # st) = Inl (WantNext, InArray (v # vs) # st)"
| "value_done v (InObject kvs k # st) = Inl (WantNext, InObject ((k, v) # kvs) k # st)"

definition begin_value :: "token \<Rightarrow> nesting list \<Rightarrow> ((expects \<times> nesting list) + json) option" where
  "begin_value t st = (case t of
       TScalar v \<Rightarrow> Some (value_done v st)
     | TString s \<Rightarrow> Some (value_done (JString (unquote s)) st)
     | TOpenArray \<Rightarrow> Some (Inl (WantElement, InArray [] # st))
     | TOpen \<Rightarrow> Some (Inl (WantMember, InObject [] [] # st))
     | _ \<Rightarrow> None)"

definition begin_member :: "token \<Rightarrow> nesting list \<Rightarrow> ((expects \<times> nesting list) + json) option" where
  "begin_member t st = (case (t, st) of
       (TString s, InObject kvs _ # r) \<Rightarrow> Some (Inl (WantColon, InObject kvs (unquote s) # r))
     | _ \<Rightarrow> None)"

fun scan_step :: "expects \<Rightarrow> nesting list \<Rightarrow> token \<Rightarrow> ((expects \<times> nesting list) + json) option" where
  "scan_step WantValue st t = begin_value t st"
| "scan_step WantElement (InArray [] # st) TCloseArray = Some (value_done (JArray []) st)"
| "scan_step WantElement st t = begin_value t st"
| "scan_step WantMember (InObject [] k # st) TClose = Some (value_done (JObject []) st)"
| "scan_step WantMember st t = begin_member t st"
| "scan_step WantKey st t = begin_member t st"
| "scan_step WantColon st t = (if t = TColon then Some (Inl (WantValue, st)) else None)"
| "scan_step WantNext (InArray vs # st) t =
     (if t = TComma then Some (Inl (WantValue, InArray vs # st))
      else if t = TCloseArray then Some (value_done (JArray (rev vs)) st) else None)"
| "scan_step WantNext (InObject kvs k # st) t =
     (if t = TComma then Some (Inl (WantKey, InObject kvs k # st))
      else if t = TClose then Some (value_done (JObject (rev kvs)) st) else None)"
| "scan_step WantNext [] t = None"

fun scan_value :: "expects \<Rightarrow> nesting list \<Rightarrow> (token \<times> string) list \<Rightarrow> (json \<times> string) option" where
  "scan_value m st [] = None"
| "scan_value m st ((t, rest) # ts) =
     (case scan_step m st t of
        None \<Rightarrow> None
      | Some (Inr v) \<Rightarrow> Some (v, rest)
      | Some (Inl (m', st')) \<Rightarrow> scan_value m' st' ts)"

text \<open>
  \<open>Decoder.Decode\<close>, as far as the bytes go: the next value and the bytes after it. A value that is
  no array or object is complete only when the byte after it, or the end of the body, was read.
\<close>

definition is_container :: "json \<Rightarrow> bool" where
  "is_container v = (case v of JArray _ \<Rightarrow> True | JObject _ \<Rightarrow> True | _ \<Rightarrow> False)"

definition read_json :: "bool \<Rightarrow> string \<Rightarrow> (json \<times> string) option" where
  "read_json clean_end body =
     (case scan_value WantValue [] (tokens body) of
        None \<Rightarrow> None
      | Some (v, rest) \<Rightarrow>
          if rest = [] \<and> \<not> clean_end \<and> \<not> is_container v then None
          else Some (v, rest))"

section \<open>Structs\<close>

text \<open>A field assigns its value to the struct; \<open>None\<close> is an error. A \<open>null\<close> is ignored.\<close>

type_synonym 'a field = "json \<Rightarrow> 'a \<Rightarrow> 'a option"

definition string_field :: "(string \<Rightarrow> 'a \<Rightarrow> 'a) \<Rightarrow> 'a field" where
  "string_field upd j a = (case j of JString s \<Rightarrow> Some (upd s a) | JNull \<Rightarrow> Some a | _ \<Rightarrow> None)"

definition uint64_field :: "(u64 \<Rightarrow> 'a \<Rightarrow> 'a) \<Rightarrow> 'a field" where
  "uint64_field upd j a = (case j of
       JNumber t \<Rightarrow> map_option (\<lambda>n. upd (of_nat n) a) (parse_uint 64 t)
     | JNull \<Rightarrow> Some a | _ \<Rightarrow> None)"

text \<open>\<open>foldName\<close>: upper case, with the two other runes that fold to an ASCII letter.\<close>

definition fold_rune :: "nat \<Rightarrow> nat" where
  "fold_rune r = (if 97 \<le> r \<and> r \<le> 122 then r - 32 else if r = 0x17F then 83 else if r = 0x212A then 75 else r)"

definition fold_name :: "string \<Rightarrow> nat list" where
  "fold_name s = map fold_rune (runes s)"

definition find_field :: "(string \<times> 'a field) list \<Rightarrow> string \<Rightarrow> 'a field option" where
  "find_field fields k = (case map_of fields k of
       Some f \<Rightarrow> Some f
     | None \<Rightarrow> map_option snd (List.find (\<lambda>(name, f). fold_name name = fold_name k) fields))"

fun decode_members :: "(string \<times> 'a field) list \<Rightarrow> (string \<times> json) list \<Rightarrow> 'a \<Rightarrow> 'a option" where
  "decode_members fields [] a = Some a"
| "decode_members fields ((k, v) # kvs) a =
     Option.bind (find_field fields k) (\<lambda>f. Option.bind (f v a) (decode_members fields kvs))"

definition struct_fields :: "(string \<times> 'a field) list \<Rightarrow> 'a field" where
  "struct_fields fields j a = (case j of JObject kvs \<Rightarrow> decode_members fields kvs a | JNull \<Rightarrow> Some a | _ \<Rightarrow> None)"

definition nested_field :: "('a \<Rightarrow> 'b) \<Rightarrow> ('b \<Rightarrow> 'a \<Rightarrow> 'a) \<Rightarrow> (string \<times> 'b field) list \<Rightarrow> 'a field" where
  "nested_field get put fields j a = map_option (\<lambda>b. put b a) (struct_fields fields j (get a))"

end
