(* ===== verification/Boot.thy ===== *)
theory Boot
  imports Swaps Rebroadcast Go_Json
begin

text \<open>
  Starting and stopping the process: its state (the daemon's state, the resources it holds open and
  the schema of the database file, whether a goroutine has ended the process), the packages and system calls only the start uses, and the
  opening of the database, \<open>Open\<close> of \<open>internal/meta/store.go\<close>.
\<close>

section \<open>Resources, errors and state\<close>

datatype resource = RecordsDB | ChainDB | IndexDB | PeerListener | SyncerTask | WalletManager | LoopTask | ApiListener

datatype boot_error =
    TrailingManifest
  | MainnetOnly
  | BadPeer string
  | PeerRequired
  | OtherGenesis
  | OneAdvertised
  | FileRequired string
  | FileTooLarge string
  | FileEmpty string
  | ExtraArguments
  | ShortPassphrase
  | WalletExists
  | BadCount
  | ChildMismatch u64
  | BadToken
  | RemoteBinding
  | NotInitialized
  | UnknownCommand string
  | Failed error
  | Context string boot_error

text \<open>The rows of \<open>schema_version\<close>, the tables of the file with their columns, and its indexes with
  their table and columns.\<close>

record schema =
  sv_rows :: "nat list"
  sv_tables :: "string \<rightharpoonup> string list"
  sv_indexes :: "string \<rightharpoonup> string \<times> string list"

text \<open>\<open>died\<close>: a panic outside the main goroutine has ended the process, which starts without one.\<close>

record 'x boot =
  daemon :: "'x sys"
  handles :: "resource list"
  schema :: schema
  died :: bool

type_synonym ('x, 'a) b = "('x boot, boot_error, 'a) comp"

section \<open>The packages and system calls of the start\<close>

record manifest =
  mf_genesis :: bytes \<comment> \<open>\<open>Genesis.ID()\<close>\<close>
  mf_development :: bool
  mf_rest :: bytes

record wallet_info =
  wl_id :: nat
  wl_name :: string

record 'x node_env = "'x env" +
  join_path :: "string list \<Rightarrow> string" \<comment> \<open>\<open>filepath.Join\<close>, which depends on the system\<close>
  os_name :: string \<comment> \<open>\<open>runtime.GOOS\<close>\<close>
  get_env :: "string \<Rightarrow> string"
  version_text :: string
  manifest_of_json :: "json \<Rightarrow> error + manifest"
  manifest_validate :: "manifest \<Rightarrow> error option"
  embedded_manifest :: string
  is_not_exist :: "error \<Rightarrow> bool"
  is_exist :: "error \<Rightarrow> bool"
  is_closed :: "error \<Rightarrow> bool" \<comment> \<open>\<open>errors.Is\<close> with \<open>net.ErrClosed\<close> or \<open>http.ErrServerClosed\<close>\<close>
  stat_file :: "string \<Rightarrow> 'x \<Rightarrow> (error + nat) \<times> 'x"
  read_file :: "string \<Rightarrow> 'x \<Rightarrow> (error + string) \<times> 'x"
  open_file :: "string \<Rightarrow> 'x \<Rightarrow> (error + string \<times> bool) \<times> 'x" \<comment> \<open>the content, and whether it is read to its end\<close>
  create_file :: "string \<Rightarrow> string \<Rightarrow> 'x \<Rightarrow> error option \<times> 'x" \<comment> \<open>exclusively; the first error of create, write, sync, close\<close>
  random_bytes :: "'x \<Rightarrow> (error + bytes) \<times> 'x"
  make_dir :: "string \<Rightarrow> 'x \<Rightarrow> error option \<times> 'x"
  chmod_dir :: "string \<Rightarrow> 'x \<Rightarrow> error option \<times> 'x"
  new_seed :: "'x \<Rightarrow> bytes \<times> 'x"
  seed_of_phrase :: "string \<Rightarrow> error + bytes"
  phrase_of_seed :: "bytes \<Rightarrow> string"
  write_key :: "string \<Rightarrow> string \<Rightarrow> bytes \<Rightarrow> qkeys \<Rightarrow> 'x \<Rightarrow> error option \<times> 'x"
  open_resource :: "resource \<Rightarrow> string \<Rightarrow> 'x \<Rightarrow> (error + string) \<times> 'x" \<comment> \<open>with a path or address; returns the bound address\<close>
  close_resource :: "resource \<Rightarrow> 'x \<Rightarrow> error option \<times> 'x"
  new_db_store :: "manifest \<Rightarrow> 'x \<Rightarrow> error option \<times> 'x"
  add_peer :: "string \<Rightarrow> 'x \<Rightarrow> error option \<times> 'x"
  new_peer_store :: "'x \<Rightarrow> error option \<times> 'x"
  run_syncer :: "bytes \<Rightarrow> string \<Rightarrow> string list \<Rightarrow> 'x \<Rightarrow> unit \<times> 'x" \<comment> \<open>genesis, own address, bootstrap peers\<close>
  wm_wallets :: "'x \<Rightarrow> (error + wallet_info list) \<times> 'x"
  wm_add_wallet :: "string \<Rightarrow> string \<Rightarrow> 'x \<Rightarrow> (error + wallet_info) \<times> 'x"
  new_logger :: "'x \<Rightarrow> error option \<times> 'x"
  serve_until :: "'x \<Rightarrow> error option \<times> 'x" \<comment> \<open>the server's error, or the context is done\<close>
  shut_down :: "'x \<Rightarrow> error option \<times> 'x"

section \<open>Calls\<close>

definition call :: "('x \<Rightarrow> 'a \<times> 'x) \<Rightarrow> ('x, 'a) b" where
  "call f = (\<lambda>s. case f (world (daemon s)) of (a, w) \<Rightarrow> (Ok a, s\<lparr>daemon := (daemon s)\<lparr>world := w\<rparr>\<rparr>))"

definition failed :: "error + 'a \<Rightarrow> ('x, 'a) b" where
  "failed r = (case r of Inl e \<Rightarrow> fail (Failed e) | Inr a \<Rightarrow> ret a)"

definition call_sum :: "('x \<Rightarrow> (error + 'a) \<times> 'x) \<Rightarrow> ('x, 'a) b" where
  "call_sum f = bnd (call f) failed"

definition call_err :: "('x \<Rightarrow> error option \<times> 'x) \<Rightarrow> ('x, unit) b" where
  "call_err f = bnd (call f) (\<lambda>e. lift_err (map_option Failed e))"

text \<open>A method of the store or the service.\<close>

definition on_daemon :: "('x sys, 'a) m \<Rightarrow> ('x, 'a) b" where
  "on_daemon m = (\<lambda>s. case m (daemon s) of
       (Ok a, d) \<Rightarrow> (Ok a, s\<lparr>daemon := d\<rparr>)
     | (Err e, d) \<Rightarrow> (Err (Failed e), s\<lparr>daemon := d\<rparr>)
     | (Panic, d) \<Rightarrow> (Panic, s\<lparr>daemon := d\<rparr>)
     | (Hang, d) \<Rightarrow> (Hang, s\<lparr>daemon := d\<rparr>))"

text \<open>\<open>fmt.Errorf("prefix: %w", err)\<close>\<close>

definition in_context :: "string \<Rightarrow> ('x, 'a) b \<Rightarrow> ('x, 'a) b" where
  "in_context msg m = (\<lambda>s. case m s of (Err e, t) \<Rightarrow> (Err (Context msg e), t) | r \<Rightarrow> r)"

definition acquire :: "('x, 'z) node_env_scheme \<Rightarrow> resource \<Rightarrow> string \<Rightarrow> ('x, string) b" where
  "acquire E r arg =
     bnd (call_sum (open_resource E r arg)) (\<lambda>bound.
     bnd (mod_st (\<lambda>s. s\<lparr>handles := r # handles s\<rparr>)) (\<lambda>_. ret bound))"

text \<open>\<open>r.Close()\<close>: the handle is gone, with an error or without.\<close>

definition release :: "('x, 'z) node_env_scheme \<Rightarrow> resource \<Rightarrow> ('x, error option) b" where
  "release E r =
     bnd (call (close_resource E r)) (\<lambda>e.
     bnd (mod_st (\<lambda>s. s\<lparr>handles := filter (\<lambda>x. x \<noteq> r) (handles s)\<rparr>)) (\<lambda>_. ret e))"

definition release_all :: "('x, 'z) node_env_scheme \<Rightarrow> resource list \<Rightarrow> ('x, unit) b" where
  "release_all E rs = fold_c (\<lambda>r _. bnd (release E r) (\<lambda>_. ret ())) rs ()"

text \<open>The cleanup before a return with an error: the handles, in the order in which they are closed.\<close>

definition or_release :: "('x, 'z) node_env_scheme \<Rightarrow> resource list \<Rightarrow> ('x, 'a) b \<Rightarrow> ('x, 'a) b" where
  "or_release E rs m = (\<lambda>s. case m s of
       (Err e, t) \<Rightarrow> bnd (release_all E rs) (\<lambda>_. fail e) t
     | r \<Rightarrow> r)"

text \<open>A deferred \<open>Close\<close>: after a return, with an error or without, and on a panic of the goroutine that
  deferred it; a panic of another goroutine ends the process without it.\<close>

definition deferring :: "('x, unit) b \<Rightarrow> ('x, 'a) b \<Rightarrow> ('x, 'a) b" where
  "deferring last_step m = (\<lambda>s. case m s of
       (Ok a, t) \<Rightarrow> bnd last_step (\<lambda>_. ret a) t
     | (Err e, t) \<Rightarrow> bnd last_step (\<lambda>_. fail e) t
     | (Panic, t) \<Rightarrow> if died t then (Panic, t) else bnd last_step (\<lambda>_. panic) t
     | (Hang, t) \<Rightarrow> (Hang, t))"

section \<open>Opening the database\<close>

text \<open>One statement of the schema script: the engine fails, or refuses it, or carries it out.\<close>

definition schema_statement :: "('x, 'z) node_env_scheme \<Rightarrow> (schema \<Rightarrow> bool) \<Rightarrow> (schema \<Rightarrow> schema) \<Rightarrow> ('x, unit) b" where
  "schema_statement E admits f =
     bnd (on_daemon (statement E)) (\<lambda>_.
     bnd (get_st schema) (\<lambda>c.
     bnd (guard_err (\<not> admits c) (Failed (Sto (ConstraintFailed ''schema'')))) (\<lambda>_.
     mod_st (\<lambda>s. s\<lparr>schema := f (schema s)\<rparr>))))"

definition has_columns :: "string \<Rightarrow> string list \<Rightarrow> schema \<Rightarrow> bool" where
  "has_columns table columns c = (case sv_tables c table of None \<Rightarrow> False | Some cs \<Rightarrow> set columns \<subseteq> set cs)"

text \<open>\<open>CREATE TABLE IF NOT EXISTS\<close>: a table that exists is left as it is.\<close>

definition create_table :: "('x, 'z) node_env_scheme \<Rightarrow> string \<Rightarrow> string list \<Rightarrow> ('x, unit) b" where
  "create_table E table columns = schema_statement E (\<lambda>_. True)
     (\<lambda>c. if sv_tables c table = None then c\<lparr>sv_tables := (sv_tables c)(table \<mapsto> columns)\<rparr> else c)"

definition address_columns :: "string list" where
  "address_columns = [''child_index'', ''address'', ''public_keys'', ''reference'', ''kind'', ''created_at'']"

definition withdrawal_columns :: "string list" where
  "withdrawal_columns = [''request_id'', ''kind'', ''transaction_blob'', ''basis_height'', ''basis_id'', ''destination'',
     ''amount_atomic'', ''fee_atomic'', ''created_at'', ''last_error'', ''confirmed_height'', ''confirmed_block_id'']"

definition swap_key_columns :: "string list" where
  "swap_key_columns = [''swap_id'', ''public_keys'', ''created_at'']"

definition swap_columns :: "string list" where
  "swap_columns = [''swap_id'', ''role'', ''recipient_keys'', ''refund_keys'', ''secret_hash'', ''refund_height'',
     ''contract_address'', ''created_at'']"

definition swap_action_columns :: "string list" where
  "swap_action_columns = [''action_id'', ''swap_id'', ''kind'', ''output_id'', ''transaction_blob'', ''basis_height'', ''basis_id'',
     ''destination'', ''amount_atomic'', ''fee_atomic'', ''created_at'', ''last_error'', ''confirmed_height'', ''confirmed_block_id'']"

definition create_tables :: "('x, 'z) node_env_scheme \<Rightarrow> ('x, unit) b" where
  "create_tables E =
     bnd (create_table E ''schema_version'' [''version'']) (\<lambda>_.
     bnd (schema_statement E (has_columns ''schema_version'' [''version''])
       (\<lambda>c. c\<lparr>sv_rows := (if sv_rows c = [] then [1] else sv_rows c)\<rparr>)) (\<lambda>_.
     bnd (create_table E ''addresses'' address_columns) (\<lambda>_.
     bnd (create_table E ''withdrawals'' withdrawal_columns) (\<lambda>_.
     bnd (create_table E ''swap_keys'' swap_key_columns) (\<lambda>_.
     bnd (create_table E ''swaps'' swap_columns) (\<lambda>_.
     create_table E ''swap_actions'' swap_action_columns))))))"

text \<open>\<open>PRAGMA table_info(withdrawals)\<close>\<close>

definition table_columns :: "('x, 'z) node_env_scheme \<Rightarrow> ('x, string list) b" where
  "table_columns E =
     bnd (on_daemon (statement E)) (\<lambda>_.
     get_st (\<lambda>s. case sv_tables (schema s) ''withdrawals'' of None \<Rightarrow> [] | Some cs \<Rightarrow> cs))"

text \<open>\<open>ALTER TABLE withdrawals ADD COLUMN\<close>, where the column was not there.\<close>

definition add_column :: "('x, 'z) node_env_scheme \<Rightarrow> string list \<Rightarrow> string \<Rightarrow> ('x, unit) b" where
  "add_column E columns name =
     (if name \<in> set columns then ret ()
      else schema_statement E
        (\<lambda>c. has_columns ''withdrawals'' [] c \<and> \<not> has_columns ''withdrawals'' [name] c)
        (\<lambda>c. c\<lparr>sv_tables := (sv_tables c)(''withdrawals'' := map_option (\<lambda>cs. cs @ [name]) (sv_tables c ''withdrawals''))\<rparr>))"

text \<open>\<open>CREATE INDEX IF NOT EXISTS\<close>: the table has to be there, and the columns of a new index.\<close>

definition create_index :: "('x, 'z) node_env_scheme \<Rightarrow> string \<Rightarrow> string \<Rightarrow> string list \<Rightarrow> ('x, unit) b" where
  "create_index E name table columns = schema_statement E
     (\<lambda>c. has_columns table [] c \<and> (sv_indexes c name \<noteq> None \<or> has_columns table columns c))
     (\<lambda>c. if sv_indexes c name = None then c\<lparr>sv_indexes := (sv_indexes c)(name \<mapsto> (table, columns))\<rparr> else c)"

definition create_indexes :: "('x, 'z) node_env_scheme \<Rightarrow> ('x, unit) b" where
  "create_indexes E =
     bnd (create_index E ''withdrawals_confirmed_height'' ''withdrawals'' [''confirmed_height'']) (\<lambda>_.
     bnd (create_index E ''swap_actions_confirmed_height'' ''swap_actions'' [''confirmed_height'']) (\<lambda>_.
     bnd (create_index E ''swap_actions_swap_id'' ''swap_actions'' [''swap_id'', ''created_at'']) (\<lambda>_.
     schema_statement E (has_columns ''schema_version'' [''version''])
       (\<lambda>c. c\<lparr>sv_rows := map (\<lambda>_. 3) (sv_rows c)\<rparr>))))"

definition open_store :: "('x, 'z) node_env_scheme \<Rightarrow> string \<Rightarrow> ('x, unit) b" where
  "open_store E path =
     bnd (acquire E RecordsDB path) (\<lambda>_.
     or_release E [RecordsDB]
       (bnd (create_tables E) (\<lambda>_.
        bnd (table_columns E) (\<lambda>columns.
        bnd (add_column E columns ''confirmed_height'') (\<lambda>_.
        bnd (add_column E columns ''confirmed_block_id'') (\<lambda>_.
        create_indexes E))))))"

definition close_store :: "('x, 'z) node_env_scheme \<Rightarrow> ('x, error option) b" where
  "close_store E = release E RecordsDB"

end
