(* ===== verification/Node.thy ===== *)
theory Node
  imports Boot
begin

text \<open>
  \<open>internal/daemon/node.go\<close>: the list of peers, the mainnet manifest, the opening of the node with
  the registration of every stored address and contract, its closing; and \<open>NewService\<close> and \<open>Close\<close>
  of \<open>service.go\<close>.
\<close>

section \<open>Peers and manifest\<close>

text \<open>One entry of the list: \<open>None\<close> when it is blank, an error when it is no host and port.\<close>

definition peer_of :: "string \<Rightarrow> boot_error + string option" where
  "peer_of entry =
     (let value = trim_space entry in
      if value = [] then Inr None else
      case split_host_port value of
        None \<Rightarrow> Inl (BadPeer value)
      | Some (host, port) \<Rightarrow>
          (case parse_uint 16 port of
             None \<Rightarrow> Inl (BadPeer value)
           | Some n \<Rightarrow> if host = [] \<or> n = 0 then Inl (BadPeer value) else Inr (Some value)))"

fun collect_peers :: "string list \<Rightarrow> string list \<Rightarrow> boot_error + string list" where
  "collect_peers [] peers = Inr peers"
| "collect_peers (entry # rest) peers =
     (case peer_of entry of
        Inl e \<Rightarrow> Inl e
      | Inr None \<Rightarrow> collect_peers rest peers
      | Inr (Some v) \<Rightarrow> collect_peers rest (if v \<in> set peers then peers else peers @ [v]))"

definition parse_peers :: "string \<Rightarrow> boot_error + string list" where
  "parse_peers value =
     (case collect_peers (split_on CHR '','' value) [] of
        Inl e \<Rightarrow> Inl e
      | Inr peers \<Rightarrow> if peers = [] then Inl PeerRequired else Inr peers)"

text \<open>The first MiB of the manifest; what follows is not read.\<close>

definition manifest_limit :: nat where
  "manifest_limit = 1048576"

definition decode_manifest :: "('x, 'z) node_env_scheme \<Rightarrow> string \<times> bool \<Rightarrow> boot_error + manifest" where
  "decode_manifest E = (\<lambda>(content, ends).
     let clean = (ends \<or> manifest_limit \<le> length content) in
     case read_json clean (take manifest_limit content) of
       None \<Rightarrow> Inl (Failed (Foreign ''invalid manifest''))
     | Some (j, rest) \<Rightarrow>
         (case manifest_of_json E j of
            Inl e \<Rightarrow> Inl (Failed e)
          | Inr mf \<Rightarrow>
              if \<not> (clean \<and> list_all json_space rest) then Inl TrailingManifest
              else (case manifest_validate E mf of
                  Some e \<Rightarrow> Inl (Failed e)
                | None \<Rightarrow> if mf_development mf then Inl MainnetOnly else Inr mf)))"

definition load_manifest :: "('x, 'z) node_env_scheme \<Rightarrow> string \<Rightarrow> ('x, manifest) b" where
  "load_manifest E path = bnd (call_sum (open_file E path)) (\<lambda>content. lift_sum (decode_manifest E content))"

section \<open>Opening the node\<close>

record node_config =
  nc_data :: string
  nc_manifest_path :: string
  nc_manifest :: string
  nc_p2p :: string
  nc_advertise :: string
  nc_peers :: "string list"

text \<open>The address told to the peers.\<close>

definition advertised :: "string \<Rightarrow> string \<Rightarrow> boot_error + string" where
  "advertised configured bound =
     (if configured = [] then
        (let (host, port) = (case split_host_port bound of None \<Rightarrow> ([], []) | Some p \<Rightarrow> p) in
         Inr (case parse_ip host of
             None \<Rightarrow> join_host_port ''127.0.0.1'' port
           | Some ip \<Rightarrow> if ip_unspecified ip then join_host_port ''127.0.0.1'' port else bound))
      else case parse_peers configured of
          Inl e \<Rightarrow> Inl (Context ''invalid advertised address: '' e)
        | Inr peers \<Rightarrow> if length peers \<noteq> 1 then Inl (Context ''invalid advertised address: '' OneAdvertised)
            else Inr configured)"

text \<open>The wallet of the index with the given name; the last one counts.\<close>

definition named_wallet :: "string \<Rightarrow> wallet_info list \<Rightarrow> wallet_info" where
  "named_wallet name found = foldl (\<lambda>w c. if wl_name c = name then c else w) \<lparr>wl_id = 0, wl_name = []\<rparr> found"

definition ensure_wallet :: "('x, 'z) node_env_scheme \<Rightarrow> wallet_info \<Rightarrow> string \<Rightarrow> string \<Rightarrow> ('x, wallet_info) b" where
  "ensure_wallet E w name description =
     (if wl_id w = 0 then call_sum (wm_add_wallet E name description) else ret w)"

definition custody_entry :: "('x, 'z) node_env_scheme \<Rightarrow> addr_rec \<Rightarrow> wallet_address" where
  "custody_entry E a = (let policy = keys_policy E (a_public a) in
     \<lparr>wa_address = policy_address E policy, wa_policy = policy, wa_description = a_reference a\<rparr>)"

definition batch_size :: int where
  "batch_size = 1000"

definition address_batch :: "('x, 'z) node_env_scheme \<Rightarrow> nat \<Rightarrow> int \<Rightarrow> ('x, int + unit) b" where
  "address_batch E wid offset =
     bnd (on_daemon (addresses_page E batch_size offset)) (\<lambda>found.
     if found = [] then ret (Inr ()) else
     bnd (in_context (''register address batch at offset '' @ decimal_digits (nat offset) @ '': '')
       (call_err (wm_add_addresses E wid (map (custody_entry E) found)))) (\<lambda>_.
     ret (if int (length found) < batch_size then Inr () else Inl (offset + batch_size))))"

definition register_addresses :: "('x, 'z) node_env_scheme \<Rightarrow> nat \<Rightarrow> ('x, unit) b" where
  "register_addresses E wid = loop (address_batch E wid) 0"

definition swap_entry :: "('x, 'z) node_env_scheme \<Rightarrow> swap \<Rightarrow> boot_error + wallet_address" where
  "swap_entry E sw = (case contract_policy E (swap_contract_of sw) of
       Inl e \<Rightarrow> Inl (Context (''load atomic swap '' @ quoted (s_swap sw) @ '': '') (Failed e))
     | Inr policy \<Rightarrow> Inr \<lparr>wa_address = policy_address E policy, wa_policy = policy, wa_description = s_swap sw\<rparr>)"

definition swap_batch :: "('x, 'z) node_env_scheme \<Rightarrow> nat \<Rightarrow> int \<Rightarrow> ('x, int + unit) b" where
  "swap_batch E wid offset =
     bnd (on_daemon (swaps_page E batch_size offset)) (\<lambda>found.
     if found = [] then ret (Inr ()) else
     bnd (map_c (\<lambda>sw. lift_sum (swap_entry E sw)) found) (\<lambda>batch.
     bnd (in_context (''register atomic-swap batch at offset '' @ decimal_digits (nat offset) @ '': '')
       (call_err (wm_add_addresses E wid batch))) (\<lambda>_.
     ret (if int (length found) < batch_size then Inr () else Inl (offset + batch_size)))))"

definition register_contracts :: "('x, 'z) node_env_scheme \<Rightarrow> nat \<Rightarrow> ('x, unit) b" where
  "register_contracts E wid = loop (swap_batch E wid) 0"

text \<open>With everything open: the two wallets of the index, and what they watch.\<close>

definition watch_wallets :: "('x, 'z) node_env_scheme \<Rightarrow> ('x, nat \<times> nat) b" where
  "watch_wallets E =
     bnd (call_sum (wm_wallets E)) (\<lambda>found.
     bnd (ensure_wallet E (named_wallet ''QDAY Atomic Swaps'' found) ''QDAY Atomic Swaps''
       ''qday-walletd contract index partition'') (\<lambda>swaps.
     bnd (ensure_wallet E (named_wallet ''QDAY Custody'' found) ''QDAY Custody''
       ''qday-walletd managed addresses'') (\<lambda>custody.
     bnd (register_addresses E (wl_id custody)) (\<lambda>_.
     bnd (register_contracts E (wl_id swaps)) (\<lambda>_.
     ret (wl_id custody, wl_id swaps))))))"

text \<open>\<open>syncer.New\<close> and its task; it does not fail.\<close>

definition start_syncer :: "('x, 'z) node_env_scheme \<Rightarrow> node_config \<Rightarrow> manifest \<Rightarrow> string \<Rightarrow> ('x, unit) b" where
  "start_syncer E cfg mf address =
     bnd (call (run_syncer E (mf_genesis mf) address (nc_peers cfg))) (\<lambda>_.
     mod_st (\<lambda>s. s\<lparr>handles := SyncerTask # handles s\<rparr>))"

definition node_resources :: "resource list" where
  "node_resources = [WalletManager, SyncerTask, PeerListener, IndexDB, ChainDB]"

definition choose_manifest :: "('x, 'z) node_env_scheme \<Rightarrow> node_config \<Rightarrow> ('x, manifest) b" where
  "choose_manifest E cfg = in_context ''load mainnet manifest: ''
     (if nc_manifest cfg \<noteq> [] then lift_sum (decode_manifest E (nc_manifest cfg, True))
      else load_manifest E (nc_manifest_path cfg))"

definition open_node :: "('x, 'z) node_env_scheme \<Rightarrow> node_config \<Rightarrow> ('x, unit) b" where
  "open_node E cfg =
     bnd (choose_manifest E cfg) (\<lambda>mf.
     bnd (call_err (make_dir E (nc_data cfg))) (\<lambda>_.
     bnd (call_err (chmod_dir E (nc_data cfg))) (\<lambda>_.
     bnd (acquire E ChainDB (join_path E [nc_data cfg, ''consensus.db''])) (\<lambda>_.
     bnd (or_release E [ChainDB] (call_err (new_db_store E mf))) (\<lambda>_.
     bnd (call (cm_best_index E 0)) (\<lambda>genesis.
     bnd (or_release E [ChainDB]
       (guard_err (case genesis of None \<Rightarrow> True | Some ci \<Rightarrow> ci_id ci \<noteq> mf_genesis mf) OtherGenesis)) (\<lambda>_.
     bnd (or_release E [ChainDB] (acquire E IndexDB (join_path E [nc_data cfg, ''index.sqlite3'']))) (\<lambda>_.
     bnd (or_release E [IndexDB, ChainDB] (fold_c (\<lambda>p _. call_err (add_peer E p)) (nc_peers cfg) ())) (\<lambda>_.
     bnd (or_release E [IndexDB, ChainDB] (call_err (new_peer_store E))) (\<lambda>_.
     bnd (or_release E [IndexDB, ChainDB] (in_context ''listen for QDAY peers: '' (acquire E PeerListener (nc_p2p cfg)))) (\<lambda>bound.
     bnd (or_release E [PeerListener, IndexDB, ChainDB] (lift_sum (advertised (nc_advertise cfg) bound))) (\<lambda>address.
     bnd (start_syncer E cfg mf address) (\<lambda>_.
     bnd (or_release E [SyncerTask, PeerListener, IndexDB, ChainDB] (acquire E WalletManager [])) (\<lambda>_.
     bnd (or_release E node_resources (watch_wallets E)) (\<lambda>(custody, swaps).
     mod_st (\<lambda>s. s\<lparr>daemon := (daemon s)\<lparr>the_node := \<lparr>n_development = mf_development mf, n_has_syncer = True,
       n_genesis = mf_genesis mf, n_wallet = custody, n_swap_wallet = swaps\<rparr>\<rparr>\<rparr>))))))))))))))))"

section \<open>Closing\<close>

text \<open>\<open>Node.Close\<close>: everything is closed; the first error counts, a listener closed already is none.\<close>

definition close_node :: "('x, 'z) node_env_scheme \<Rightarrow> ('x, error option) b" where
  "close_node E =
     bnd (get_st (\<lambda>s. n_has_syncer (the_node (daemon s)))) (\<lambda>has.
     bnd (if has then release E SyncerTask else ret None) (\<lambda>e1.
     bnd (release E PeerListener) (\<lambda>e2.
     bnd (release E WalletManager) (\<lambda>e3.
     bnd (release E IndexDB) (\<lambda>e4.
     bnd (release E ChainDB) (\<lambda>e5.
     let e2' = (case e2 of Some e \<Rightarrow> if is_closed E e then None else Some e | None \<Rightarrow> None) in
     ret (case List.find (\<lambda>e. e \<noteq> None) [e1, e2', e3, e4, e5] of None \<Rightarrow> None | Some e \<Rightarrow> e)))))))"

section \<open>The service\<close>

text \<open>The wallet is locked and the loop, once started, is woken; a reorganisation of the chain wakes it too.\<close>

definition new_service :: "('x, 'z) node_env_scheme \<Rightarrow> string \<Rightarrow> ('x, unit) b" where
  "new_service E path =
     bnd (mod_st (\<lambda>s. s\<lparr>daemon := (daemon s)\<lparr>mst_seed := None, key_path := path, wake := False\<rparr>,
       handles := LoopTask # handles s\<rparr>)) (\<lambda>_.
     on_daemon wake_rebroadcast)"

definition on_reorg :: "('x sys, unit) m" where
  "on_reorg = wake_rebroadcast"

definition close_service :: "('x, unit) b" where
  "close_service =
     bnd (mod_st (\<lambda>s. s\<lparr>handles := filter (\<lambda>r. r \<noteq> LoopTask) (handles s)\<rparr>)) (\<lambda>_.
     on_daemon lock_wallet)"

end
