(* ===== verification/Go_Flag.thy ===== *)
theory Go_Flag
  imports Go_Net
begin

text \<open>
  The command line with \<open>flag\<close>: the options of a \<open>FlagSet\<close> with \<open>ContinueOnError\<close>, their values,
  and what remains. The texts of the errors are not modelled.
\<close>

section \<open>Numbers with a base prefix\<close>

text \<open>The digits in a base, with underscores skipped; \<open>None\<close> for another character.\<close>

fun base_digits :: "nat \<Rightarrow> nat \<Rightarrow> string \<Rightarrow> nat option" where
  "base_digits base acc [] = Some acc"
| "base_digits base acc (c # cs) =
     (if c = CHR ''_'' then base_digits base acc cs
      else case (if is_digit c then Some (byte_of c - 48)
                 else if 97 \<le> byte_of (lower_char c) \<and> byte_of (lower_char c) \<le> 122 then Some (byte_of (lower_char c) - 87)
                 else None) of
          None \<Rightarrow> None
        | Some d \<Rightarrow> if base \<le> d then None else base_digits base (acc * base + d) cs)"

text \<open>\<open>underscoreOK\<close>: the last character seen is a digit (or the prefix), an underscore, or another one.\<close>

datatype seen = AtStart | SeenDigit | SeenUnderscore | SeenOther

fun underscores_ok :: "bool \<Rightarrow> seen \<Rightarrow> string \<Rightarrow> bool" where
  "underscores_ok hex i [] = (i \<noteq> SeenUnderscore)"
| "underscores_ok hex i (c # cs) =
     (if is_digit c \<or> hex \<and> 97 \<le> byte_of (lower_char c) \<and> byte_of (lower_char c) \<le> 102 then underscores_ok hex SeenDigit cs
      else if c = CHR ''_'' then i = SeenDigit \<and> underscores_ok hex SeenUnderscore cs
      else i \<noteq> SeenUnderscore \<and> underscores_ok hex SeenOther cs)"

definition prefix_base :: "string \<Rightarrow> nat option" where
  "prefix_base s =
     (if length s < 2 \<or> hd s \<noteq> CHR ''0'' then None
      else (let c = lower_char (s ! 1) in
        if c = CHR ''b'' then Some 2 else if c = CHR ''o'' then Some 8 else if c = CHR ''x'' then Some 16 else None))"

definition number_underscores :: "string \<Rightarrow> bool" where
  "number_underscores s =
     (let t = (if s \<noteq> [] \<and> (hd s = CHR ''-'' \<or> hd s = CHR ''+'') then tl s else s) in
      case prefix_base t of
        None \<Rightarrow> underscores_ok False AtStart t
      | Some b \<Rightarrow> underscores_ok (b = 16) SeenDigit (drop 2 t))"

text \<open>\<open>strconv.ParseUint(s, 0, 64)\<close>\<close>

definition parse_uint_any :: "string \<Rightarrow> nat option" where
  "parse_uint_any s =
     (if s = [] then None else
      let (base, digits) =
        (case (if 3 \<le> length s then prefix_base s else None) of
           Some b \<Rightarrow> (b, drop 2 s)
         | None \<Rightarrow> if hd s = CHR ''0'' then (8, tl s) else (10, s)) in
      case base_digits base 0 digits of
        None \<Rightarrow> None
      | Some n \<Rightarrow> if 2 ^ 64 \<le> n \<or> CHR ''_'' \<in> set digits \<and> \<not> number_underscores s then None else Some n)"

text \<open>\<open>strconv.ParseBool\<close>\<close>

definition parse_bool :: "string \<Rightarrow> bool option" where
  "parse_bool s =
     (if s \<in> set [''1'', ''t'', ''T'', ''true'', ''TRUE'', ''True''] then Some True
      else if s \<in> set [''0'', ''f'', ''F'', ''false'', ''FALSE'', ''False''] then Some False else None)"

section \<open>Options\<close>

datatype flag_value = FlagText string | FlagCount nat | FlagSwitch bool

type_synonym flags = "(string \<times> flag_value) list"

text \<open>A value for an option, in the kind it was declared with.\<close>

definition set_flag :: "flag_value \<Rightarrow> string \<Rightarrow> flag_value option" where
  "set_flag old v = (case old of
       FlagText _ \<Rightarrow> Some (FlagText v)
     | FlagCount _ \<Rightarrow> map_option FlagCount (parse_uint_any v)
     | FlagSwitch _ \<Rightarrow> map_option FlagSwitch (parse_bool v))"

definition put_flag :: "string \<Rightarrow> flag_value \<Rightarrow> flags \<Rightarrow> flags" where
  "put_flag name v fs = map (\<lambda>(n, w). (n, if n = name then v else w)) fs"

text \<open>The option and its \<open>=value\<close>; an argument that is none ends the options.\<close>

definition split_flag :: "string \<Rightarrow> string \<times> string option" where
  "split_flag body =
     (let name = takeWhile (\<lambda>c. c \<noteq> CHR ''='') body; rest = dropWhile (\<lambda>c. c \<noteq> CHR ''='') body in
      (name, if rest = [] then None else Some (tl rest)))"

text \<open>\<open>FlagSet.Parse\<close>: the options as set, and the arguments that remain.\<close>

fun parse_flags :: "flags \<Rightarrow> string list \<Rightarrow> (flags \<times> string list) option" where
  "parse_flags fs [] = Some (fs, [])"
| "parse_flags fs (s # rest) =
     (if length s < 2 \<or> hd s \<noteq> CHR ''-'' then Some (fs, s # rest)
      else if s = ''--'' then Some (fs, rest) else
      let body = (if s ! 1 = CHR ''-'' then drop 2 s else tl s); (name, given) = split_flag body in
      if hd body = CHR ''-'' \<or> hd body = CHR ''='' then None else
      case map_of fs name of
        None \<Rightarrow> None
      | Some (FlagSwitch b) \<Rightarrow>
          (case set_flag (FlagSwitch b) (case given of None \<Rightarrow> ''true'' | Some v \<Rightarrow> v) of
             None \<Rightarrow> None
           | Some v \<Rightarrow> parse_flags (put_flag name v fs) rest)
      | Some old \<Rightarrow>
          (case given of
             Some v \<Rightarrow> (case set_flag old v of None \<Rightarrow> None | Some w \<Rightarrow> parse_flags (put_flag name w fs) rest)
           | None \<Rightarrow>
               (case rest of
                  [] \<Rightarrow> None
                | v # rest' \<Rightarrow>
                    (case set_flag old v of None \<Rightarrow> None | Some w \<Rightarrow> parse_flags (put_flag name w fs) rest'))))"

definition flag_text :: "string \<Rightarrow> flags \<Rightarrow> string" where
  "flag_text name fs = (case map_of fs name of Some (FlagText v) \<Rightarrow> v | _ \<Rightarrow> [])"

definition flag_count :: "string \<Rightarrow> flags \<Rightarrow> nat" where
  "flag_count name fs = (case map_of fs name of Some (FlagCount n) \<Rightarrow> n | _ \<Rightarrow> 0)"

definition flag_switch :: "string \<Rightarrow> flags \<Rightarrow> bool" where
  "flag_switch name fs = (case map_of fs name of Some (FlagSwitch b) \<Rightarrow> b | _ \<Rightarrow> False)"

end
