(* ===== verification/Api.thy ===== *)
theory Api
  imports Go_Json Swaps Rebroadcast
begin

text \<open>
  \<open>internal/api/api.go\<close>: the HTTP interface. A request is what the router sees: the method, the
  segments of a clean path, the raw query, two headers and the body, with whether the body ends
  without a read error. A response holds the value that is encoded as JSON, not its text. The pause
  of \<open>unlock\<close> changes no state and is left out; a panic in a handler is the outcome \<open>Panic\<close>, for
  which the server drops the connection.
\<close>

section \<open>Requests and responses\<close>

record request =
  hq_method :: string
  hq_path :: "string list"
  hq_query :: string
  hq_authorization :: string
  hq_content_type :: string
  hq_body :: string
  hq_body_end :: bool

datatype payload =
    BHealthy
  | BText string \<comment> \<open>the router's own answers\<close>
  | BError string
  | BBadJSON
  | BBadNumber
  | BUnlocked bool
  | BStatus status
  | BAddress address_view
  | BAddresses "address_view list" nat int int
  | BBalance balance
  | BDeposits "deposit list" nat
  | BWithdrawal withdrawal_view
  | BWithdrawals "withdrawal_view list" int int
  | BSwapKeys swap_key_view
  | BSwap swap_view
  | BSwaps "swap_view list" int int
  | BAction swap_action_view

record response =
  rs_status :: nat
  rs_headers :: "(string \<times> string) list"
  rs_body :: payload

definition write_json :: "nat \<Rightarrow> payload \<Rightarrow> response" where
  "write_json code body = \<lparr>rs_status = code, rs_headers = [(''Content-Type'', ''application/json'')], rs_body = body\<rparr>"

definition write_error :: "nat \<Rightarrow> string \<Rightarrow> response" where
  "write_error code message = write_json code (BError message)"

definition security_headers :: "response \<Rightarrow> response" where
  "security_headers r = r\<lparr>rs_headers := [(''Cache-Control'', ''no-store''), (''X-Content-Type-Options'', ''nosniff''),
     (''X-Frame-Options'', ''DENY''), (''Referrer-Policy'', ''no-referrer'')] @ rs_headers r\<rparr>"

text \<open>Call the service; an error is answered with the given status and its text.\<close>

definition serve :: "('x, 'z) env_scheme \<Rightarrow> nat \<Rightarrow> ('x sys, 'a) m \<Rightarrow> ('a \<Rightarrow> response) \<Rightarrow> ('x sys, response) m" where
  "serve E bad call answer =
     bnd (attempt call) (\<lambda>r. ret (case r of
       Inl e \<Rightarrow> write_error bad (error_text (driver_text E) e)
     | Inr a \<Rightarrow> answer a))"

section \<open>Reading a request\<close>

definition max_body :: nat where
  "max_body = 16384"

definition decode_body :: "(string \<times> 'a field) list \<Rightarrow> 'a \<Rightarrow> request \<Rightarrow> response + 'a" where
  "decode_body members zero rq =
     (if \<not> media_type_is ''application/json'' (hq_content_type rq)
      then Inl (write_error 415 ''Content-Type must be application/json'')
      else let clean = (hq_body_end rq \<and> length (hq_body rq) \<le> max_body) in
      case read_json clean (take max_body (hq_body rq)) of
        None \<Rightarrow> Inl (write_json 400 BBadJSON)
      | Some (j, rest) \<Rightarrow>
          (case struct_fields members j zero of
             None \<Rightarrow> Inl (write_json 400 BBadJSON)
           | Some a \<Rightarrow>
               if clean \<and> list_all json_space rest then Inr a
               else Inl (write_error 400 ''request body must contain one JSON value'')))"

definition with_body :: "(string \<times> 'a field) list \<Rightarrow> 'a \<Rightarrow> request \<Rightarrow> ('a \<Rightarrow> ('x sys, response) m) \<Rightarrow> ('x sys, response) m" where
  "with_body members zero rq f = (case decode_body members zero rq of Inl r \<Rightarrow> ret r | Inr a \<Rightarrow> f a)"

definition pagination :: "string \<Rightarrow> payload + int \<times> int" where
  "pagination query =
     (case (if query_get query ''limit'' \<noteq> [] then atoi (query_get query ''limit'') else Some 50) of
        None \<Rightarrow> Inl BBadNumber
      | Some limit \<Rightarrow>
          (case (if query_get query ''offset'' \<noteq> [] then atoi (query_get query ''offset'') else Some 0) of
             None \<Rightarrow> Inl BBadNumber
           | Some offset \<Rightarrow>
               if limit < 1 \<or> limit > 200 \<or> offset < 0
               then Inl (BError ''limit must be 1..200 and offset must be nonnegative'')
               else Inr (limit, offset)))"

definition with_page :: "request \<Rightarrow> (int \<Rightarrow> int \<Rightarrow> ('x sys, response) m) \<Rightarrow> ('x sys, response) m" where
  "with_page rq f = (case pagination (hq_query rq) of
       Inl b \<Rightarrow> ret (write_json 400 b)
     | Inr (limit, offset) \<Rightarrow> f limit offset)"

section \<open>The structs of the requests\<close>

definition withdrawal_fields :: "(string \<times> withdrawal_request field) list" where
  "withdrawal_fields =
     [(''requestID'', string_field (\<lambda>v r. r\<lparr>rq_id := v\<rparr>)),
      (''destination'', string_field (\<lambda>v r. r\<lparr>rq_destination := v\<rparr>)),
      (''amountAtomic'', string_field (\<lambda>v r. r\<lparr>rq_amount := v\<rparr>)),
      (''feeAtomic'', string_field (\<lambda>v r. r\<lparr>rq_fee := v\<rparr>)),
      (''expectedUnitAtomic'', string_field (\<lambda>v r. r\<lparr>rq_unit := v\<rparr>))]"

definition keys_fields :: "(string \<times> swap_keys_view field) list" where
  "keys_fields =
     [(''classical'', string_field (\<lambda>v r. r\<lparr>kv_classical := v\<rparr>)),
      (''reserve'', string_field (\<lambda>v r. r\<lparr>kv_reserve := v\<rparr>)),
      (''address'', string_field (\<lambda>v r. r\<lparr>kv_address := v\<rparr>))]"

definition register_fields :: "(string \<times> register_request field) list" where
  "register_fields =
     [(''swapID'', string_field (\<lambda>v r. r\<lparr>rg_swap := v\<rparr>)),
      (''role'', string_field (\<lambda>v r. r\<lparr>rg_role := v\<rparr>)),
      (''counterparty'', nested_field rg_counterparty (\<lambda>v r. r\<lparr>rg_counterparty := v\<rparr>) keys_fields),
      (''secretHash'', string_field (\<lambda>v r. r\<lparr>rg_secret_hash := v\<rparr>)),
      (''refundHeight'', uint64_field (\<lambda>v r. r\<lparr>rg_refund_height := v\<rparr>))]"

definition fund_fields :: "(string \<times> fund_request field) list" where
  "fund_fields =
     [(''amountAtomic'', string_field (\<lambda>v r. r\<lparr>fr_amount := v\<rparr>)),
      (''feeAtomic'', string_field (\<lambda>v r. r\<lparr>fr_fee := v\<rparr>)),
      (''expectedUnitAtomic'', string_field (\<lambda>v r. r\<lparr>fr_unit := v\<rparr>))]"

definition spend_fields :: "(string \<times> spend_request field) list" where
  "spend_fields =
     [(''outputID'', string_field (\<lambda>v r. r\<lparr>sq_output := v\<rparr>)),
      (''feeAtomic'', string_field (\<lambda>v r. r\<lparr>sq_fee := v\<rparr>)),
      (''secret'', string_field (\<lambda>v r. r\<lparr>sq_secret := v\<rparr>))]"

text \<open>A struct with one string.\<close>

definition single_field :: "string \<Rightarrow> (string \<times> string field) list" where
  "single_field name = [(name, string_field (\<lambda>v _. v))]"

definition no_fields :: "(string \<times> unit field) list" where
  "no_fields = []"

definition zero_withdrawal :: withdrawal_request where
  "zero_withdrawal = \<lparr>rq_id = [], rq_destination = [], rq_amount = [], rq_fee = [], rq_unit = []\<rparr>"

definition zero_register :: register_request where
  "zero_register = \<lparr>rg_swap = [], rg_role = [], rg_counterparty = \<lparr>kv_classical = [], kv_reserve = [], kv_address = []\<rparr>,
     rg_secret_hash = [], rg_refund_height = 0\<rparr>"

definition zero_fund :: fund_request where
  "zero_fund = \<lparr>fr_amount = [], fr_fee = [], fr_unit = []\<rparr>"

definition zero_spend :: spend_request where
  "zero_spend = \<lparr>sq_output = [], sq_fee = [], sq_secret = []\<rparr>"

section \<open>Handlers\<close>

definition api_ready :: "('x, 'z) env_scheme \<Rightarrow> ('x sys, response) m" where
  "api_ready E = serve E 503 (get_status E) (\<lambda>st.
     if \<not> st_synced st then write_json 503 (BStatus st) else write_json 200 (BStatus st))"

definition api_status :: "('x, 'z) env_scheme \<Rightarrow> ('x sys, response) m" where
  "api_status E = serve E 500 (get_status E) (\<lambda>st. write_json 200 (BStatus st))"

definition api_unlock :: "('x, 'z) env_scheme \<Rightarrow> request \<Rightarrow> ('x sys, response) m" where
  "api_unlock E rq = with_body (single_field ''password'') [] rq (\<lambda>password.
     serve E 401 (unlock_wallet E password) (\<lambda>_. write_json 200 (BUnlocked True)))"

definition api_lock :: "('x, 'z) env_scheme \<Rightarrow> request \<Rightarrow> ('x sys, response) m" where
  "api_lock E rq = with_body no_fields () rq (\<lambda>_.
     bnd lock_wallet (\<lambda>_. ret (write_json 200 (BUnlocked False))))"

definition api_addresses :: "('x, 'z) env_scheme \<Rightarrow> request \<Rightarrow> ('x sys, response) m" where
  "api_addresses E rq = with_page rq (\<lambda>limit offset.
     serve E 500 (addresses E limit offset) (\<lambda>(found, total). write_json 200 (BAddresses found total limit offset)))"

definition api_create_address :: "('x, 'z) env_scheme \<Rightarrow> request \<Rightarrow> ('x sys, response) m" where
  "api_create_address E rq = with_body (single_field ''reference'') [] rq (\<lambda>reference.
     serve E 400 (new_deposit_address E reference) (\<lambda>a. write_json 200 (BAddress a)))"

definition api_balance :: "('x, 'z) env_scheme \<Rightarrow> ('x sys, response) m" where
  "api_balance E = serve E 503 (get_balance E) (\<lambda>b. write_json 200 (BBalance b))"

definition api_deposits :: "('x, 'z) env_scheme \<Rightarrow> request \<Rightarrow> ('x sys, response) m" where
  "api_deposits E rq = with_page rq (\<lambda>limit offset.
     serve E 500 (get_deposits E limit offset) (\<lambda>(found, next_offset). write_json 200 (BDeposits found next_offset)))"

text \<open>201 for a new record, 200 for a repeated request.\<close>

definition created_status :: "bool \<Rightarrow> nat" where
  "created_status created = (if created then 201 else 200)"

definition api_create_withdrawal :: "('x, 'z) env_scheme \<Rightarrow> request \<Rightarrow> ('x sys, response) m" where
  "api_create_withdrawal E rq = with_body withdrawal_fields zero_withdrawal rq (\<lambda>w.
     serve E 400 (create_withdrawal E RequestCtx w) (\<lambda>(view, created).
       write_json (created_status created) (BWithdrawal view)))"

definition api_withdrawal :: "('x, 'z) env_scheme \<Rightarrow> string \<Rightarrow> ('x sys, response) m" where
  "api_withdrawal E rid = serve E 500 (get_withdrawal E rid) (\<lambda>found. case found of
       None \<Rightarrow> write_error 404 ''withdrawal not found''
     | Some w \<Rightarrow> write_json 200 (BWithdrawal w))"

definition api_withdrawals :: "('x, 'z) env_scheme \<Rightarrow> request \<Rightarrow> ('x sys, response) m" where
  "api_withdrawals E rq = with_page rq (\<lambda>limit offset.
     serve E 500 (get_withdrawals E limit offset) (\<lambda>found. write_json 200 (BWithdrawals found limit offset)))"

definition api_create_swap_keys :: "('x, 'z) env_scheme \<Rightarrow> request \<Rightarrow> ('x sys, response) m" where
  "api_create_swap_keys E rq = with_body (single_field ''swapID'') [] rq (\<lambda>sid.
     serve E 400 (create_swap_keys E sid) (\<lambda>(keys, created).
       write_json (created_status created) (BSwapKeys keys)))"

definition api_register_swap :: "('x, 'z) env_scheme \<Rightarrow> request \<Rightarrow> ('x sys, response) m" where
  "api_register_swap E rq = with_body register_fields zero_register rq (\<lambda>r.
     serve E 400 (register_swap E r) (\<lambda>(view, created). write_json (created_status created) (BSwap view)))"

definition api_swaps :: "('x, 'z) env_scheme \<Rightarrow> request \<Rightarrow> ('x sys, response) m" where
  "api_swaps E rq = with_page rq (\<lambda>limit offset.
     serve E 503 (get_swaps E limit offset) (\<lambda>found. write_json 200 (BSwaps found limit offset)))"

definition api_swap :: "('x, 'z) env_scheme \<Rightarrow> string \<Rightarrow> ('x sys, response) m" where
  "api_swap E sid = serve E 503 (get_swap E sid) (\<lambda>found. case found of
       None \<Rightarrow> write_error 404 ''atomic swap not found''
     | Some view \<Rightarrow> write_json 200 (BSwap view))"

definition api_fund_swap :: "('x, 'z) env_scheme \<Rightarrow> string \<Rightarrow> request \<Rightarrow> ('x sys, response) m" where
  "api_fund_swap E sid rq = with_body fund_fields zero_fund rq (\<lambda>r.
     serve E 400 (fund_swap E RequestCtx sid r) (\<lambda>(action, created).
       write_json (created_status created) (BAction action)))"

definition api_claim_swap :: "('x, 'z) env_scheme \<Rightarrow> string \<Rightarrow> request \<Rightarrow> ('x sys, response) m" where
  "api_claim_swap E sid rq = with_body spend_fields zero_spend rq (\<lambda>r.
     serve E 400 (claim_swap E RequestCtx sid r) (\<lambda>(action, created).
       write_json (created_status created) (BAction action)))"

definition api_refund_swap :: "('x, 'z) env_scheme \<Rightarrow> string \<Rightarrow> request \<Rightarrow> ('x sys, response) m" where
  "api_refund_swap E sid rq = with_body spend_fields zero_spend rq (\<lambda>r.
     serve E 400 (refund_swap E RequestCtx sid r) (\<lambda>(action, created).
       write_json (created_status created) (BAction action)))"

section \<open>Routes\<close>

datatype endpoint =
    Healthz | Readyz | ShowStatus | Unlock | Lock
  | ListAddresses | CreateAddress | ShowBalance | ListDeposits
  | ListWithdrawals | CreateWithdrawal | ShowWithdrawal string
  | CreateSwapKeys | ListSwaps | RegisterSwap | ShowSwap string
  | FundSwap string | ClaimSwap string | RefundSwap string

datatype segment = Seg string | Wild

text \<open>The registrations of \<open>New\<close>, in order; the wildcard's value is the endpoint's argument.\<close>

definition routes :: "(string \<times> segment list \<times> (string \<Rightarrow> endpoint)) list" where
  "routes =
     [(''GET'', [Seg ''healthz''], \<lambda>_. Healthz),
      (''GET'', [Seg ''readyz''], \<lambda>_. Readyz),
      (''GET'', [Seg ''v1'', Seg ''status''], \<lambda>_. ShowStatus),
      (''POST'', [Seg ''v1'', Seg ''wallet'', Seg ''unlock''], \<lambda>_. Unlock),
      (''POST'', [Seg ''v1'', Seg ''wallet'', Seg ''lock''], \<lambda>_. Lock),
      (''GET'', [Seg ''v1'', Seg ''addresses''], \<lambda>_. ListAddresses),
      (''POST'', [Seg ''v1'', Seg ''addresses''], \<lambda>_. CreateAddress),
      (''GET'', [Seg ''v1'', Seg ''balance''], \<lambda>_. ShowBalance),
      (''GET'', [Seg ''v1'', Seg ''deposits''], \<lambda>_. ListDeposits),
      (''GET'', [Seg ''v1'', Seg ''withdrawals''], \<lambda>_. ListWithdrawals),
      (''POST'', [Seg ''v1'', Seg ''withdrawals''], \<lambda>_. CreateWithdrawal),
      (''GET'', [Seg ''v1'', Seg ''withdrawals'', Wild], ShowWithdrawal),
      (''POST'', [Seg ''v1'', Seg ''swap-keys''], \<lambda>_. CreateSwapKeys),
      (''GET'', [Seg ''v1'', Seg ''swaps''], \<lambda>_. ListSwaps),
      (''POST'', [Seg ''v1'', Seg ''swaps''], \<lambda>_. RegisterSwap),
      (''GET'', [Seg ''v1'', Seg ''swaps'', Wild], ShowSwap),
      (''POST'', [Seg ''v1'', Seg ''swaps'', Wild, Seg ''fund''], FundSwap),
      (''POST'', [Seg ''v1'', Seg ''swaps'', Wild, Seg ''claim''], ClaimSwap),
      (''POST'', [Seg ''v1'', Seg ''swaps'', Wild, Seg ''refund''], RefundSwap)]"

text \<open>The value of the wildcard, or the empty string; a wildcard stands for a non-empty segment.\<close>

fun match_path :: "segment list \<Rightarrow> string list \<Rightarrow> string option" where
  "match_path [] [] = Some []"
| "match_path (Seg p # ps) (s # ss) = (if p = s then match_path ps ss else None)"
| "match_path (Wild # ps) (s # ss) = (if s = [] then None else map_option (\<lambda>_. s) (match_path ps ss))"
| "match_path _ _ = None"

text \<open>The router: a \<open>GET\<close> route also takes \<open>HEAD\<close>; no route is 404, or 405 when another method has one.\<close>

definition path_routes :: "string list \<Rightarrow> (string \<times> endpoint) list" where
  "path_routes path = concat (map (\<lambda>(verb, pattern, ep). case match_path pattern path of
       None \<Rightarrow> [] | Some v \<Rightarrow> [(verb, ep v)]) routes)"

definition route :: "string \<Rightarrow> string list \<Rightarrow> nat + endpoint" where
  "route verb path =
     (case map_of (path_routes path) (if verb = ''HEAD'' then ''GET'' else verb) of
        Some ep \<Rightarrow> Inr ep
      | None \<Rightarrow> Inl (if path_routes path = [] then 404 else 405))"

text \<open>The methods of a path, in alphabetical order, for the \<open>Allow\<close> header of a 405.\<close>

fun join_texts :: "string list \<Rightarrow> string" where
  "join_texts [] = []"
| "join_texts [v] = v"
| "join_texts (v # w # vs) = v @ '', '' @ join_texts (w # vs)"

definition allowed_methods :: "string list \<Rightarrow> string list" where
  "allowed_methods path = (let verbs = map fst (path_routes path) in
     filter (\<lambda>verb. (if verb = ''HEAD'' then ''GET'' else verb) \<in> set verbs) [''GET'', ''HEAD'', ''POST''])"

definition router_answer :: "string list \<Rightarrow> nat \<Rightarrow> response" where
  "router_answer path code = \<lparr>rs_status = code,
     rs_headers = (''Content-Type'', ''text/plain; charset=utf-8'') #
       (if code = 405 then [(''Allow'', join_texts (allowed_methods path))] else []),
     rs_body = BText (if code = 404 then ''404 page not found'' else ''Method Not Allowed'')\<rparr>"

definition dispatch :: "('x, 'z) env_scheme \<Rightarrow> endpoint \<Rightarrow> request \<Rightarrow> ('x sys, response) m" where
  "dispatch E ep rq = (case ep of
       Healthz \<Rightarrow> ret (write_json 200 BHealthy)
     | Readyz \<Rightarrow> api_ready E
     | ShowStatus \<Rightarrow> api_status E
     | Unlock \<Rightarrow> api_unlock E rq
     | Lock \<Rightarrow> api_lock E rq
     | ListAddresses \<Rightarrow> api_addresses E rq
     | CreateAddress \<Rightarrow> api_create_address E rq
     | ShowBalance \<Rightarrow> api_balance E
     | ListDeposits \<Rightarrow> api_deposits E rq
     | ListWithdrawals \<Rightarrow> api_withdrawals E rq
     | CreateWithdrawal \<Rightarrow> api_create_withdrawal E rq
     | ShowWithdrawal rid \<Rightarrow> api_withdrawal E rid
     | CreateSwapKeys \<Rightarrow> api_create_swap_keys E rq
     | ListSwaps \<Rightarrow> api_swaps E rq
     | RegisterSwap \<Rightarrow> api_register_swap E rq
     | ShowSwap sid \<Rightarrow> api_swap E sid
     | FundSwap sid \<Rightarrow> api_fund_swap E sid rq
     | ClaimSwap sid \<Rightarrow> api_claim_swap E sid rq
     | RefundSwap sid \<Rightarrow> api_refund_swap E sid rq)"

text \<open>Everything but the two probes asks for the token.\<close>

definition authorised_request :: "string \<Rightarrow> request \<Rightarrow> bool" where
  "authorised_request token rq \<longleftrightarrow>
     (let provided = trim_prefix ''Bearer '' (hq_authorization rq) in
      \<not> (length provided \<noteq> length token \<or> provided \<noteq> token))"

definition with_auth :: "string \<Rightarrow> request \<Rightarrow> ('x sys, response) m \<Rightarrow> ('x sys, response) m" where
  "with_auth token rq next_handler =
     (if \<not> authorised_request token rq then ret (write_error 401 ''authentication required'') else next_handler)"

definition handle :: "('x, 'z) env_scheme \<Rightarrow> string \<Rightarrow> request \<Rightarrow> ('x sys, response) m" where
  "handle E token rq =
     bnd (case route (hq_method rq) (hq_path rq) of
       Inl code \<Rightarrow> ret (router_answer (hq_path rq) code)
     | Inr ep \<Rightarrow> if ep = Healthz \<or> ep = Readyz then dispatch E ep rq else with_auth token rq (dispatch E ep rq))
     (\<lambda>r. ret (security_headers r))"

end
