(* ===== verification/Cli.thy ===== *)
theory Cli
  imports Node Go_Flag Api
begin

text \<open>
  \<open>main.go\<close>: the commands of the program. A command returns the lines it prints. While the daemon
  runs, requests are answered and the loop takes its turns in an order the world chooses: the
  argument \<open>hs\<close> of \<open>run_daemon\<close> lists what happens until the process is told to stop.
\<close>

section \<open>Files\<close>

definition default_data_dir :: "('x, 'z) node_env_scheme \<Rightarrow> string" where
  "default_data_dir E =
     (if os_name E = ''windows'' then join_path E [get_env E ''APPDATA'', ''qday-walletd'']
      else if os_name E = ''darwin'' then join_path E [get_env E ''HOME'', ''Library'', ''Application Support'', ''qday-walletd'']
      else join_path E [get_env E ''HOME'', ''.config'', ''qday-walletd''])"

definition private_dir :: "('x, 'z) node_env_scheme \<Rightarrow> string \<Rightarrow> ('x, unit) b" where
  "private_dir E path = bnd (call_err (make_dir E path)) (\<lambda>_. call_err (chmod_dir E path))"

definition read_secret :: "('x, 'z) node_env_scheme \<Rightarrow> string \<Rightarrow> string \<Rightarrow> ('x, string) b" where
  "read_secret E path name =
     bnd (guard_err (path = []) (FileRequired name)) (\<lambda>_.
     bnd (call_sum (stat_file E path)) (\<lambda>size.
     bnd (guard_err (16384 < size) (FileTooLarge name)) (\<lambda>_.
     bnd (call_sum (read_file E path)) (\<lambda>content.
     let value = trim_space content in
     bnd (guard_err (value = []) (FileEmpty name)) (\<lambda>_. ret value)))))"

text \<open>The options of a command; positional arguments are refused.\<close>

definition with_flags :: "flags \<Rightarrow> string list \<Rightarrow> (flags \<Rightarrow> ('x, 'a) b) \<Rightarrow> ('x, 'a) b" where
  "with_flags fs args f = (case parse_flags fs args of
       None \<Rightarrow> fail (Failed (Foreign ''invalid flags''))
     | Some (set_fs, rest) \<Rightarrow> if rest \<noteq> [] then fail ExtraArguments else f set_fs)"

section \<open>init and recovery\<close>

definition init_flags :: "('x, 'z) node_env_scheme \<Rightarrow> flags" where
  "init_flags E = [(''data'', FlagText (default_data_dir E)), (''password-file'', FlagText []), (''phrase-file'', FlagText [])]"

definition choose_seed :: "('x, 'z) node_env_scheme \<Rightarrow> string \<Rightarrow> ('x, bytes) b" where
  "choose_seed E phrase_file =
     (if phrase_file = [] then call (new_seed E)
      else bnd (read_secret E phrase_file ''phrase'') (\<lambda>phrase. failed (seed_of_phrase E phrase)))"

definition init_wallet :: "('x, 'z) node_env_scheme \<Rightarrow> string list \<Rightarrow> ('x, string list) b" where
  "init_wallet E args = with_flags (init_flags E) args (\<lambda>fs.
     let data = flag_text ''data'' fs in
     bnd (read_secret E (flag_text ''password-file'' fs) ''password'') (\<lambda>password.
     bnd (guard_err (length password < 12) ShortPassphrase) (\<lambda>_.
     bnd (private_dir E data) (\<lambda>_.
     bnd (choose_seed E (flag_text ''phrase-file'' fs)) (\<lambda>seed.
     bnd (failed (keys_from_seed E seed)) (\<lambda>keys.
     bnd (call (write_key E (join_path E [data, ''master.key'']) password seed (pk_public keys))) (\<lambda>err.
     bnd (case err of None \<Rightarrow> ret () | Some e \<Rightarrow> fail (if is_exist E e then WalletExists else Failed e)) (\<lambda>_.
     bnd (open_store E (join_path E [data, ''walletd.sqlite3''])) (\<lambda>_.
     bnd (close_store E) (\<lambda>_.
     ret [''QDAY walletd initialized.'', ''Recovery seed phrase:'', phrase_of_seed E seed,
       ''Store this phrase offline. It is the only recovery secret for every deterministic deposit address.'']))))))))))"

definition recovery_flags :: "('x, 'z) node_env_scheme \<Rightarrow> flags" where
  "recovery_flags E = [(''data'', FlagText (default_data_dir E)), (''password-file'', FlagText [])]"

definition recovery :: "('x, 'z) node_env_scheme \<Rightarrow> string list \<Rightarrow> ('x, string list) b" where
  "recovery E args = with_flags (recovery_flags E) args (\<lambda>fs.
     bnd (read_secret E (flag_text ''password-file'' fs) ''password'') (\<lambda>password.
     bnd (call_sum (read_key E (join_path E [flag_text ''data'' fs, ''master.key'']) password)) (\<lambda>seed.
     ret [phrase_of_seed E seed])))"

section \<open>recover-addresses\<close>

definition recover_flags :: "('x, 'z) node_env_scheme \<Rightarrow> flags" where
  "recover_flags E = [(''data'', FlagText (default_data_dir E)), (''password-file'', FlagText []), (''count'', FlagCount 0)]"

definition child_record :: "('x, 'z) node_env_scheme \<Rightarrow> u64 \<Rightarrow> qkeys \<Rightarrow> gotime \<Rightarrow> addr_rec" where
  "child_record E index public t = \<lparr>a_index = index, a_address = keys_address E public, a_public = public, a_reference = [],
     a_kind = ''change'', a_created = t\<rparr>"

text \<open>One child: compared when it is there, added when it is not.\<close>

definition recover_child :: "('x, 'z) node_env_scheme \<Rightarrow> bytes \<Rightarrow> nat \<Rightarrow> nat \<Rightarrow> ('x, nat) b" where
  "recover_child E seed n added =
     (let index = (of_nat n :: u64) in
      bnd (failed (derive_keys E seed index)) (\<lambda>keys.
      bnd (on_daemon (address_by_index E index)) (\<lambda>existing. case existing of
        Some a \<Rightarrow> if a_public a \<noteq> pk_public keys then fail (ChildMismatch index) else ret added
      | None \<Rightarrow>
          bnd (call (now E)) (\<lambda>t.
          bnd (on_daemon (add_address E (child_record E index (pk_public keys) t))) (\<lambda>_.
          ret (added + 1))))))"

definition recover_children :: "('x, 'z) node_env_scheme \<Rightarrow> bytes \<Rightarrow> nat \<Rightarrow> ('x, nat) b" where
  "recover_children E seed n = fold_c (recover_child E seed) [0..<n] 0"

definition recover_addresses :: "('x, 'z) node_env_scheme \<Rightarrow> string list \<Rightarrow> ('x, string list) b" where
  "recover_addresses E args = with_flags (recover_flags E) args (\<lambda>fs.
     let children = flag_count ''count'' fs; data = flag_text ''data'' fs in
     bnd (guard_err (children = 0 \<or> 10000000 < children) BadCount) (\<lambda>_.
     bnd (read_secret E (flag_text ''password-file'' fs) ''password'') (\<lambda>password.
     bnd (call_sum (read_key E (join_path E [data, ''master.key'']) password)) (\<lambda>seed.
     bnd (open_store E (join_path E [data, ''walletd.sqlite3''])) (\<lambda>_.
     deferring (bnd (close_store E) (\<lambda>_. ret ()))
       (bnd (recover_children E seed children) (\<lambda>added.
        ret [''Restored '' @ decimal_digits added @ '' address records through child index '' @ decimal_digits (children - 1) @
          ''. Customer references require a database backup.''])))))))"

section \<open>run\<close>

text \<open>The API token: read, or drawn and written on the first start.\<close>

definition token_of :: "string \<Rightarrow> boot_error + string" where
  "token_of content =
     (let token = trim_space content in
      case hex_decode token of
        None \<Rightarrow> Inl BadToken
      | Some raw \<Rightarrow> if length raw \<noteq> 32 then Inl BadToken else Inr token)"

definition load_or_create_token :: "('x, 'z) node_env_scheme \<Rightarrow> string \<Rightarrow> ('x, string) b" where
  "load_or_create_token E path =
     bnd (call (read_file E path)) (\<lambda>found.
     bnd (case found of
         Inr content \<Rightarrow> ret content
       | Inl e \<Rightarrow>
           if is_not_exist E e then
             bnd (call_sum (random_bytes E)) (\<lambda>entropy.
             let content = hex_encode entropy in
             bnd (call_err (create_file E path content)) (\<lambda>_. ret content))
           else fail (Failed e)) (\<lambda>content.
     lift_sum (token_of content)))"

definition loopback_listener :: "('x, 'z) node_env_scheme \<Rightarrow> string \<Rightarrow> bool \<Rightarrow> ('x, string) b" where
  "loopback_listener E address allow_remote =
     (case split_host_port address of
        None \<Rightarrow> fail (Failed (Foreign ''invalid address''))
      | Some (host, port) \<Rightarrow>
          if \<not> allow_remote \<and> host \<noteq> ''localhost'' \<and>
             (case parse_ip host of None \<Rightarrow> True | Some ip \<Rightarrow> \<not> ip_loopback ip)
          then fail RemoteBinding
          else acquire E ApiListener address)"

text \<open>What happens while the daemon runs.\<close>

datatype happening = Asked request | TakesTurn bool

text \<open>The server recovers a panic in a handler; one in the goroutine of the loop ends the process.\<close>

definition in_goroutine :: "('x, 'a) b \<Rightarrow> ('x, 'a) b" where
  "in_goroutine m = (\<lambda>s. case m s of (Panic, t) \<Rightarrow> (Panic, t\<lparr>died := True\<rparr>) | r \<Rightarrow> r)"

definition happens :: "('x, 'z) env_scheme \<Rightarrow> string \<Rightarrow> happening \<Rightarrow> ('x, unit) b" where
  "happens E token h = (case h of
       Asked rq \<Rightarrow> mod_st (\<lambda>s. s\<lparr>daemon := snd (handle E token rq (daemon s))\<rparr>)
     | TakesTurn timer \<Rightarrow> in_goroutine (on_daemon (rebroadcast_turn E timer)))"

definition serving :: "('x, 'z) env_scheme \<Rightarrow> string \<Rightarrow> happening list \<Rightarrow> ('x, unit) b" where
  "serving E token hs = fold_c (\<lambda>h _. happens E token h) hs ()"

definition serve_api :: "('x, 'z) node_env_scheme \<Rightarrow> string \<Rightarrow> happening list \<Rightarrow> ('x, unit) b" where
  "serve_api E token hs =
     bnd (serving E token hs) (\<lambda>_.
     bnd (call (serve_until E)) (\<lambda>stopped.
     bnd (case stopped of None \<Rightarrow> ret () | Some e \<Rightarrow> if is_closed E e then ret () else fail (Failed e)) (\<lambda>_.
     call_err (shut_down E))))"

definition run_flags :: "('x, 'z) node_env_scheme \<Rightarrow> flags" where
  "run_flags E = [(''data'', FlagText (default_data_dir E)), (''listen'', FlagText ''127.0.0.1:19772''),
     (''p2p'', FlagText '':19771''), (''advertise'', FlagText []),
     (''peers'', FlagText ''seed1.pqday.com:19771,seed2.pqday.com:19771,seed3.pqday.com:19771''),
     (''network'', FlagText []), (''password-file'', FlagText []), (''allow-remote-api'', FlagSwitch False)]"

definition run_config :: "('x, 'z) node_env_scheme \<Rightarrow> flags \<Rightarrow> string list \<Rightarrow> node_config" where
  "run_config E fs peers = \<lparr>nc_data = flag_text ''data'' fs, nc_manifest_path = flag_text ''network'' fs,
     nc_manifest = (if flag_text ''network'' fs \<noteq> [] then [] else embedded_manifest E),
     nc_p2p = flag_text ''p2p'' fs, nc_advertise = flag_text ''advertise'' fs, nc_peers = peers\<rparr>"

definition check_key_file :: "('x, 'z) node_env_scheme \<Rightarrow> string \<Rightarrow> ('x, unit) b" where
  "check_key_file E path =
     bnd (call (stat_file E path)) (\<lambda>found. case found of
       Inl e \<Rightarrow> fail (if is_not_exist E e then NotInitialized else Failed e)
     | Inr _ \<Rightarrow> ret ())"

definition unlock_at_start :: "('x, 'z) node_env_scheme \<Rightarrow> string \<Rightarrow> ('x, unit) b" where
  "unlock_at_start E path =
     (if path = [] then ret () else
      bnd (read_secret E path ''password'') (\<lambda>password.
      in_context ''unlock wallet: '' (on_daemon (unlock_wallet E password))))"

definition run_daemon :: "('x, 'z) node_env_scheme \<Rightarrow> happening list \<Rightarrow> string list \<Rightarrow> ('x, string list) b" where
  "run_daemon E hs args = with_flags (run_flags E) args (\<lambda>fs.
     let data = flag_text ''data'' fs; key_file = join_path E [data, ''master.key''] in
     bnd (private_dir E data) (\<lambda>_.
     bnd (check_key_file E key_file) (\<lambda>_.
     bnd (lift_sum (parse_peers (flag_text ''peers'' fs))) (\<lambda>peers.
     bnd (call_err (new_logger E)) (\<lambda>_.
     bnd (open_store E (join_path E [data, ''walletd.sqlite3''])) (\<lambda>_.
     deferring (bnd (close_store E) (\<lambda>_. ret ()))
       (bnd (open_node E (run_config E fs peers)) (\<lambda>_.
        deferring (bnd (close_node E) (\<lambda>_. ret ()))
          (bnd (new_service E key_file) (\<lambda>_.
           deferring close_service
             (bnd (unlock_at_start E (flag_text ''password-file'' fs)) (\<lambda>_.
              bnd (load_or_create_token E (join_path E [data, ''api.token''])) (\<lambda>token.
              bnd (loopback_listener E (flag_text ''listen'' fs) (flag_switch ''allow-remote-api'' fs)) (\<lambda>_.
              deferring (bnd (release E ApiListener) (\<lambda>_. ret ()))
                (bnd (serve_api E token hs) (\<lambda>_. ret []))))))))))))))))"

section \<open>The program\<close>

definition usage :: "string list" where
  "usage =
     [''Usage:'',
      ''  qday-walletd init [flags]       create or import the encrypted master wallet'',
      ''  qday-walletd recovery [flags]   print the master seed phrase'',
      ''  qday-walletd recover-addresses  rebuild a lost public address index'',
      ''  qday-walletd run [flags]        run the QDAY node and custody API'',
      ''  qday-walletd version            print version'',
      '''',
      ''Run qday-walletd with no command to start the daemon.'']"

definition run_program :: "('x, 'z) node_env_scheme \<Rightarrow> happening list \<Rightarrow> string list \<Rightarrow> ('x, string list) b" where
  "run_program E hs args = (case args of
       [] \<Rightarrow> run_daemon E hs []
     | c # rest \<Rightarrow>
         if c = ''init'' then init_wallet E rest
         else if c = ''recovery'' then recovery E rest
         else if c = ''recover-addresses'' then recover_addresses E rest
         else if c = ''run'' then run_daemon E hs rest
         else if c \<in> set [''version'', ''--version'', ''-version''] then ret [''qday-walletd '' @ version_text E]
         else if c \<in> set [''help'', ''--help'', ''-h''] then ret usage
         else fail (UnknownCommand c))"

text \<open>\<open>main\<close>: the exit status, of a process that ends.\<close>

definition exit_status :: "('x, 'z) node_env_scheme \<Rightarrow> happening list \<Rightarrow> string list \<Rightarrow> 'x boot \<Rightarrow> nat option" where
  "exit_status E hs args s = (case fst (run_program E hs args s) of
       Ok _ \<Rightarrow> Some 0 | Err _ \<Rightarrow> Some 1 | Panic \<Rightarrow> Some 2 | Hang \<Rightarrow> None)"

end
