(* ===== verification/Moves.thy ===== *)
theory Moves
  imports Swap_Register Rebroadcast_Facts
begin

text \<open>
  What the daemon can do to its store, as labelled steps: an address is issued, a payment or a swap
  action is journalled, a row is stored again, session keys and contracts are recorded. Every
  operation of the service is a sequence of such steps, restricted to the labels it is meant for
  (\<open>moves E K\<close>); the invariants of the store are proved for the steps only.
\<close>

context state_order begin

text \<open>A bind whose continuation is known to start where the first computation returned a value.\<close>

lemma ev_bnd_at:
  assumes "evolves le m" and "\<And>s a t. m s = (Ok a, t) \<Longrightarrow> le t (snd (f a t))"
  shows "evolves le (bnd m f)"
proof (rule evolvesI)
  fix s r t
  assume run: "bnd m f s = (r, t)"
  obtain r' s' where m: "m s = (r', s')" by fastforce
  have fst_le: "le s s'" using assms(1) m by (rule evolvesD)
  show "le s t"
  proof (cases r')
    case (Ok a)
    with run m have "f a s' = (r, t)" by (simp add: bnd_def)
    with assms(2) [of s a s'] m Ok have "le s' t" by simp
    with fst_le show ?thesis by (rule le_trans)
  qed (use run m fst_le in \<open>auto simp: bnd_def\<close>)
qed

lemma ev_bnd_post:
  "evolves le m \<Longrightarrow> (\<And>s a t. m s = (Ok a, t) \<Longrightarrow> evolves le (f a)) \<Longrightarrow> evolves le (bnd m f)"
  by (rule ev_bnd_at) (auto simp: evolves_def)

lemma ev_bnd_sum: "(\<And>a. r = Inr a \<Longrightarrow> evolves le (f a)) \<Longrightarrow> evolves le (bnd (lift_sum r) f)"
  by (rule ev_bnd_post [OF ev_sum]) (simp add: lift_sum_Ok_iff)

end

section \<open>Steps\<close>

datatype effect =
    Issue string string
  | Pay string string address currency currency
  | Resend string
  | Session string
  | Bind string string bytes u64
  | Act string string string address currency currency
  | Retry string

definition with_payment :: "withdrawal_row \<Rightarrow> 'x sys \<Rightarrow> 'x sys" where
  "with_payment row s = s\<lparr>tables := (tables s)\<lparr>t_withdrawals := t_withdrawals (tables s) @ [row]\<rparr>\<rparr>"

definition with_key :: "key_row \<Rightarrow> 'x sys \<Rightarrow> 'x sys" where
  "with_key row s = s\<lparr>tables := (tables s)\<lparr>t_swap_keys := t_swap_keys (tables s) @ [row]\<rparr>\<rparr>"

definition with_swap :: "swap_row \<Rightarrow> 'x sys \<Rightarrow> 'x sys" where
  "with_swap row s = s\<lparr>tables := (tables s)\<lparr>t_swaps := t_swaps (tables s) @ [row]\<rparr>\<rparr>"

definition with_action :: "action_row \<Rightarrow> 'x sys \<Rightarrow> 'x sys" where
  "with_action row s = s\<lparr>tables := (tables s)\<lparr>t_actions := t_actions (tables s) @ [row]\<rparr>\<rparr>"

definition edit_payments :: "string \<Rightarrow> (withdrawal_row \<Rightarrow> withdrawal_row) \<Rightarrow> 'x sys \<Rightarrow> 'x sys" where
  "edit_payments rid f s = s\<lparr>tables := (tables s)\<lparr>t_withdrawals :=
     update_where (\<lambda>r. wr_request r = rid) f (t_withdrawals (tables s))\<rparr>\<rparr>"

definition edit_actions :: "string \<Rightarrow> (action_row \<Rightarrow> action_row) \<Rightarrow> 'x sys \<Rightarrow> 'x sys" where
  "edit_actions aid f s = s\<lparr>tables := (tables s)\<lparr>t_actions :=
     update_where (\<lambda>r. cr_action r = aid) f (t_actions (tables s))\<rparr>\<rparr>"

lemmas with_defs = with_payment_def with_key_def with_swap_def with_action_def edit_payments_def edit_actions_def

text \<open>The two edits of a journal row: its confirmation, or its transaction with basis and last error.\<close>

definition payment_edit :: "('x, 'z) env_scheme \<Rightarrow> (withdrawal_row \<Rightarrow> withdrawal_row) \<Rightarrow> bool" where
  "payment_edit E f \<longleftrightarrow>
     (\<exists>ci h i. confirmation_columns ci = Inr (h, i) \<and> f = (\<lambda>r. r\<lparr>wr_conf_height := h, wr_conf_id := i\<rparr>)) \<or>
     (\<exists>txn raw (basis :: chain_index) h e. encode_txn E txn = Inr raw \<and> sql_uint64 (ci_height basis) = Inr h \<and>
        f = (\<lambda>r. r\<lparr>wr_blob := raw, wr_basis_height := h, wr_basis_id := ci_id basis, wr_error := e\<rparr>))"

definition action_edit :: "('x, 'z) env_scheme \<Rightarrow> (action_row \<Rightarrow> action_row) \<Rightarrow> bool" where
  "action_edit E f \<longleftrightarrow>
     (\<exists>ci h i. confirmation_columns ci = Inr (h, i) \<and> f = (\<lambda>r. r\<lparr>cr_conf_height := h, cr_conf_id := i\<rparr>)) \<or>
     (\<exists>txn raw (basis :: chain_index) h e. encode_txn E txn = Inr raw \<and> sql_uint64 (ci_height basis) = Inr h \<and>
        f = (\<lambda>r. r\<lparr>cr_blob := raw, cr_basis_height := h, cr_basis_id := ci_id basis, cr_error := e\<rparr>))"

inductive move :: "('x, 'z) env_scheme \<Rightarrow> effect set \<Rightarrow> 'x sys \<Rightarrow> 'x sys \<Rightarrow> bool" for E K where
  still: "frame s t \<Longrightarrow> move E K s t"
| woken: "move E K s (s\<lparr>wake := b\<rparr>)"
| issue: "issued E s ref kind a \<Longrightarrow> Issue kind ref \<in> K \<Longrightarrow> move E K s (with_address E a s)"
| pay: "Pay (w_request w) (w_kind w) (w_destination w) (w_amount w) (w_fee w) \<in> K \<Longrightarrow> mst_seed s \<noteq> None \<Longrightarrow>
     encode_txn E (w_txn w) = Inr raw \<Longrightarrow> sql_uint64 (ci_height (w_basis w)) = Inr h \<Longrightarrow>
     w_amount w < 2 ^ 128 \<Longrightarrow> w_fee w < 2 ^ 128 \<Longrightarrow>
     withdrawal_admits (t_withdrawals (tables s)) (withdrawal_row_of E w raw h) \<Longrightarrow>
     move E K s (with_payment (withdrawal_row_of E w raw h) s)"
| resend: "Resend rid \<in> K \<Longrightarrow> payment_edit E f \<Longrightarrow>
     (\<And>r. r \<in> set (t_withdrawals (tables s)) \<Longrightarrow> wr_request r = rid \<Longrightarrow> withdrawal_checks (f r)) \<Longrightarrow>
     move E K s (edit_payments rid f s)"
| session: "Session sid \<in> K \<Longrightarrow> mst_seed s = Some mst \<Longrightarrow> derive_swap_keys E mst sid = Inr keys \<Longrightarrow>
     kr_swap row = sid \<Longrightarrow> kr_public row = keys_bytes E (pk_public keys) \<Longrightarrow>
     key_constraints (t_swap_keys (tables s)) row \<Longrightarrow>
     move E K s (with_key row s)"
| bind: "Bind (s_swap sw) (s_role sw) (s_secret_hash sw) (s_refund_height sw) \<in> K \<Longrightarrow>
     sound_keys E (s_recipient sw) \<Longrightarrow> sound_keys E (s_refund sw) \<Longrightarrow>
     contract_address E (terms_of sw) = Inr (s_address sw) \<Longrightarrow> sql_uint64 (s_refund_height sw) = Inr h \<Longrightarrow>
     swap_constraints (t_swap_keys (tables s)) (t_swaps (tables s)) (swap_row_of E sw h) \<Longrightarrow>
     move E K s (with_swap (swap_row_of E sw h) s)"
| act: "Act (c_swap c) (c_kind c) (c_output c) (c_destination c) (c_amount c) (c_fee c) \<in> K \<Longrightarrow> mst_seed s \<noteq> None \<Longrightarrow>
     encode_txn E (c_txn c) = Inr raw \<Longrightarrow> sql_uint64 (ci_height (c_basis c)) = Inr h \<Longrightarrow>
     c_amount c < 2 ^ 128 \<Longrightarrow> c_fee c < 2 ^ 128 \<Longrightarrow>
     action_constraints (t_swaps (tables s)) (t_actions (tables s)) (action_row_of E c raw h) \<Longrightarrow>
     move E K s (with_action (action_row_of E c raw h) s)"
| retry: "Retry aid \<in> K \<Longrightarrow> action_edit E f \<Longrightarrow>
     (\<And>r. r \<in> set (t_actions (tables s)) \<Longrightarrow> cr_action r = aid \<Longrightarrow> action_checks (f r)) \<Longrightarrow>
     move E K s (edit_actions aid f s)"

definition moves :: "('x, 'z) env_scheme \<Rightarrow> effect set \<Rightarrow> 'x sys \<Rightarrow> 'x sys \<Rightarrow> bool" where
  "moves E K = (move E K)\<^sup>*\<^sup>*"

interpretation mv: state_order "moves E K" for E K
  by unfold_locales (auto simp: moves_def)

lemma moves_move: "move E K s t \<Longrightarrow> moves E K s t"
  by (simp add: moves_def)

lemma move_mono:
  assumes "K \<subseteq> K'" and "move E K s t"
  shows "move E K' s t"
  using assms(2,1) by (cases rule: move.cases) (blast intro: move.intros)+

lemma moves_mono: "K \<subseteq> K' \<Longrightarrow> moves E K s t \<Longrightarrow> moves E K' s t"
  unfolding moves_def by (erule rtranclp_mono [THEN predicate2D, rotated]) (blast intro: move_mono)

lemma move_frame: "frame s t \<Longrightarrow> moves E K s t"
  by (rule moves_move [OF move.still])

lemma mv_frame: "evolves frame m \<Longrightarrow> evolves (moves E K) m"
  by (erule evolves_weaken) (rule move_frame)

text \<open>A relation that every step keeps, the sequences of steps keep.\<close>

lemma moves_invariant:
  assumes "moves E K s t" and "P s" and "\<And>s t. P s \<Longrightarrow> move E K s t \<Longrightarrow> P t"
  shows "P t"
  using assms(1) unfolding moves_def by (induction rule: rtranclp_induct) (use assms(2,3) in auto)

lemma move_seed: "move E K s t \<Longrightarrow> mst_seed t = mst_seed s"
  by (cases rule: move.cases) (auto simp: frame_def with_address_def with_defs)

lemma moves_seed: "moves E K s t \<Longrightarrow> mst_seed t = mst_seed s"
  by (erule moves_invariant [where P = "\<lambda>u. mst_seed u = mst_seed s"]) (auto dest: move_seed)

text \<open>The same for an unlocked wallet only.\<close>

definition seeded :: "('x, 'z) env_scheme \<Rightarrow> effect set \<Rightarrow> 'x sys \<Rightarrow> 'x sys \<Rightarrow> bool" where
  "seeded E K s t \<longleftrightarrow> (mst_seed s \<noteq> None \<longrightarrow> moves E K s t)"

interpretation sd: state_order "seeded E K" for E K
  by unfold_locales (auto simp: seeded_def mv.le_refl dest: moves_seed intro: mv.le_trans)

lemma seeded_moves: "evolves (moves E K) m \<Longrightarrow> evolves (seeded E K) m"
  by (erule evolves_weaken) (simp add: seeded_def)

lemma seededD: "evolves (seeded E K) m \<Longrightarrow> mst_seed s \<noteq> None \<Longrightarrow> moves E K s (snd (m s))"
  by (simp add: evolves_def seeded_def)

lemmas mv_intros = mv.ev_intros frame_ext [THEN mv_frame] frame_ext_sum [THEN mv_frame]
  frame_ext_err [THEN mv_frame] frame_statement [THEN mv_frame]

lemmas sd_intros = sd.ev_intros frame_ext [THEN mv_frame, THEN seeded_moves] frame_ext_sum [THEN mv_frame, THEN seeded_moves]
  frame_ext_err [THEN mv_frame, THEN seeded_moves] frame_statement [THEN mv_frame, THEN seeded_moves]

section \<open>The statements of the store\<close>

lemma mv_new_address:
  assumes "Issue kind ref \<in> K"
  shows "evolves (moves E K) (new_address E ref kind)"
proof (rule evolvesI)
  fix s r t
  assume "new_address E ref kind s = (r, t)"
  from new_address_cases [OF this] show "moves E K s t"
  proof (elim disjE conjE exE)
    fix a assume "issued E s ref kind a" "frame (with_address E a s) t"
    then show ?thesis using assms by (blast intro: mv.le_trans moves_move move.intros)
  qed (rule move_frame)
qed

lemma sd_add_withdrawal:
  assumes "Pay (w_request w) (w_kind w) (w_destination w) (w_amount w) (w_fee w) \<in> K"
    and "w_amount w < 2 ^ 128" and "w_fee w < 2 ^ 128"
  shows "evolves (seeded E K) (add_withdrawal E w)"
proof (rule evolvesI)
  fix s r t
  assume run: "add_withdrawal E w s = (r, t)"
  obtain f x where f: "db_fault E (world s) = (f, x)" by fastforce
  let ?P = "\<lambda>raw h. encode_txn E (w_txn w) = Inr raw \<and> sql_uint64 (ci_height (w_basis w)) = Inr h \<and>
    withdrawal_admits (t_withdrawals (tables s)) (withdrawal_row_of E w raw h) \<and>
    frame (with_payment (withdrawal_row_of E w raw h) s) t"
  have "frame s t \<or> (\<exists>raw h. ?P raw h)"
    using run f
    by (cases "encode_txn E (w_txn w)"; cases "sql_uint64 (ci_height (w_basis w))"; cases f)
      (auto simp: add_withdrawal_def statement_def ext_err_def ext_def bnd_def Let_def frame_def
        guard_err_def with_payment_def withdrawal_admits_def split: if_splits)
  then show "seeded E K s t"
    using assms unfolding seeded_def by (blast intro: mv.le_trans moves_move move.intros)
qed

lemma sd_add_action:
  assumes "Act (c_swap c) (c_kind c) (c_output c) (c_destination c) (c_amount c) (c_fee c) \<in> K"
    and "c_amount c < 2 ^ 128" and "c_fee c < 2 ^ 128"
  shows "evolves (seeded E K) (add_swap_action E c)"
proof (rule evolvesI)
  fix s r t
  assume run: "add_swap_action E c s = (r, t)"
  obtain f x where f: "db_fault E (world s) = (f, x)" by fastforce
  let ?P = "\<lambda>raw h. encode_txn E (c_txn c) = Inr raw \<and> sql_uint64 (ci_height (c_basis c)) = Inr h \<and>
    action_constraints (t_swaps (tables s)) (t_actions (tables s)) (action_row_of E c raw h) \<and>
    frame (with_action (action_row_of E c raw h) s) t"
  have "frame s t \<or> (\<exists>raw h. ?P raw h)"
    using run f
    by (cases "encode_txn E (c_txn c)"; cases "sql_uint64 (ci_height (c_basis c))"; cases f)
      (auto simp: add_swap_action_def statement_def ext_err_def ext_def bnd_def Let_def frame_def
        guard_err_def with_action_def split: if_splits)
  then show "seeded E K s t"
    using assms unfolding seeded_def by (blast intro: mv.le_trans moves_move move.intros)
qed

lemma mv_update_withdrawals:
  assumes "Resend rid \<in> K" and "payment_edit E f"
  shows "evolves (moves E K) (update_withdrawals E rid f)"
proof (rule evolvesI)
  fix s r t
  assume run: "update_withdrawals E rid f s = (r, t)"
  obtain x y where f: "db_fault E (world s) = (x, y)" by fastforce
  have "frame s t \<or> (\<forall>r\<in>set (t_withdrawals (tables s)). wr_request r = rid \<longrightarrow> withdrawal_checks (f r)) \<and>
      frame (edit_payments rid f s) t"
    using run f
    by (cases x) (auto simp: update_withdrawals_def statement_def ext_err_def ext_def bnd_def frame_def
        guard_err_def edit_payments_def split: if_splits)
  then show "moves E K s t"
    using assms by (blast intro: mv.le_trans moves_move move.intros)
qed

lemma mv_update_actions:
  assumes "Retry aid \<in> K" and "action_edit E f"
  shows "evolves (moves E K) (update_actions E aid f)"
proof (rule evolvesI)
  fix s r t
  assume run: "update_actions E aid f s = (r, t)"
  obtain x y where f: "db_fault E (world s) = (x, y)" by fastforce
  have "frame s t \<or> (\<forall>r\<in>set (t_actions (tables s)). cr_action r = aid \<longrightarrow> action_checks (f r)) \<and>
      frame (edit_actions aid f s) t"
    using run f
    by (cases x) (auto simp: update_actions_def statement_def ext_err_def ext_def bnd_def frame_def
        guard_err_def edit_actions_def split: if_splits)
  then show "moves E K s t"
    using assms by (blast intro: mv.le_trans moves_move move.intros)
qed

lemma edit_kinds:
  "confirmation_columns ci = Inr (h, i) \<Longrightarrow> payment_edit E (\<lambda>r. r\<lparr>wr_conf_height := h, wr_conf_id := i\<rparr>)"
  "confirmation_columns ci = Inr (h, i) \<Longrightarrow> action_edit E (\<lambda>r. r\<lparr>cr_conf_height := h, cr_conf_id := i\<rparr>)"
  "encode_txn E txn = Inr raw \<Longrightarrow> sql_uint64 (ci_height basis) = Inr v \<Longrightarrow>
    payment_edit E (\<lambda>r. r\<lparr>wr_blob := raw, wr_basis_height := v, wr_basis_id := ci_id basis, wr_error := e\<rparr>)"
  "encode_txn E txn = Inr raw \<Longrightarrow> sql_uint64 (ci_height basis) = Inr v \<Longrightarrow>
    action_edit E (\<lambda>r. r\<lparr>cr_blob := raw, cr_basis_height := v, cr_basis_id := ci_id basis, cr_error := e\<rparr>)"
  for basis :: chain_index
  unfolding payment_edit_def action_edit_def by blast+

lemma mv_edits:
  "Resend rid \<in> K \<Longrightarrow> evolves (moves E K) (set_withdrawal_confirmation E rid ci)"
  "Resend rid \<in> K \<Longrightarrow> evolves (moves E K) (update_withdrawal E rid basis txn e)"
  "Retry aid \<in> K \<Longrightarrow> evolves (moves E K) (set_swap_action_confirmation E aid ci)"
  "Retry aid \<in> K \<Longrightarrow> evolves (moves E K) (update_swap_action E aid basis txn e)"
  unfolding set_withdrawal_confirmation_def update_withdrawal_def set_swap_action_confirmation_def update_swap_action_def
  by (auto intro!: mv.ev_bnd_sum mv_update_withdrawals mv_update_actions edit_kinds)

lemma mv_add_swap:
  assumes "Bind (s_swap sw) (s_role sw) (s_secret_hash sw) (s_refund_height sw) \<in> K"
    and "sound_keys E (s_recipient sw)" and "sound_keys E (s_refund sw)"
    and "contract_address E (terms_of sw) = Inr (s_address sw)"
  shows "evolves (moves E K) (add_swap E sw)"
proof (rule evolvesI)
  fix s r t
  assume run: "add_swap E sw s = (r, t)"
  obtain f x where f: "db_fault E (world s) = (f, x)" by fastforce
  have "frame s t \<or> (\<exists>h. sql_uint64 (s_refund_height sw) = Inr h \<and>
      swap_constraints (t_swap_keys (tables s)) (t_swaps (tables s)) (swap_row_of E sw h) \<and>
      frame (with_swap (swap_row_of E sw h) s) t)"
    using run f
    by (cases "sql_uint64 (s_refund_height sw)"; cases f)
      (auto simp: add_swap_def statement_def ext_err_def ext_def bnd_def Let_def frame_def
        guard_err_def with_swap_def split: if_splits)
  then show "moves E K s t"
    using assms by (blast intro: mv.le_trans moves_move move.intros)
qed

lemma mv_add_key:
  assumes "Session (k_swap k) \<in> K" and "derive_swap_keys E mst (k_swap k) = Inr keys" and "k_public k = pk_public keys"
    and seed: "mst_seed s = Some mst"
  shows "moves E K s (snd (add_swap_key E k s))"
proof -
  obtain f x where f: "db_fault E (world s) = (f, x)" by fastforce
  let ?row = "\<lparr>kr_swap = k_swap k, kr_public = keys_bytes E (k_public k), kr_created = unix_seconds (k_created k)\<rparr>"
  have "frame s (snd (add_swap_key E k s)) \<or> key_constraints (t_swap_keys (tables s)) ?row \<and>
      frame (with_key ?row s) (snd (add_swap_key E k s))"
    using f
    by (cases f) (auto simp: add_swap_key_def statement_def ext_err_def ext_def bnd_def Let_def frame_def
        guard_err_def with_key_def split: if_splits)
  moreover have "move E K s (with_key ?row s)" if "key_constraints (t_swap_keys (tables s)) ?row"
    by (rule move.session [OF assms(1) seed assms(2)]) (use assms(3) that in simp_all)
  ultimately show ?thesis by (blast intro: mv.le_trans moves_move move.intros)
qed

end
