(* ===== verification/Effects.thy ===== *)
theory Effects
  imports Moves
begin

text \<open>
  Every operation of the service as steps of theory Moves, with the labels it may use.
\<close>

section \<open>Custody\<close>

lemma mv_build_transfer:
  "Issue ''change'' [] \<in> K \<Longrightarrow> evolves (moves E K) (build_custody_transfer E ctx cs mst dest v fee)"
  unfolding build_custody_transfer_def
  by (intro mv_intros mv_new_address custody_frame [THEN mv_frame] finish_transfer_frame [THEN mv_frame]
      spendable_outputs_frame [THEN mv_frame])

lemma mv_wake: "evolves (moves E K) wake_rebroadcast"
  unfolding wake_rebroadcast_def by (rule mv.ev_mod) (rule moves_move [OF move.woken])

lemma ready_state_seed: "ready_state E s = (Ok a, t) \<Longrightarrow> mst_seed t \<noteq> None"
  using evolvesD [OF ready_state_frame, of E s "Ok a" t]
  by (auto simp: ready_state_def master_seed_def bnd_Ok_iff frame_def split: option.splits)

lemma mv_after_ready:
  "(\<And>mst cs. evolves (seeded E K) (f mst cs)) \<Longrightarrow> evolves (moves E K) (bnd (ready_state E) (\<lambda>(mst, cs). f mst cs))"
  by (rule mv.ev_bnd_at [OF ready_state_frame [THEN mv_frame]])
    (auto split: prod.split intro: seededD dest: ready_state_seed)

lemma sd_journal_withdrawal:
  assumes "Pay (w_request w) (w_kind w) (w_destination w) (w_amount w) (w_fee w) \<in> K" and "Resend (w_request w) \<in> K"
    and "w_amount w < 2 ^ 128" and "w_fee w < 2 ^ 128"
  shows "evolves (seeded E K) (journal_withdrawal E w)"
  unfolding journal_withdrawal_def
  by (intro sd_intros sd_add_withdrawal submit_frame [THEN mv_frame, THEN seeded_moves] mv_edits(2) [THEN seeded_moves] assms)

lemma mv_create_withdrawal:
  assumes laws: "currency_laws E" and K: "Issue ''change'' [] \<in> K" "Resend (rq_id rq) \<in> K"
    and pay: "\<And>dest amnt fee. parse_destination E (rq_destination rq) = Inr dest \<Longrightarrow> cur_parse E (rq_amount rq) = Inr amnt \<Longrightarrow>
      default_fee E (rq_fee rq) = Inr fee \<Longrightarrow> Pay (rq_id rq) ''withdrawal'' dest amnt fee \<in> K"
  shows "evolves (moves E K) (create_withdrawal E ctx rq)"
proof -
  have new: "evolves (seeded E K) (bnd (check_unit E cs (rq_unit rq)) (\<lambda>_.
      bnd (build_custody_transfer E ctx cs mst dest v fee) (\<lambda>txn.
      bnd (ext (now E)) (\<lambda>created.
      bnd (journal_withdrawal E \<lparr>w_request = rq_id rq, w_kind = ''withdrawal'', w_txn = txn,
           w_basis = cs_index cs, w_confirmed = None, w_destination = dest, w_amount = v,
           w_fee = fee, w_created = created, w_error = []\<rparr>) (\<lambda>w.
      bnd wake_rebroadcast (\<lambda>_.
      bnd (view_withdrawal E w) (\<lambda>view. ret (view, True))))))))"
    if "parse_destination E (rq_destination rq) = Inr dest" and v: "parse_positive_currency E (rq_amount rq) ''amountAtomic'' = Inr v"
      and fee: "default_fee E (rq_fee rq) = Inr fee" for dest v fee cs mst
    unfolding check_unit_def
    using pay [OF that(1) parse_positive_ok(1) [OF v] fee] currency_bounds(2) [OF laws parse_positive_ok(1) [OF v]]
      default_fee_bound [OF laws fee] K
    by (intro sd_intros mv_build_transfer [THEN seeded_moves] sd_journal_withdrawal mv_wake [THEN seeded_moves]
        view_withdrawal_frame [THEN mv_frame, THEN seeded_moves]) simp_all
  show ?thesis
    unfolding create_withdrawal_def
    by (intro mv.ev_bnd_sum mv.ev_bnd [OF mv.ev_guard] mv.ev_bnd [OF frame_reads(8) [THEN mv_frame]] mv.ev_option
        mv_after_ready new mv_intros view_withdrawal_frame [THEN mv_frame])
qed

section \<open>Addresses\<close>

lemma mv_new_deposit_address:
  "Issue ''deposit'' ref \<in> K \<Longrightarrow> evolves (moves E K) (new_deposit_address E ref)"
  unfolding new_deposit_address_def
  by (intro mv_intros frame_reads [THEN mv_frame] register_address_frame [THEN mv_frame] mv_new_address)

section \<open>Swaps\<close>

lemma mv_create_swap_keys:
  assumes "Session sid \<in> K"
  shows "evolves (moves E K) (create_swap_keys E sid)"
proof -
  have "moves E K s (snd (bnd (lift_sum (derive_swap_keys E mst sid)) (\<lambda>keys.
         bnd (ext (now E)) (\<lambda>t.
         let k = \<lparr>k_swap = sid, k_public = pk_public keys, k_created = t\<rparr> in
         bnd (add_swap_key E k) (\<lambda>_.
         ret (view_swap_key E k, True)))) s))" if seed: "mst_seed s = Some mst" for s :: "'a sys" and mst
  proof (cases "derive_swap_keys E mst sid")
    case (Inr keys)
    obtain tm u where now: "ext (now E) s = (Ok tm, u)" by (simp add: ext_app)
    let ?k = "\<lparr>k_swap = sid, k_public = pk_public keys, k_created = tm\<rparr>"
    have fr: "frame s u" using frame_ext now by (rule evolvesD)
    obtain r x where add: "add_swap_key E ?k u = (r, x)" by fastforce
    have "moves E K u (snd (add_swap_key E ?k u))"
      by (rule mv_add_key) (use assms Inr seed fr in \<open>simp_all add: frame_def\<close>)
    with move_frame [OF fr] have "moves E K s x" using add by (auto intro: mv.le_trans)
    with Inr now add show ?thesis by (cases r) (simp_all add: bnd_def Let_def)
  qed (simp add: mv.le_refl)
  then show ?thesis
    unfolding create_swap_keys_def
    by (intro mv.ev_bnd [OF mv.ev_guard] mv.ev_bnd [OF frame_swap_reads(1) [THEN mv_frame]] mv.ev_option mv.ev_ret
        mv.ev_bnd_at [where m = master_seed])
      (auto simp: master_seed_def evolves_def bnd_def mv.le_refl split: option.splits)
qed

lemma sound_parsed: "parse_swap_keys E name v = Inr k \<Longrightarrow> sound_keys E k"
  by (auto simp: parse_swap_keys_iff sound_keys_def full_keys_def)

lemma sound_decoded: "decode_qday_keys E raw = Inr k \<Longrightarrow> sound_keys E k"
  using decode_keys_full [of E raw k]
  by (auto simp: sound_keys_def decode_qday_keys_def Let_def split: if_splits option.splits)

lemma sound_stored: "swap_key_get E sid s = (Ok (Some k), t) \<Longrightarrow> sound_keys E (k_public k)"
  using swap_key_get_ok [of E sid s "Some k" t]
  by (auto simp: scan_swap_key_def dest: sound_decoded split: option.splits sum.splits)

lemma sound_found: "swap_key_get E sid s = (Ok found, t) \<Longrightarrow> found = Some k \<Longrightarrow> sound_keys E (k_public k)"
  by (auto dest: sound_stored)

lemma mv_register_swap:
  assumes "\<And>hash. rg_secret_hash rq = hex_encode hash \<Longrightarrow> Bind (rg_swap rq) (rg_role rq) hash (rg_refund_height rq) \<in> K"
  shows "evolves (moves E K) (register_swap E rq)"
proof -
  have add: "evolves (moves E K) (add_swap E ((draft_swap rq (k_public own) other hash tm)\<lparr>s_address := addr\<rparr>))"
    if "parse_swap_keys E name v = Inr other" "parse_hash n' (rg_secret_hash rq) = Inr hash" "sound_keys E (k_public own)"
      "contract_address E (swap_contract_of (draft_swap rq (k_public own) other hash tm)) = Inr addr"
    for name v other n' hash own tm addr
    using that(4) sound_parsed [OF that(1)] that(3) assms [of hash] that(2)
    by (intro mv_add_swap; cases "rg_role rq = ''recipient''")
      (simp_all add: draft_swap_def Let_def terms_of_def swap_contract_of_def parse_hash_iff)
  show ?thesis
    unfolding register_swap_def Let_def
    apply (intro mv.ev_bnd_sum mv.ev_bnd [OF mv.ev_guard])
    apply (rule mv.ev_bnd_post [OF frame_swap_reads(1) [THEN mv_frame]])
    apply (simp split: option.split)
    apply (intro conjI allI impI mv.ev_fail)
    apply (drule (1) sound_found)
    apply (intro mv.ev_bnd_sum mv.ev_bnd [OF frame_ext [THEN mv_frame]] mv.ev_bnd [OF frame_swap_reads(2) [THEN mv_frame]]
        mv.ev_option mv.ev_bnd [OF add] mv.ev_bnd [OF watch_swap_frame [THEN mv_frame]]
        mv.ev_bnd [OF view_swap_frame [THEN mv_frame]] mv.ev_bnd [OF mv.ev_guard] mv.ev_ret; assumption)
    done
qed

lemma sd_journal_action:
  assumes "Act (c_swap c) (c_kind c) (c_output c) (c_destination c) (c_amount c) (c_fee c) \<in> K" and "Retry (c_action c) \<in> K"
    and "c_amount c < 2 ^ 128" and "c_fee c < 2 ^ 128"
  shows "evolves (seeded E K) (journal_swap_action E c)"
proof -
  have "Retry (c_action (case failure of None \<Rightarrow> c | Some msg \<Rightarrow> c\<lparr>c_error := msg\<rparr>)) \<in> K" for failure
    using assms(2) by (simp split: option.split)
  then show ?thesis
    unfolding journal_swap_action_def submit_swap_action_def Let_def
    by (intro sd_intros sd_add_action submit_frame [THEN mv_frame, THEN seeded_moves] mv_edits(4) [THEN seeded_moves]
        mv_wake [THEN seeded_moves] view_swap_action_frame [THEN mv_frame, THEN seeded_moves] assms)
qed

lemma mv_fund_swap:
  assumes laws: "currency_laws E" and K: "Issue ''change'' [] \<in> K" "Retry (sid @ '':fund'') \<in> K"
    and act: "\<And>dest amnt fee. cur_parse E (fr_amount rq) = Inr amnt \<Longrightarrow> default_fee E (fr_fee rq) = Inr fee \<Longrightarrow>
      Act sid ''fund'' [] dest amnt fee \<in> K"
  shows "evolves (moves E K) (fund_swap E ctx sid rq)"
proof -
  have new: "evolves (moves E K) (new_funding E ctx sid sw v fee unt)"
    if v: "parse_positive_currency E (fr_amount rq) ''amountAtomic'' = Inr v" and fee: "default_fee E (fr_fee rq) = Inr fee"
    for sw v fee unt
  proof -
    have "evolves (seeded E K) (journal_swap_action E (fund_action sid sw cs txn v fee tm))" for cs txn tm
      using act [OF parse_positive_ok(1) [OF v] fee] currency_bounds(2) [OF laws parse_positive_ok(1) [OF v]]
        default_fee_bound [OF laws fee] K
      by (intro sd_journal_action) (simp_all add: fund_action_def)
    then show ?thesis
      unfolding new_funding_def check_unit_def
      by (intro mv_after_ready sd_intros mv_build_transfer [THEN seeded_moves] K)
  qed
  show ?thesis
    unfolding fund_swap_def
    by (intro mv.ev_bnd_sum mv.ev_bnd [OF frame_swap_reads(2) [THEN mv_frame]] mv.ev_bnd [OF frame_swap_reads(4) [THEN mv_frame]]
        mv.ev_option new mv_intros view_swap_action_frame [THEN mv_frame])
qed

lemma mv_build_spend:
  "Issue ''change'' [] \<in> K \<Longrightarrow> evolves (moves E K) (build_swap_spend E ctx cs kind sw keys secret oid fee)"
  unfolding build_swap_spend_def
  by (intro mv_intros mv_new_address find_swap_output_frame [THEN mv_frame] sign_swap_spend_frame [THEN mv_frame])

lemma build_spend_bound:
  assumes laws: "currency_laws E" and fee: "fee < 2 ^ 128"
    and run: "build_swap_spend E ctx cs kind sw keys secret oid fee s = (Ok (txn, destination, rest), t)"
  shows "rest < 2 ^ 128"
proof -
  obtain parent where "qday_value E cs parent (ci_height (cs_index cs) + 1) = rest + fee"
    using build_swap_spend_run [OF laws fee run] unfolding spends_contract_def by metis
  then show ?thesis using currency_bounds(3) [OF laws, of cs parent "ci_height (cs_index cs) + 1"] by simp
qed

lemma mv_new_spend:
  assumes laws: "currency_laws E" and fee: "fee < 2 ^ 128"
    and K: "Issue ''change'' [] \<in> K" "Retry (sid @ '':'' @ kind @ '':'' @ output_id_string E oid) \<in> K"
    and act: "\<And>dest amnt. Act sid kind (output_id_string E oid) dest amnt fee \<in> K"
  shows "evolves (moves E K) (new_spend E ctx sid kind sw secret oid fee)"
proof -
  have act': "evolves (seeded E K) (journal_swap_action E (spend_action E sid kind oid cs txn dest rest fee tm))"
    if "rest < 2 ^ 128" for cs txn dest rest tm
    using that fee act K by (intro sd_journal_action) (simp_all add: spend_action_def)
  have build: "evolves (seeded E K) (bnd (build_swap_spend E ctx cs kind sw keys secret oid fee) (\<lambda>(txn, destination, rest).
     bnd (ext (now E)) (\<lambda>t. journal_swap_action E (spend_action E sid kind oid cs txn destination rest fee t))))" for cs keys
    by (rule sd.ev_bnd_post [OF mv_build_spend [OF K(1), THEN seeded_moves]])
      (auto intro!: sd_intros act' dest: build_spend_bound [OF laws fee])
  have seed: "mst_seed t \<noteq> None" if "session_keys E sid s = (Ok keys, t)" for s t :: "'a sys" and keys
    using session_keys_ok(1) [OF that] evolvesD [OF session_keys_frame that] by (auto simp: frame_def)
  have synced: "evolves (seeded E K) (synced_state E)"
    by (intro seeded_moves mv_frame synced_state_frame)
  show ?thesis
    unfolding new_spend_def
    by (rule mv.ev_bnd_at [OF session_keys_frame [THEN mv_frame]], rule seededD)
      (intro sd.ev_bnd [OF synced] sd.ev_bnd [OF sd.ev_guard] build, erule seed)
qed

lemma mv_spend_swap:
  assumes laws: "currency_laws E" and K: "Issue ''change'' [] \<in> K"
    and act: "\<And>oid dest amnt fee. parse_output_id E (trim_space (sq_output rq)) = Some oid \<Longrightarrow> default_fee E (sq_fee rq) = Inr fee \<Longrightarrow>
      Act sid kind (output_id_string E oid) dest amnt fee \<in> K \<and> Retry (sid @ '':'' @ kind @ '':'' @ output_id_string E oid) \<in> K"
  shows "evolves (moves E K) (spend_swap E ctx sid kind rq)"
proof -
  have new: "evolves (moves E K) (new_spend E ctx sid kind sw secret oid fee)"
    if "parse_output_id E (trim_space (sq_output rq)) = Some oid" "default_fee E (sq_fee rq) = Inr fee" for sw secret oid fee
    by (rule mv_new_spend [OF laws default_fee_bound [OF laws that(2)] K]) (use act [OF that] in blast)+
  have post: "evolves (moves E K) (bnd (case r of None \<Rightarrow> fail e | Some x \<Rightarrow> ret x) f)"
    if "\<And>x. r = Some x \<Longrightarrow> evolves (moves E K) (f x)" for r :: "bytes option" and e and f :: "bytes \<Rightarrow> ('a sys, 'c) m"
    using that by (cases r) (auto intro: mv.ev_fail)
  show ?thesis
    unfolding spend_swap_def
    by (intro post mv.ev_bnd_sum mv.ev_bnd [OF frame_swap_reads(2) [THEN mv_frame]] mv.ev_bnd [OF frame_swap_reads(4) [THEN mv_frame]]
        mv.ev_bnd [OF mv.ev_guard] mv.ev_option new mv_intros view_swap_action_frame [THEN mv_frame])
qed

section \<open>Background work\<close>

lemma mv_observe:
  assumes "\<And>ci. evolves (moves E K) (f ci)"
  shows "evolves (moves E K) (observe_events E f confirmed txn)" and "evolves (moves E K) (orphaned E f confirmed)"
  unfolding observe_events_def orphaned_def
  by (intro mv_intros still_best_frame [THEN mv_frame] assms)+

lemma mv_rebroadcast:
  "range Resend \<union> range Retry \<subseteq> K \<Longrightarrow> evolves (moves E K) (rebroadcast E)"
  unfolding rebroadcast_def rebroadcast_withdrawals_def rebroadcast_swap_actions_def
    rebroadcast_withdrawal_def rebroadcast_action_def
  by (intro mv_intros mv_observe mv_edits resend_frame [THEN mv_frame]
    frame_reads [THEN mv_frame] frame_swap_reads [THEN mv_frame]; blast)

lemma draft_defend_bound:
  assumes laws: "currency_laws E" and run: "draft_defend E s = (Ok (Some w), t)"
  shows "w_kind w = ''defend'' \<and> w_amount w < 2 ^ 128 \<and> w_fee w < 2 ^ 128"
proof -
  have fee: "fee_default E < 2 ^ 128" by (rule currency_bounds(1) [OF laws])
  have transfer: "w_kind w = ''defend'' \<and> w_amount w < 2 ^ 128 \<and> w_fee w < 2 ^ 128"
    if "draft_transfer E cs mst sel (fee_default E) u = (Ok (Some w), v)" and "sel_total sel < 2 ^ 128" for cs mst sel u v
    using that currency_lawsD(2) [OF laws that(2) fee] fee
    by (auto simp: draft_transfer_def run_iffs split: if_splits)
  from run obtain cs outputs u r v mst where
    loop: "foreach (defend_step E cs) (sort_elements E (expires_first cs) outputs)
       \<lparr>sel_inputs = [], sel_owners = [], sel_total = 0\<rparr> u = (Ok r, v)"
    and draft: "draft_transfer E cs mst (case r of Inl sel \<Rightarrow> sel | Inr sel \<Rightarrow> sel) (fee_default E) v = (Ok (Some w), t)"
    unfolding draft_defend_def by (elim bnd_OkE skipE) blast
  have "selected E cs (t_addresses (tables u)) [] \<lparr>sel_inputs = [], sel_owners = [], sel_total = 0\<rparr>"
    by (simp add: selected_def owned_inputs_def)
  from defend_loop_ok [OF laws loop this] obtain sel where r: "r = Inl sel \<or> r = Inr sel"
    and "sel_total sel < 2 ^ 128" by (auto simp: max_inputs_def selected_def)
  with transfer [of cs mst sel v t] draft show ?thesis by auto
qed

lemma mv_draft_defend:
  assumes "Issue ''change'' [] \<in> K"
  shows "evolves (moves E K) (draft_defend E)"
proof -
  have "evolves (moves E K) (draft_transfer E cs mst sel fee)" for cs mst sel fee
    unfolding draft_transfer_def
    by (intro mv_intros mv_new_address finish_transfer_frame [THEN mv_frame] assms)
  then show ?thesis
    unfolding draft_defend_def master_seed_def
    by (intro mv_intros spendable_outputs_frame [THEN mv_frame] defend_step_frame [THEN mv_frame])
qed

lemma sd_defend:
  assumes laws: "currency_laws E" and K: "Issue ''change'' [] \<in> K" "range Resend \<subseteq> K"
    and pay: "\<And>rid dest amnt fee. Pay rid ''defend'' dest amnt fee \<in> K"
  shows "evolves (seeded E K) (defend E)"
proof -
  have submit: "evolves (seeded E K) (submit_defend E w)"
    if "w_kind w = ''defend'' \<and> w_amount w < 2 ^ 128 \<and> w_fee w < 2 ^ 128" for w
    unfolding submit_defend_def
    using that pay K
    by (intro sd_intros sd_add_withdrawal submit_frame [THEN mv_frame, THEN seeded_moves] mv_edits(2) [THEN seeded_moves]
        frame_reads(8) [THEN mv_frame, THEN seeded_moves]) auto
  show ?thesis
    unfolding defend_def
    by (rule sd.ev_bnd_post [OF mv_draft_defend [OF K(1), THEN seeded_moves]])
      (auto intro!: sd.ev_ret submit dest: draft_defend_bound [OF laws] split: option.split)
qed

lemma mv_auto_defend:
  assumes "currency_laws E" and "Issue ''change'' [] \<in> K" "range Resend \<subseteq> K"
    and "\<And>rid dest amnt fee. Pay rid ''defend'' dest amnt fee \<in> K"
  shows "evolves (moves E K) (auto_defend E)"
proof -
  have "evolves (seeded E K) (bnd (network_synced E) (\<lambda>synced. if \<not> synced then ret () else
     bnd (ext (op_try_lock E)) (\<lambda>taken. if \<not> taken then ret () else
     bnd (attempt (defend E)) (\<lambda>_. ret ()))))"
    by (intro sd_intros network_synced_frame [THEN mv_frame, THEN seeded_moves] sd_defend assms)
  then show ?thesis
    unfolding auto_defend_def unlocked_def
    by (intro mv.ev_bnd_at [OF mv.ev_get]) (auto simp: mv.le_refl dest: seededD)
qed

text \<open>A turn of the loop stores rows again and may journal a DEFEND to a fresh change address.\<close>

definition turn_effects :: "effect set" where
  "turn_effects = {Issue ''change'' []} \<union> range Resend \<union> range Retry \<union>
     {e. \<exists>rid dest amnt fee. e = Pay rid ''defend'' dest amnt fee}"

lemma mv_rebroadcast_turn:
  assumes "currency_laws E"
  shows "evolves (moves E turn_effects) (rebroadcast_turn E timer)"
  unfolding rebroadcast_turn_def
  by (intro mv_intros mv.ev_mod moves_move move.woken mv_rebroadcast mv_auto_defend assms) (auto simp: turn_effects_def)

end
