(* ===== verification/Requests.thy ===== *)
theory Requests
  imports Api Effects
begin

text \<open>
  What a request may do: for every endpoint the labels of the steps (theory Moves) its handler can
  take, read off the decoded body, and the rules the router, the token and the decoding obey.
\<close>

section \<open>The labels of a request\<close>

definition body_labels :: "(string \<times> 'a field) list \<Rightarrow> 'a \<Rightarrow> request \<Rightarrow> ('a \<Rightarrow> effect set) \<Rightarrow> effect set" where
  "body_labels members zero rq f = (case decode_body members zero rq of Inl _ \<Rightarrow> {} | Inr a \<Rightarrow> f a)"

definition payment_labels :: "('x, 'z) env_scheme \<Rightarrow> withdrawal_request \<Rightarrow> effect set" where
  "payment_labels E w = {Issue ''change'' [], Resend (rq_id w)} \<union>
     {Pay (rq_id w) ''withdrawal'' dest amnt fee |dest amnt fee.
        parse_destination E (rq_destination w) = Inr dest \<and> cur_parse E (rq_amount w) = Inr amnt \<and>
        default_fee E (rq_fee w) = Inr fee}"

definition binding_labels :: "register_request \<Rightarrow> effect set" where
  "binding_labels r = {Bind (rg_swap r) (rg_role r) hash (rg_refund_height r) |hash. rg_secret_hash r = hex_encode hash}"

definition funding_labels :: "('x, 'z) env_scheme \<Rightarrow> string \<Rightarrow> fund_request \<Rightarrow> effect set" where
  "funding_labels E sid r = {Issue ''change'' [], Retry (sid @ '':fund'')} \<union>
     {Act sid ''fund'' [] dest amnt fee |dest amnt fee.
        cur_parse E (fr_amount r) = Inr amnt \<and> default_fee E (fr_fee r) = Inr fee}"

definition spending_labels :: "('x, 'z) env_scheme \<Rightarrow> string \<Rightarrow> string \<Rightarrow> spend_request \<Rightarrow> effect set" where
  "spending_labels E sid kind r = {Issue ''change'' []} \<union>
     (case parse_output_id E (trim_space (sq_output r)) of None \<Rightarrow> {} | Some oid \<Rightarrow>
        {Retry (sid @ '':'' @ kind @ '':'' @ output_id_string E oid)} \<union>
        {Act sid kind (output_id_string E oid) dest amnt fee |dest amnt fee. default_fee E (sq_fee r) = Inr fee})"

definition request_labels :: "('x, 'z) env_scheme \<Rightarrow> endpoint \<Rightarrow> request \<Rightarrow> effect set" where
  "request_labels E ep rq = (case ep of
       CreateAddress \<Rightarrow> body_labels (single_field ''reference'') [] rq (\<lambda>ref. {Issue ''deposit'' ref})
     | CreateWithdrawal \<Rightarrow> body_labels withdrawal_fields zero_withdrawal rq (payment_labels E)
     | CreateSwapKeys \<Rightarrow> body_labels (single_field ''swapID'') [] rq (\<lambda>sid. {Session sid})
     | RegisterSwap \<Rightarrow> body_labels register_fields zero_register rq binding_labels
     | FundSwap sid \<Rightarrow> body_labels fund_fields zero_fund rq (funding_labels E sid)
     | ClaimSwap sid \<Rightarrow> body_labels spend_fields zero_spend rq (spending_labels E sid ''claim'')
     | RefundSwap sid \<Rightarrow> body_labels spend_fields zero_spend rq (spending_labels E sid ''refund'')
     | _ \<Rightarrow> {})"

text \<open>The change of an authorised request: unlocking and locking change the seed, the others take steps.\<close>

definition request_change :: "('x, 'z) env_scheme \<Rightarrow> endpoint \<Rightarrow> request \<Rightarrow> 'x sys \<Rightarrow> 'x sys \<Rightarrow> bool" where
  "request_change E ep rq s t \<longleftrightarrow> (case ep of
       Unlock \<Rightarrow> frame s t \<or> (\<exists>password seed u v. decode_body (single_field ''password'') [] rq = Inr password \<and>
         read_key E (key_path s) password u = (Inr seed, v) \<and> frame (s\<lparr>mst_seed := Some seed, wake := True\<rparr>) t)
     | Lock \<Rightarrow> t = s \<or> t = s\<lparr>mst_seed := None\<rparr>
     | _ \<Rightarrow> moves E (request_labels E ep rq) s t)"

section \<open>The handlers\<close>

lemma evolves_serve: "evolves R call \<Longrightarrow> evolves R (serve E bad call answer)"
  by (auto simp: evolves_def serve_def attempt_def bnd_def split: prod.split outcome.split) (metis snd_conv)+

lemma evolves_with_body:
  "(\<And>s. R s s) \<Longrightarrow> (\<And>a. decode_body members zero rq = Inr a \<Longrightarrow> evolves R (f a)) \<Longrightarrow> evolves R (with_body members zero rq f)"
  by (simp add: with_body_def evolves_def split: sum.split)

lemma evolves_with_page:
  "(\<And>s. R s s) \<Longrightarrow> (\<And>l k. evolves R (f l k)) \<Longrightarrow> evolves R (with_page rq f)"
  by (simp add: with_page_def evolves_def split: sum.split prod.split)

lemma frame_steps:
  "evolves frame (balance_step E cs outp acc)" "evolves frame (pending_step E spent txn v)"
  "evolves frame (page_step E cs n st)"
proof -
  show "evolves frame (balance_step E cs outp acc)"
    unfolding balance_step_def by (intro frame_intros)
  have "evolves frame ((case xa of (i, outp) \<Rightarrow> \<lambda>acc. bnd (address_by_hash E (so_address outp)) (\<lambda>found.
      if found \<noteq> None \<and> txn_output_id E (txn_id E txn) i \<notin> set spent
      then lift_panic (cur_add E acc (so_value outp)) else ret acc)) w)" for xa w
    by (cases xa) (simp, intro frame_intros frame_reads)
  then show "evolves frame (pending_step E spent txn v)"
    unfolding pending_step_def by (intro frame.ev_fold)
  have outs: "evolves frame (output_step E unt ev did b xa l)" for unt ev did b xa l
    by (cases xa) (simp add: output_step_def, intro frame_intros frame_reads)
  have "evolves frame (event_step E cs n ev p)" for ev p
    unfolding event_step_def txn_deposits_def spends_own_def own_step_def
    by (cases "ev_data ev"; cases p) (simp_all add: Let_def, (intro frame_intros frame_reads outs)+)
  then show "evolves frame (page_step E cs n st)"
    unfolding page_step_def by (intro frame_intros)
qed

lemma frame_views:
  "evolves frame (get_status E)" "evolves frame (get_balance E)" "evolves frame (addresses E l k)"
  "evolves frame (get_deposits E l k)" "evolves frame (get_withdrawal E rid)" "evolves frame (get_withdrawals E l k)"
  "evolves frame (get_swap E sid)" "evolves frame (get_swaps E l k)"
  unfolding get_status_def get_balance_def addresses_def get_deposits_def get_withdrawal_def
    get_withdrawals_def get_swap_def get_swaps_def unlocked_def
  by (intro frame_intros frame_steps frame_reads frame_swap_reads network_synced_frame spendable_outputs_frame
      view_withdrawal_frame view_swap_frame)+

lemma frame_queries:
  "evolves frame (api_ready E)" "evolves frame (api_status E)" "evolves frame (api_balance E)"
  "evolves frame (api_addresses E rq)" "evolves frame (api_deposits E rq)" "evolves frame (api_withdrawals E rq)"
  "evolves frame (api_withdrawal E rid)" "evolves frame (api_swaps E rq)" "evolves frame (api_swap E sid)"
  unfolding api_ready_def api_status_def api_balance_def api_addresses_def api_deposits_def api_withdrawals_def
    api_withdrawal_def api_swaps_def api_swap_def
  by (intro evolves_with_page [OF frame.le_refl] evolves_serve frame_views)+

lemma body_labelsI: "decode_body members zero rq = Inr a \<Longrightarrow> x \<in> f a \<Longrightarrow> x \<in> body_labels members zero rq f"
  by (simp add: body_labels_def)

lemma mv_spend_command:
  assumes "currency_laws E"
  shows "evolves (moves E (body_labels spend_fields zero_spend rq (spending_labels E sid kind)))
    (with_body spend_fields zero_spend rq (\<lambda>r. serve E 400 (spend_swap E RequestCtx sid kind r) answer))"
proof (intro evolves_with_body [OF mv.le_refl] evolves_serve mv_spend_swap assms)
  fix r assume body: "decode_body spend_fields zero_spend rq = Inr r"
  show "Issue ''change'' [] \<in> body_labels spend_fields zero_spend rq (spending_labels E sid kind)"
    using body by (simp add: body_labels_def spending_labels_def)
  show "Act sid kind (output_id_string E oid) dest amnt fee \<in> body_labels spend_fields zero_spend rq (spending_labels E sid kind) \<and>
      Retry (sid @ '':'' @ kind @ '':'' @ output_id_string E oid) \<in> body_labels spend_fields zero_spend rq (spending_labels E sid kind)"
    if "parse_output_id E (trim_space (sq_output r)) = Some oid" "default_fee E (sq_fee r) = Inr fee" for oid dest amnt fee
    using body that by (simp add: body_labels_def spending_labels_def)
qed

lemma mv_commands:
  assumes laws: "currency_laws E"
  shows "evolves (moves E (request_labels E CreateAddress rq)) (api_create_address E rq)"
    and "evolves (moves E (request_labels E CreateWithdrawal rq)) (api_create_withdrawal E rq)"
    and "evolves (moves E (request_labels E CreateSwapKeys rq)) (api_create_swap_keys E rq)"
    and "evolves (moves E (request_labels E RegisterSwap rq)) (api_register_swap E rq)"
    and "evolves (moves E (request_labels E (FundSwap sid) rq)) (api_fund_swap E sid rq)"
    and "evolves (moves E (request_labels E (ClaimSwap sid) rq)) (api_claim_swap E sid rq)"
    and "evolves (moves E (request_labels E (RefundSwap sid) rq)) (api_refund_swap E sid rq)"
  unfolding request_labels_def endpoint.case api_create_address_def api_create_withdrawal_def api_create_swap_keys_def
    api_register_swap_def api_fund_swap_def api_claim_swap_def api_refund_swap_def claim_swap_def refund_swap_def
  by (intro evolves_with_body [OF mv.le_refl] evolves_serve mv_new_deposit_address mv_create_withdrawal mv_create_swap_keys
      mv_register_swap mv_fund_swap mv_spend_command laws; auto simp: body_labels_def payment_labels_def
      binding_labels_def funding_labels_def)+

section \<open>The whole interface\<close>

lemma frame_trivial: "R = moves E K \<Longrightarrow> evolves frame m \<Longrightarrow> evolves R m"
  by (simp add: mv_frame)

lemma unlock_change:
  assumes "api_unlock E rq s = (r, t)"
  shows "request_change E Unlock rq s t"
proof (cases "decode_body (single_field ''password'') [] rq")
  case (Inr password)
  obtain a v where read: "read_key E (key_path s) password (world s) = (a, v)" by fastforce
  show ?thesis
  proof (cases a)
    case (Inl e)
    with assms Inr read show ?thesis
      by (auto simp: api_unlock_def with_body_def serve_def attempt_def unlock_wallet_def ext_sum_def ext_app bnd_def
          request_change_def frame_def)
  next
    case (Inr seed)
    with assms \<open>decode_body _ _ rq = _\<close> read have "frame (s\<lparr>mst_seed := Some seed, wake := True\<rparr>) t"
      by (auto simp: api_unlock_def with_body_def serve_def attempt_def unlock_wallet_def ext_sum_def ext_app bnd_def
          wake_rebroadcast_def frame_def)
    with read Inr \<open>decode_body _ _ rq = _\<close> show ?thesis by (auto simp: request_change_def)
  qed
qed (use assms in \<open>auto simp: api_unlock_def with_body_def request_change_def frame_def\<close>)

lemma lock_change: "api_lock E rq s = (r, t) \<Longrightarrow> request_change E Lock rq s t"
  by (auto simp: api_lock_def with_body_def lock_wallet_def bnd_def request_change_def split: sum.splits)

lemma dispatch_change:
  assumes laws: "currency_laws E" and run: "dispatch E ep rq s = (r, t)"
  shows "request_change E ep rq s t"
proof (cases "ep = Unlock \<or> ep = Lock")
  case True
  with run show ?thesis by (auto simp: dispatch_def intro: unlock_change lock_change)
next
  case False
  have "evolves (moves E (request_labels E ep rq)) (dispatch E ep rq)"
    using False frame_queries [THEN mv_frame] mv_commands [OF laws]
    by (cases ep) (simp_all add: dispatch_def mv.ev_ret)
  from evolvesD [OF this run] False show ?thesis
    by (cases ep) (simp_all add: request_change_def)
qed

lemma handle_run:
  "handle E token rq s = (r, t) \<longleftrightarrow>
    (\<exists>r'. (case route (hq_method rq) (hq_path rq) of
        Inl code \<Rightarrow> ret (router_answer (hq_path rq) code)
      | Inr ep \<Rightarrow> if ep \<notin> {Healthz, Readyz} \<and> \<not> authorised_request token rq
          then ret (write_error 401 ''authentication required'') else dispatch E ep rq) s = (r', t) \<and>
      r = (case r' of Ok a \<Rightarrow> Ok (security_headers a) | Err e \<Rightarrow> Err e | Panic \<Rightarrow> Panic | Hang \<Rightarrow> Hang))"
proof -
  let ?m = "case route (hq_method rq) (hq_path rq) of
        Inl code \<Rightarrow> ret (router_answer (hq_path rq) code)
      | Inr ep \<Rightarrow> if ep \<notin> {Healthz, Readyz} \<and> \<not> authorised_request token rq
          then ret (write_error 401 ''authentication required'') else dispatch E ep rq"
  have "handle E token rq = bnd ?m (\<lambda>r. ret (security_headers r))"
    unfolding handle_def with_auth_def by (rule arg_cong [where f = "\<lambda>m. bnd m _"]) (auto split: sum.split)
  then show ?thesis
    by (cases "?m s"; cases "fst (?m s)") (auto simp: bnd_def)
qed

lemma handle_effect:
  assumes "currency_laws E" and "handle E token rq s = (r, t)"
  shows "case route (hq_method rq) (hq_path rq) of
      Inl code \<Rightarrow> t = s
    | Inr ep \<Rightarrow> if ep \<notin> {Healthz, Readyz} \<and> \<not> authorised_request token rq then t = s
        else request_change E ep rq s t"
  using assms(2) unfolding handle_run
  by (auto split: sum.splits if_splits intro: dispatch_change [OF assms(1)])

text \<open>
  C24. Every request does to the daemon only what its endpoint is for: without the token nothing at
  all happens (the two probes apart, which have no effect either); a query changes nothing; and each
  command may only issue the address, journal the payment, bind the contract or spend the output that
  its own decoded body names, and change the seed only by unlocking and locking.
\<close>

theorem request_confined:
  assumes "currency_laws E" and "handle E token rq s = (r, t)"
  shows "case route (hq_method rq) (hq_path rq) of
      Inl code \<Rightarrow> t = s
    | Inr ep \<Rightarrow> if ep \<notin> {Healthz, Readyz} \<and> \<not> authorised_request token rq then t = s
        else request_change E ep rq s t"
  by (rule handle_effect [OF assms])

end
