(* ===== verification/Boot_Facts.thy ===== *)
theory Boot_Facts
  imports Cli Requests
begin

text \<open>
  What the process holds open: every way out of a command, with an error or without, closes what the
  command has opened, and nothing else.
\<close>

section \<open>Triples over the open handles\<close>

text \<open>
  A view of the process: the handles it holds, and whether the node is known to have its syncer. A
  triple goes from a view to \<open>ok\<close> with a value, and to \<open>bad\<close> with an error.
\<close>

type_synonym view = "resource list \<times> bool"

definition seen_as :: "view \<Rightarrow> 'x boot \<Rightarrow> bool" where
  "seen_as v s \<longleftrightarrow> handles s = fst v \<and> (snd v \<longrightarrow> n_has_syncer (the_node (daemon s)))"

definition leaves :: "view \<Rightarrow> ('x, 'a) b \<Rightarrow> view \<Rightarrow> view \<Rightarrow> bool" where
  "leaves v m ok bad \<longleftrightarrow> (\<forall>s r t. seen_as v s \<longrightarrow> m s = (r, t) \<longrightarrow>
     (case r of Ok _ \<Rightarrow> seen_as ok t | Err _ \<Rightarrow> seen_as bad t | _ \<Rightarrow> True))"

definition closing :: "resource list \<Rightarrow> view \<Rightarrow> view" where
  "closing rs v = (filter (\<lambda>x. x \<notin> set rs) (fst v), snd v)"

definition adding :: "resource \<Rightarrow> view \<Rightarrow> view" where
  "adding r v = (r # fst v, snd v)"

text \<open>The order of the states that neither opens, closes nor changes the node.\<close>

definition unopened :: "'x boot \<Rightarrow> 'x boot \<Rightarrow> bool" where
  "unopened s t \<longleftrightarrow> handles t = handles s \<and> the_node (daemon t) = the_node (daemon s)"

definition same_node :: "'x sys \<Rightarrow> 'x sys \<Rightarrow> bool" where
  "same_node s t \<longleftrightarrow> the_node t = the_node s"

interpretation unopened: state_order unopened
  by unfold_locales (auto simp: unopened_def)

interpretation same_node: state_order same_node
  by unfold_locales (auto simp: same_node_def)

lemma leavesI:
  assumes "\<And>s a t. seen_as v s \<Longrightarrow> m s = (Ok a, t) \<Longrightarrow> seen_as ok t"
    and "\<And>s e t. seen_as v s \<Longrightarrow> m s = (Err e, t) \<Longrightarrow> seen_as bad t"
  shows "leaves v m ok bad"
  unfolding leaves_def using assms by (auto split: outcome.split)

lemma leavesD:
  "leaves v m ok bad \<Longrightarrow> seen_as v s \<Longrightarrow> m s = (Ok a, t) \<Longrightarrow> seen_as ok t"
  "leaves v m ok bad \<Longrightarrow> seen_as v s \<Longrightarrow> m s = (Err e, t) \<Longrightarrow> seen_as bad t"
  unfolding leaves_def by fastforce+

text \<open>That the syncer is there may be forgotten.\<close>

lemma leaves_forget:
  "leaves v m (ok, b) bad \<Longrightarrow> leaves v m (ok, False) bad"
  "leaves v m u (h, b) \<Longrightarrow> leaves v m u (h, False)"
  by (rule leavesI; auto dest: leavesD simp: seen_as_def)+

lemma leaves_same:
  assumes "evolves unopened m"
  shows "leaves v m v v"
  by (rule leavesI) (use assms in \<open>auto simp: seen_as_def unopened_def dest!: evolvesD\<close>)

lemma leaves_bnd:
  assumes "leaves v m u bad" and "\<And>a. leaves u (f a) ok bad"
  shows "leaves v (bnd m f) ok bad"
  by (rule leavesI) (auto simp: bnd_Ok_iff bnd_Err_iff dest: leavesD [OF assms(1)] leavesD [OF assms(2)])

lemma leaves_ret: "leaves v (ret a) v bad"
  by (rule leavesI) simp_all

lemma leaves_fail: "leaves v (fail e) ok v"
  by (rule leavesI) simp_all

lemma leaves_acquire: "leaves v (acquire E r arg) (adding r v) v"
  by (rule leavesI)
    (auto simp: acquire_def call_sum_def call_def failed_def bnd_def adding_def seen_as_def
      split: sum.splits prod.splits outcome.splits)

lemma leaves_release: "leaves v (release E r) (closing [r] v) bad"
  by (rule leavesI) (auto simp: release_def call_def bnd_def closing_def seen_as_def split: prod.splits)

lemma closing_simps [simp]:
  "closing [] v = v" "closing rs (closing [r] v) = closing (r # rs) v" "snd (closing rs v) = snd v"
  by (auto simp: closing_def filter_filter intro: filter_cong)

lemma leaves_release_each: "leaves v (fold_c (\<lambda>r _. bnd (release E r) (\<lambda>_. ret ())) rs u) (closing rs v) bad"
proof (induction rs arbitrary: v u)
  case Nil
  show ?case unfolding closing_simps fold_c.simps by (rule leaves_ret)
next
  case (Cons r rs)
  have "leaves v (bnd (release E r) (\<lambda>_. ret ())) (closing [r] v) bad"
    by (rule leaves_bnd [OF leaves_release]) (rule leaves_ret)
  then have "leaves v (bnd (bnd (release E r) (\<lambda>_. ret ())) (fold_c (\<lambda>r _. bnd (release E r) (\<lambda>_. ret ())) rs))
      (closing rs (closing [r] v)) bad"
    by (rule leaves_bnd) (rule Cons)
  then show ?case unfolding closing_simps fold_c.simps .
qed

lemma leaves_release_all: "leaves v (release_all E rs) (closing rs v) bad"
  unfolding release_all_def by (rule leaves_release_each)

lemma leaves_or_release:
  assumes "leaves v m ok bad" and "closing rs bad = bad'"
  shows "leaves v (or_release E rs m) ok bad'"
proof -
  have tidy: "leaves bad (bnd (release_all E rs) (\<lambda>_. fail e)) ok bad'" for e
    unfolding assms(2) [symmetric] by (rule leaves_bnd [OF leaves_release_all]) (rule leaves_fail)
  show ?thesis
  proof (rule leavesI)
    fix s a t
    assume "seen_as v s" and "or_release E rs m s = (Ok a, t)"
    then show "seen_as ok t"
      by (auto simp: or_release_def dest: leavesD [OF assms(1)] leavesD [OF tidy] split: prod.splits outcome.splits)
  next
    fix s e t
    assume "seen_as v s" and "or_release E rs m s = (Err e, t)"
    then show "seen_as bad' t"
      by (auto simp: or_release_def dest: leavesD [OF assms(1)] leavesD [OF tidy] split: prod.splits outcome.splits)
  qed
qed

text \<open>A step that does not return an error.\<close>

definition calm :: "('x, 'a) b \<Rightarrow> bool" where
  "calm m \<longleftrightarrow> (\<forall>s e t. m s \<noteq> (Err e, t))"

lemma calm_bnd: "calm m \<Longrightarrow> (\<And>a. calm (f a)) \<Longrightarrow> calm (bnd m f)"
  by (simp add: calm_def bnd_Err_iff)

lemma calm_steps:
  "calm (call f)" "calm (ret a)" "calm (get_st g)" "calm (mod_st u)" "calm (release E r)"
  by (auto simp: calm_def call_def release_def bnd_def split: prod.splits)

lemma calm_panic: "calm m \<Longrightarrow> bnd m (\<lambda>_. panic) s = (r, t) \<Longrightarrow> r = Panic \<or> r = Hang"
  by (auto simp: calm_def bnd_def split: prod.splits outcome.splits)

lemma leaves_deferring:
  assumes m: "leaves v m ok bad" and ends: "leaves ok last_step out bad'" "leaves bad last_step bad' bad'" and calm: "calm last_step"
  shows "leaves v (deferring last_step m) out bad'"
proof -
  have ended: "leaves ok (bnd last_step (\<lambda>_. ret a)) out bad'" for a
    by (rule leaves_bnd [OF ends(1)]) (rule leaves_ret)
  have broken: "leaves bad (bnd last_step (\<lambda>_. fail e)) out bad'" for e
    by (rule leaves_bnd [OF ends(2)]) (rule leaves_fail)
  show ?thesis
    by (rule leavesI)
      (auto simp: deferring_def dest: leavesD [OF m] leavesD [OF ended] leavesD [OF broken] calm_panic [OF calm]
        split: prod.splits outcome.splits if_splits)
qed

lemma leaves_if: "(b \<Longrightarrow> leaves v m ok bad) \<Longrightarrow> (\<not> b \<Longrightarrow> leaves v n ok bad) \<Longrightarrow> leaves v (if b then m else n) ok bad"
  by simp

section \<open>Steps that open nothing\<close>

lemma unopened_call: "evolves unopened (call f)"
  by (auto simp: evolves_def call_def unopened_def split: prod.splits)

lemma unopened_failed: "evolves unopened (failed r)"
  by (auto simp: evolves_def failed_def unopened_def split: sum.splits)

lemma unopened_calls:
  "evolves unopened (call f)" "evolves unopened (failed r)" "evolves unopened (call_sum g)" "evolves unopened (call_err h)"
  unfolding call_sum_def call_err_def
  by (intro unopened.ev_intros unopened_call unopened_failed)+

lemma unopened_context: "evolves unopened m \<Longrightarrow> evolves unopened (in_context msg m)"
  by (auto simp: evolves_def in_context_def split: prod.splits outcome.splits) (metis snd_conv)+

lemma unopened_daemon:
  assumes "evolves same_node m"
  shows "evolves unopened (on_daemon m)"
proof (rule evolvesI)
  fix s :: "'a boot" and r t
  assume run: "on_daemon m s = (r, t)"
  obtain q d where m: "m (daemon s) = (q, d)" by fastforce
  from evolvesD [OF assms this] run m show "unopened s t"
    by (cases q) (auto simp: on_daemon_def unopened_def same_node_def)
qed

lemma frame_same_node: "evolves frame m \<Longrightarrow> evolves same_node m"
  by (auto simp: evolves_def frame_def same_node_def)

lemma unopened_schema: "evolves unopened (mod_st (\<lambda>s. s\<lparr>schema := f (schema s)\<rparr>))"
  by (rule unopened.ev_mod) (simp add: unopened_def)

lemma unopened_statement: "evolves unopened (on_daemon (statement E))"
  by (intro unopened_daemon frame_same_node frame_intros)

lemmas unopened_intros = unopened.ev_intros unopened_calls unopened_context unopened_schema unopened_statement

lemma unopened_open:
  "evolves unopened (create_tables E)" "evolves unopened (table_columns E)"
  "evolves unopened (add_column E cs c)" "evolves unopened (create_indexes E)"
  unfolding create_tables_def table_columns_def add_column_def create_indexes_def create_table_def create_index_def schema_statement_def
  by (intro unopened_intros)+

lemma unopened_pages: "evolves unopened (on_daemon (addresses_page E l k))" "evolves unopened (on_daemon (swaps_page E l k))"
  by (intro unopened_daemon frame_same_node frame_reads frame_swap_reads)+

lemma unopened_watch: "evolves unopened (watch_wallets E)"
  unfolding watch_wallets_def ensure_wallet_def register_addresses_def register_contracts_def address_batch_def swap_batch_def
  by (intro unopened_intros unopened_pages)

lemma unopened_config: "evolves unopened (choose_manifest E cfg)"
  unfolding choose_manifest_def load_manifest_def by (intro unopened_intros)

section \<open>The store and the node\<close>

lemma leaves_open_store:
  assumes "RecordsDB \<notin> set (fst v)"
  shows "leaves v (open_store E path) (adding RecordsDB v) v"
proof -
  have "closing [RecordsDB] (adding RecordsDB v) = v"
    using assms by (auto simp: closing_def adding_def prod_eq_iff intro: filter_True)
  then show ?thesis
    unfolding open_store_def
    by (intro leaves_bnd [OF leaves_acquire] leaves_or_release [OF leaves_same] unopened_intros unopened_open)
qed

lemma leaves_start_syncer: "leaves v (start_syncer E cfg mf address) (adding SyncerTask v) bad"
  by (rule leavesI) (auto simp: start_syncer_def call_def bnd_def adding_def seen_as_def split: prod.splits)

lemma leaves_call: "leaves v (call f) v bad"
  by (rule leavesI) (auto simp: call_def seen_as_def split: prod.splits)

lemma closing_adding: "r \<in> set rs \<Longrightarrow> closing rs (adding r v) = closing rs v"
  by (simp add: closing_def adding_def)

text \<open>A step of the start with its cleanup.\<close>

lemma leaves_guarded:
  "evolves unopened m \<Longrightarrow> closing rs v = w \<Longrightarrow> leaves v (or_release E rs m) v w"
  "closing rs v = w \<Longrightarrow> leaves v (or_release E rs (acquire E r arg)) (adding r v) w"
  by (auto intro: leaves_or_release leaves_same leaves_acquire)

lemma leaves_context: "leaves v m ok bad \<Longrightarrow> leaves v (in_context msg m) ok bad"
  by (rule leavesI) (auto simp: in_context_def dest: leavesD split: prod.splits outcome.splits)

lemma leaves_open_node:
  assumes "set h \<inter> set node_resources = {}"
  shows "leaves (h, False) (open_node E cfg) (node_resources @ h, True) (h, False)"
proof -
  have tidy: "closing rs (h, False) = (h, False)" if "set rs \<subseteq> set node_resources" for rs
    using assms that by (auto simp: closing_def intro!: filter_True)
  note tidy = tidy [unfolded node_resources_def]
  let ?all = "adding WalletManager (adding SyncerTask (adding PeerListener (adding IndexDB (adding ChainDB (h, False)))))"
  have last_step: "leaves ?all (mod_st (\<lambda>s. s\<lparr>daemon := (daemon s)\<lparr>the_node := \<lparr>n_development = d,
      n_has_syncer = True, n_genesis = g, n_wallet = c, n_swap_wallet = w\<rparr>\<rparr>\<rparr>)) (node_resources @ h, True) bad" for d g c w bad
    by (rule leavesI) (auto simp: seen_as_def adding_def node_resources_def)
  show ?thesis
    unfolding open_node_def
    by (intro leaves_bnd [OF leaves_call] leaves_bnd [OF leaves_same, OF unopened_config]
        leaves_bnd [OF leaves_same, OF unopened_calls(4)] leaves_bnd [OF leaves_acquire]
        leaves_bnd [OF leaves_or_release [OF leaves_context [OF leaves_acquire]]] leaves_bnd [OF leaves_guarded(2)]
        leaves_bnd [OF leaves_start_syncer] leaves_bnd [OF leaves_guarded(1)] unopened_intros unopened_watch)
      (simp_all add: closing_adding tidy last_step [unfolded node_resources_def append.simps] node_resources_def split: prod.split)
qed

text \<open>Closing the node closes all of it, when it has its syncer.\<close>

lemma calm_close_node: "calm (close_node E)"
  unfolding close_node_def Let_def by (intro calm_bnd calm_steps) (auto intro: calm_steps)

lemma leaves_has_syncer:
  "snd v \<Longrightarrow> leaves v m ok bad \<Longrightarrow>
    leaves v (bnd (get_st (\<lambda>s. n_has_syncer (the_node (daemon s)))) (\<lambda>has. if has then m else n)) ok bad"
  by (simp add: leaves_def bnd_def seen_as_def)

lemma leaves_close_node: "leaves (node_resources @ h, True) (close_node E) (closing node_resources (h, True)) bad"
proof -
  let ?v = "(node_resources @ h, True)"
  have fst_step: "leaves ?v (bnd (get_st (\<lambda>s. n_has_syncer (the_node (daemon s)))) (\<lambda>has.
      if has then release E SyncerTask else ret None)) (closing [SyncerTask] ?v) bad"
    by (rule leaves_has_syncer) (simp_all add: leaves_release)
  have close: "close_node E = bnd (bnd (get_st (\<lambda>s. n_has_syncer (the_node (daemon s)))) (\<lambda>has.
      if has then release E SyncerTask else ret None)) (\<lambda>e1. bnd (release E PeerListener) (\<lambda>e2.
      bnd (release E WalletManager) (\<lambda>e3. bnd (release E IndexDB) (\<lambda>e4. bnd (release E ChainDB) (\<lambda>e5.
      let e2' = (case e2 of Some e \<Rightarrow> if is_closed E e then None else Some e | None \<Rightarrow> None) in
      ret (case List.find (\<lambda>e. e \<noteq> None) [e1, e2', e3, e4, e5] of None \<Rightarrow> None | Some e \<Rightarrow> e))))))"
    unfolding close_node_def by (simp add: fun_eq_iff bnd_def split: prod.split outcome.split)
  have ends: "closing [ChainDB] (closing [IndexDB] (closing [WalletManager] (closing [PeerListener] (closing [SyncerTask] ?v)))) =
      closing node_resources (h, True)"
    by (auto simp: closing_def node_resources_def intro: filter_cong)
  show ?thesis
    unfolding close Let_def ends [symmetric]
    by (intro leaves_bnd [OF fst_step] leaves_bnd [OF leaves_release] leaves_ret)
qed

section \<open>The service\<close>

lemma leaves_new_service: "leaves v (new_service E path) (adding LoopTask v) bad"
  by (rule leavesI) (auto simp: new_service_def on_daemon_def wake_rebroadcast_def bnd_def adding_def seen_as_def)

lemma close_service_steps: "leaves v close_service (closing [LoopTask] v) bad" "calm close_service"
  by (auto intro!: leavesI simp: close_service_def on_daemon_def lock_wallet_def bnd_def closing_def seen_as_def calm_def)

lemma unopened_secret: "evolves unopened (read_secret E path name)"
  unfolding read_secret_def by (intro unopened_intros)

lemma unopened_unlock: "evolves unopened (unlock_at_start E path)"
proof -
  have "evolves same_node (unlock_wallet E password)" for password
    unfolding unlock_wallet_def wake_rebroadcast_def
    by (intro same_node.ev_intros same_node.ev_mod frame_intros [THEN frame_same_node]) (auto simp: same_node_def)
  then show ?thesis
    unfolding unlock_at_start_def by (intro unopened_intros unopened_secret unopened_daemon)
qed

lemma unopened_token: "evolves unopened (load_or_create_token E path)"
  unfolding load_or_create_token_def Let_def by (intro unopened_intros)

lemma move_node: "move E K s t \<Longrightarrow> the_node t = the_node s"
  by (cases rule: move.cases) (auto simp: frame_def with_address_def with_defs)

lemma moves_node: "moves E K s t \<Longrightarrow> the_node t = the_node s"
  by (erule moves_invariant [where P = "\<lambda>u. the_node u = the_node s"]) (auto dest: move_node)

lemma daemon_same_node:
  assumes "currency_laws E"
  shows "evolves same_node (handle E token rq)" and "evolves same_node (rebroadcast_turn E timer)"
proof -
  show "evolves same_node (handle E token rq)"
  proof (rule evolvesI)
    fix s :: "'a sys" and r t
    assume "handle E token rq s = (r, t)"
    from handle_effect [OF assms this] show "same_node s t"
      by (auto simp: same_node_def request_change_def frame_def dest!: moves_node split: sum.splits if_splits endpoint.splits)
  qed
  show "evolves same_node (rebroadcast_turn E timer)"
    using mv_rebroadcast_turn [OF assms] by (auto simp: evolves_def same_node_def dest: moves_node)
qed

lemma unopened_goroutine: "evolves unopened m \<Longrightarrow> evolves unopened (in_goroutine m)"
  by (auto simp: evolves_def in_goroutine_def unopened_def split: prod.splits outcome.splits) (metis snd_conv)+

lemma unopened_serve:
  assumes "currency_laws E"
  shows "evolves unopened (serve_api E token hs)"
proof -
  have "evolves unopened (happens E token h)" for h
  proof (cases h)
    case (Asked rq)
    have "unopened s (s\<lparr>daemon := snd (handle E token rq (daemon s))\<rparr>)" for s :: "'a boot"
      using daemon_same_node(1) [OF assms] by (simp add: unopened_def same_node_def evolves_def)
    with Asked show ?thesis by (simp add: happens_def unopened.ev_mod)
  next
    case (TakesTurn timer)
    with daemon_same_node(2) [OF assms] show ?thesis by (simp add: happens_def unopened_daemon unopened_goroutine)
  qed
  then show ?thesis unfolding serve_api_def serving_def by (intro unopened_intros)
qed

section \<open>The commands\<close>

lemma leaves_with_flags: "(\<And>fs. leaves v (f fs) ok v) \<Longrightarrow> leaves v (with_flags flags args f) ok v"
  by (auto simp: with_flags_def leaves_fail split: option.split)

lemma leaves_listener: "leaves v (loopback_listener E address allow) (adding ApiListener v) v"
  by (auto simp: loopback_listener_def leaves_fail leaves_acquire split: option.split)

lemma ends_store: "leaves v (bnd (release E r) (\<lambda>_. ret ())) (closing [r] v) bad" "calm (bnd (release E r) (\<lambda>_. ret ()))"
  by (intro leaves_bnd [OF leaves_release] leaves_ret calm_bnd calm_steps)+

text \<open>A resource that is opened and then closed whatever happens.\<close>

lemma closing_own: "r \<notin> set (fst v) \<Longrightarrow> closing [r] (adding r v) = v"
  by (auto simp: closing_def adding_def prod_eq_iff intro!: filter_True)

lemma leaves_held:
  assumes new: "r \<notin> set (fst v)" and get: "leaves v m (adding r v) v"
    and body: "\<And>a. leaves (adding r v) (f a) (adding r v) (adding r v)"
    and ends: "\<And>u. leaves u last_step (closing [r] u) v" "calm last_step"
  shows "leaves v (bnd m (\<lambda>a. deferring last_step (f a))) v v"
proof (rule leaves_bnd [OF get])
  have close: "leaves (adding r v) last_step v v"
    using ends(1) [of "adding r v"] unfolding closing_own [OF new] .
  show "leaves (adding r v) (deferring last_step (f a)) v v" for a
    by (rule leaves_deferring [OF body close close ends(2)])
qed

lemma unopened_private: "evolves unopened (private_dir E path)"
  unfolding private_dir_def by (intro unopened_intros)

lemma leaves_init: "leaves ([], False) (init_wallet E args) ([], False) ([], False)"
proof -
  have seed: "evolves unopened (choose_seed E path)" for path
    unfolding choose_seed_def by (intro unopened_intros unopened_secret)
  have open_close: "leaves ([], False) (bnd (open_store E path) (\<lambda>_. bnd (close_store E) (\<lambda>_. ret a))) ([], False) ([], False)" for path a
  proof (rule leaves_bnd [OF leaves_open_store])
    have "leaves (adding RecordsDB ([], False)) (close_store E) ([], False) ([], False)"
      using leaves_release [of "adding RecordsDB ([], False)" E RecordsDB] unfolding close_store_def by (simp add: closing_own)
    then show "leaves (adding RecordsDB ([], False)) (bnd (close_store E) (\<lambda>_. ret a)) ([], False) ([], False)"
      by (rule leaves_bnd) (rule leaves_ret)
  qed simp
  show ?thesis
    unfolding init_wallet_def Let_def
    by (intro leaves_with_flags leaves_bnd [OF leaves_same] open_close unopened_intros unopened_secret unopened_private seed)
qed

lemma leaves_recovery: "leaves v (recovery E args) v v"
  unfolding recovery_def by (intro leaves_with_flags leaves_same unopened_intros unopened_secret)

lemma unopened_children: "evolves unopened (recover_children E seed n)"
proof -
  have "evolves same_node (add_address E a)" for a
    unfolding add_address_def Let_def
    by (intro same_node.ev_intros same_node.ev_mod frame_intros [THEN frame_same_node]) (auto simp: same_node_def)
  then show ?thesis
    unfolding recover_children_def recover_child_def Let_def
    by (intro unopened_intros unopened_daemon frame_reads [THEN frame_same_node])
qed

lemma leaves_recover_addresses: "leaves ([], False) (recover_addresses E args) ([], False) ([], False)"
  unfolding recover_addresses_def Let_def close_store_def
  by (intro leaves_with_flags leaves_bnd [OF leaves_same] leaves_held [OF _ leaves_open_store] ends_store unopened_intros unopened_secret
      leaves_same unopened_children) simp_all

text \<open>The nested resources of the daemon: records, node, service and listener.\<close>

lemma leaves_service:
  assumes "currency_laws E" and "set (fst v) \<inter> {LoopTask, ApiListener} = {}"
  shows "leaves v (bnd (new_service E key) (\<lambda>_. deferring close_service
      (bnd (unlock_at_start E secret) (\<lambda>_. bnd (load_or_create_token E path) (\<lambda>token.
       bnd (loopback_listener E address allow) (\<lambda>_. deferring (bnd (release E ApiListener) (\<lambda>_. ret ()))
         (bnd (serve_api E token hs) (\<lambda>_. ret [])))))))) v v"
proof -
  have new: "LoopTask \<notin> set (fst v)" "ApiListener \<notin> set (fst (adding LoopTask v))"
    using assms(2) by (auto simp: adding_def)
  show ?thesis
    by (intro leaves_held [OF new(1)] leaves_new_service close_service_steps leaves_bnd [OF leaves_same]
        leaves_held [OF new(2)] leaves_listener ends_store leaves_same unopened_intros unopened_unlock unopened_token
        unopened_serve [OF assms(1)])
qed

lemma leaves_node:
  assumes "set h \<inter> set node_resources = {}"
    and m: "leaves (node_resources @ h, True) m (node_resources @ h, True) (node_resources @ h, True)"
  shows "leaves (h, False) (bnd (open_node E cfg) (\<lambda>_. deferring (bnd (close_node E) (\<lambda>_. ret ())) m)) (h, False) (h, False)"
proof -
  have own: "closing node_resources (h, True) = (h, True)"
    using assms(1) by (auto simp: closing_def intro!: filter_True)
  have "leaves (node_resources @ h, True) (bnd (close_node E) (\<lambda>_. ret ())) (h, True) (h, True)"
    using leaves_bnd [OF leaves_close_node [of h E "(h, True)"] leaves_ret] unfolding own .
  note ends = leaves_forget(2) [OF leaves_forget(1) [OF this]]
  show ?thesis
    by (rule leaves_bnd [OF leaves_open_node [OF assms(1)]])
      (rule leaves_deferring [OF m ends ends calm_bnd [OF calm_close_node calm_steps(2)]])
qed

lemma leaves_run:
  assumes "currency_laws E"
  shows "leaves ([], False) (run_daemon E hs args) ([], False) ([], False)"
proof -
  have v: "adding RecordsDB ([], False) = ([RecordsDB], False)" by (simp add: adding_def)
  have free: "set (fst (node_resources @ [RecordsDB], True)) \<inter> {LoopTask, ApiListener} = {}" "set [RecordsDB] \<inter> set node_resources = {}"
    by (simp_all add: node_resources_def)
  have key: "evolves unopened (check_key_file E path)" for path
    unfolding check_key_file_def by (intro unopened_intros)
  have body: "leaves (adding RecordsDB ([], False)) (bnd (open_node E cfg) (\<lambda>_. deferring (bnd (close_node E) (\<lambda>_. ret ()))
      (bnd (new_service E master) (\<lambda>_. deferring close_service
      (bnd (unlock_at_start E secret) (\<lambda>_. bnd (load_or_create_token E path) (\<lambda>token.
       bnd (loopback_listener E address allow) (\<lambda>_. deferring (bnd (release E ApiListener) (\<lambda>_. ret ()))
         (bnd (serve_api E token hs) (\<lambda>_. ret [])))))))))) (adding RecordsDB ([], False)) (adding RecordsDB ([], False))"
    for cfg master secret path address allow
    unfolding v by (rule leaves_node [OF free(2) leaves_service [OF assms free(1)]])
  note whole = leaves_held [OF _ leaves_open_store body ends_store(1) ends_store(2)]
  show ?thesis
    unfolding run_daemon_def Let_def close_store_def
    by (intro leaves_with_flags leaves_bnd [OF leaves_same] whole unopened_intros unopened_private key) simp_all
qed

text \<open>
  C36. Nothing is left open: whatever the command and its arguments, and whatever fails on the way - a
  file, a database, the manifest, a peer, a listener, the wallet index - a program that comes back
  with success or with an error has closed every database, listener, background task and index it
  opened.
\<close>

theorem program_tidy:
  assumes "currency_laws E" and "handles s = []" and "run_program E hs args s = (r, t)" and "(\<exists>a. r = Ok a) \<or> (\<exists>e. r = Err e)"
  shows "handles t = []"
proof -
  have start: "seen_as ([], False) s" using assms(2) by (simp add: seen_as_def)
  have "leaves ([], False) (run_program E hs args) ([], False) ([], False)"
    unfolding run_program_def
    by (cases args; simp only: list.case; intro leaves_if leaves_run [OF assms(1)] leaves_init leaves_recovery
        leaves_recover_addresses leaves_fail leaves_ret)
  then have "seen_as ([], False) t"
    using start assms(3,4) by (auto dest: leavesD)
  then show ?thesis by (simp add: seen_as_def)
qed

end
