(* ===== verification/Json_Facts.thy ===== *)
theory Json_Facts
  imports Go_Json
begin

text \<open>
  The JSON that a client writes is read back: an object of strings without escapes, as any
  encoder writes it for ASCII identifiers, amounts and addresses.
\<close>

section \<open>ASCII text\<close>

definition ascii :: "string \<Rightarrow> bool" where
  "ascii s \<longleftrightarrow> list_all (\<lambda>c. byte_of c < 128) s"

lemma segments_ascii: "ascii s \<Longrightarrow> segments s = map (\<lambda>c. (byte_of c, [c])) s"
  by (induction s) (simp_all add: ascii_def segments.simps(2) decode_ascii)

lemma concat_singletons: "concat (map (\<lambda>c. [c]) xs) = xs"
  by (induction xs) simp_all

lemma trim_space_ascii:
  assumes "ascii s"
  shows "trim_space s = rev (dropWhile (is_space \<circ> byte_of) (rev (dropWhile (is_space \<circ> byte_of) s)))"
proof -
  have drop: "dropWhile (is_space \<circ> fst) (map (\<lambda>c. (byte_of c, [c])) xs) = map (\<lambda>c. (byte_of c, [c])) (dropWhile (is_space \<circ> byte_of) xs)"
    for xs by (induction xs) simp_all
  show ?thesis
    unfolding trim_space_def segments_ascii [OF assms] drop
    by (simp only: rev_map drop map_map) (simp add: comp_def concat_singletons)
qed

lemma trim_space_tight:
  assumes "ascii s" and "s = [] \<or> \<not> is_space (byte_of (hd s)) \<and> \<not> is_space (byte_of (last s))"
  shows "trim_space s = s"
proof (cases s)
  case (Cons c cs)
  with assms(2) have ends: "\<not> is_space (byte_of c)" "\<not> is_space (byte_of (hd (rev s)))" "rev s \<noteq> []"
    unfolding hd_rev by auto
  then have "dropWhile (is_space \<circ> byte_of) s = s" using Cons by simp
  moreover have "dropWhile (is_space \<circ> byte_of) (rev s) = rev s"
    using ends by (cases "rev s") simp_all
  ultimately show ?thesis by (simp add: trim_space_ascii [OF assms(1)])
qed (simp add: trim_space_def)

lemma lower_runes_ascii: "ascii s \<Longrightarrow> lower_runes s = map lower_char s"
proof -
  assume a: "ascii s"
  have "concat (map ((\<lambda>(r, bs). if r = 0x130 then ''i'' else if r = 0x212A then ''k'' else map lower_char bs) \<circ>
      (\<lambda>c. (byte_of c, [c]))) s) = map lower_char s"
    using a by (induction s) (auto simp: ascii_def)
  then show ?thesis unfolding lower_runes_def segments_ascii [OF a] map_map .
qed

section \<open>Strings\<close>

declare tokens.simps(2) [simp del]

definition plain_char :: "char \<Rightarrow> bool" where
  "plain_char c \<longleftrightarrow> 32 \<le> byte_of c \<and> byte_of c < 128 \<and> c \<noteq> CHR 0x22 \<and> c \<noteq> CHR 0x5C"

abbreviation plain :: "string \<Rightarrow> bool" where
  "plain s \<equiv> list_all plain_char s"

lemma scan_string_plain: "plain v \<Longrightarrow> scan_string (v @ CHR 0x22 # r) = Some (v, r)"
  by (induction v) (auto simp: scan_string.simps(2) plain_char_def)

lemma unquote_plain: "plain v \<Longrightarrow> unquote v = v"
  by (induction v) (auto simp: unquote.simps(2) plain_char_def)

definition quote :: "string \<Rightarrow> string" where
  "quote v = CHR 0x22 # v @ [CHR 0x22]"

lemma tokens_quote: "plain v \<Longrightarrow> tokens (quote v @ r) = (TString v, r) # tokens r"
  by (simp add: tokens.simps(2) quote_def next_token_def scan_string_plain json_space_def byte_of_def)

lemma tokens_punctuation:
  "tokens (CHR 0x7B # r) = (TOpen, r) # tokens r" "tokens (CHR 0x7D # r) = (TClose, r) # tokens r"
  "tokens (CHR '':'' # r) = (TColon, r) # tokens r" "tokens (CHR '','' # r) = (TComma, r) # tokens r"
  by (simp_all add: tokens.simps(2) next_token_def json_space_def byte_of_def)

section \<open>Objects of strings\<close>

fun members_text :: "(string \<times> string) list \<Rightarrow> string" where
  "members_text [] = []"
| "members_text [(k, v)] = quote k @ '':'' @ quote v"
| "members_text ((k, v) # kvs) = quote k @ '':'' @ quote v @ '','' @ members_text kvs"

definition object_text :: "(string \<times> string) list \<Rightarrow> string" where
  "object_text kvs = CHR 0x7B # members_text kvs @ [CHR 0x7D]"

abbreviation plain_members :: "(string \<times> string) list \<Rightarrow> bool" where
  "plain_members kvs \<equiv> list_all (\<lambda>(k, v). plain k \<and> plain v) kvs"

lemma scan_members:
  assumes "kvs \<noteq> []" and "plain_members kvs" and "m = WantKey \<or> m = WantMember \<and> acc = []"
  shows "scan_value m [InObject acc x] (tokens (members_text kvs @ CHR 0x7D # r))
    = Some (JObject (rev acc @ map (\<lambda>(k, v). (k, JString v)) kvs), r)"
  using assms
proof (induction kvs arbitrary: m acc x rule: members_text.induct)
  case (2 k v)
  then show ?case
    by (elim disjE) (simp_all add: tokens_quote tokens_punctuation begin_member_def begin_value_def unquote_plain)
next
  case (3 k v kv kvs)
  have "scan_value WantKey [InObject ((k, JString v) # acc) k] (tokens (members_text (kv # kvs) @ CHR 0x7D # r))
      = Some (JObject (rev ((k, JString v) # acc) @ map (\<lambda>(k, v). (k, JString v)) (kv # kvs)), r)"
    using 3 by (intro "3.IH") simp_all
  with 3 show ?case
    by (elim disjE) (simp_all add: tokens_quote tokens_punctuation begin_member_def begin_value_def unquote_plain)
qed simp

lemma read_object:
  assumes "plain_members kvs"
  shows "read_json clean (object_text kvs) = Some (JObject (map (\<lambda>(k, v). (k, JString v)) kvs), [])"
proof (cases "kvs = []")
  case True
  then show ?thesis
    by (simp add: read_json_def object_text_def tokens_punctuation begin_value_def is_container_def)
next
  case False
  from scan_members [OF this assms, of WantMember "[]" "[]" "[]"]
  have "scan_value WantValue [] (tokens (object_text kvs)) = Some (JObject (map (\<lambda>(k, v). (k, JString v)) kvs), [])"
    by (simp add: object_text_def tokens_punctuation begin_value_def)
  then show ?thesis by (simp add: read_json_def is_container_def)
qed

end
