(* ===== verification/Api_Facts.thy ===== *)
theory Api_Facts
  imports Requests Json_Facts
begin

text \<open>
  What the answers of the HTTP interface mean: the token, the pages, the status codes and what they
  say about the state.
\<close>

section \<open>The token and the pages\<close>

text \<open>
  C29. The token is compared whole: a request is let through exactly when its \<open>Authorization\<close> header
  is \<open>Bearer\<close>, one blank and the token, or the bare token itself; a prefix, an extension or another
  text of the same length never passes, whatever the token is.
\<close>

theorem token_compared:
  "authorised_request token rq \<longleftrightarrow>
     hq_authorization rq = ''Bearer '' @ token \<or> hq_authorization rq = token \<and> \<not> prefix ''Bearer '' token"
proof -
  have strip: "trim_prefix p v = w \<longleftrightarrow> v = p @ w \<or> v = w \<and> \<not> prefix p w" for p v w :: string
  proof (cases "prefix p v")
    case False
    then have "take (length p) v \<noteq> p" by (metis take_is_prefix)
    with False show ?thesis by (auto simp: trim_prefix_def)
  qed (auto simp: trim_prefix_def prefix_def)
  have "authorised_request token rq \<longleftrightarrow> trim_prefix ''Bearer '' (hq_authorization rq) = token"
    by (auto simp: authorised_request_def Let_def)
  then show ?thesis unfolding strip .
qed

section \<open>Bodies\<close>

text \<open>A request as a client sends it: an object of strings, declared as JSON.\<close>

definition sends :: "(string \<times> string) list \<Rightarrow> request \<Rightarrow> bool" where
  "sends kvs rq \<longleftrightarrow> plain_members kvs \<and> length (object_text kvs) \<le> max_body \<and> hq_body rq = object_text kvs \<and>
     hq_body_end rq \<and> media_type_is ''application/json'' (hq_content_type rq)"

lemma decode_sent:
  assumes "sends kvs rq"
  shows "decode_body members zero rq = (case decode_members members (map (\<lambda>(k, v). (k, JString v)) kvs) zero of
      None \<Rightarrow> Inl (write_json 400 BBadJSON) | Some a \<Rightarrow> Inr a)"
  using assms read_object [of kvs]
  by (simp add: decode_body_def sends_def struct_fields_def Let_def split: option.split)

text \<open>
  C32. The bodies of the commands round trip: what a client writes for a withdrawal, a funding, a
  claim or refund, or a new address, as an object of plain strings, is decoded to exactly those
  values, each in its own field; a member no struct knows makes the body a 400.
\<close>

theorem bodies_read:
  assumes "sends kvs rq"
  shows "(kvs = [(''requestID'', rid), (''destination'', dest), (''amountAtomic'', amnt), (''feeAtomic'', fee),
        (''expectedUnitAtomic'', unt)] \<longrightarrow> decode_body withdrawal_fields zero_withdrawal rq =
        Inr \<lparr>rq_id = rid, rq_destination = dest, rq_amount = amnt, rq_fee = fee, rq_unit = unt\<rparr>) \<and>
    (kvs = [(''amountAtomic'', amnt), (''feeAtomic'', fee), (''expectedUnitAtomic'', unt)] \<longrightarrow>
        decode_body fund_fields zero_fund rq = Inr \<lparr>fr_amount = amnt, fr_fee = fee, fr_unit = unt\<rparr>) \<and>
    (kvs = [(''outputID'', oid), (''feeAtomic'', fee), (''secret'', secret)] \<longrightarrow>
        decode_body spend_fields zero_spend rq = Inr \<lparr>sq_output = oid, sq_fee = fee, sq_secret = secret\<rparr>) \<and>
    (kvs = [(name, ref)] \<longrightarrow> decode_body (single_field name) [] rq = Inr ref) \<and>
    (list_ex (\<lambda>(k, v). find_field members k = None) kvs \<longrightarrow> decode_body members zero rq = Inl (write_json 400 BBadJSON))"
proof -
  have unknown: "decode_members members (map (\<lambda>(k, v). (k, JString v)) kvs) a = None"
    if "list_ex (\<lambda>(k, v). find_field members k = None) kvs" for a
    using that by (induction kvs arbitrary: a) (auto split: Option.bind_splits)
  show ?thesis
    unfolding decode_sent [OF assms]
    by (intro conjI impI) (simp_all add: unknown, (simp_all add: find_field_def withdrawal_fields_def fund_fields_def
      spend_fields_def single_field_def string_field_def zero_withdrawal_def zero_fund_def zero_spend_def)?)
qed

section \<open>The answers of the handlers\<close>

lemma oks_serve:
  assumes "oks Q call" and "\<And>a. Q a \<Longrightarrow> P (answer a)" and "\<And>e. P (write_error bad e)"
  shows "oks P (serve E bad call answer)"
  using assms unfolding oks_def serve_def attempt_def
  by (auto simp: bnd_Ok_iff split: prod.splits outcome.splits sum.splits)

lemma oks_any: "oks (\<lambda>_. True) m"
  by (simp add: oks_def)

lemma decode_body_refusal:
  "decode_body members zero rq = Inl r \<Longrightarrow> r \<in> {write_error 415 ''Content-Type must be application/json'', write_json 400 BBadJSON,
     write_error 400 ''request body must contain one JSON value''}"
  by (auto simp: decode_body_def Let_def split: if_splits option.splits prod.splits)

lemma oks_with_body:
  assumes "\<And>a. oks P (f a)" and "\<And>r. decode_body members zero rq = Inl r \<Longrightarrow> P r"
  shows "oks P (with_body members zero rq f)"
  using assms by (auto simp: with_body_def oks_def split: sum.split)

lemma pagination_bounds:
  assumes "pagination query = Inr (limit, offset)"
  shows "1 \<le> limit \<and> limit \<le> 200 \<and> 0 \<le> offset \<and> offset < 2 ^ 63"
  using assms unfolding pagination_def atoi_def Let_def
  by (auto split: if_splits option.splits)

lemma pagination_refusal: "pagination query = Inl b \<Longrightarrow> b \<in> {BBadNumber, BError ''limit must be 1..200 and offset must be nonnegative''}"
  by (auto simp: pagination_def split: if_splits option.splits)

lemma oks_with_page:
  assumes "\<And>l k. 1 \<le> l \<Longrightarrow> l \<le> 200 \<Longrightarrow> 0 \<le> k \<Longrightarrow> oks P (f l k)" and "\<And>b. pagination (hq_query rq) = Inl b \<Longrightarrow> P (write_json 400 b)"
  shows "oks P (with_page rq f)"
  using assms pagination_bounds [of "hq_query rq"]
  by (auto simp: with_page_def oks_def split: sum.split prod.split) blast

lemma scan_rows_length: "scan_rows f rows = Inr xs \<Longrightarrow> length xs = length rows"
  by (induction rows arbitrary: xs) (auto split: sum.splits)

lemma page_length: "length (page l k rows) \<le> nat l"
  by (simp add: page_def)

lemma map_c_length: "map_c f xs s = (Ok ys, t) \<Longrightarrow> length ys = length xs"
  by (induction xs arbitrary: ys s) (auto simp: bnd_Ok_iff)

lemma page_sizes:
  "oks (\<lambda>found. length found \<le> nat l) (addresses_page E l k)"
  "oks (\<lambda>found. length found \<le> nat l) (withdrawals_page E l k)"
  "oks (\<lambda>found. length found \<le> nat l) (swaps_page E l k)"
  using page_length [of l k]
  by (auto simp: oks_def addresses_page_def withdrawals_page_def swaps_page_def run_iffs dest!: scan_rows_length)

lemma listing_sizes:
  "oks (\<lambda>(found, total). length found \<le> nat l) (addresses E l k)"
  "oks (\<lambda>found. length found \<le> nat l) (get_withdrawals E l k)"
  "oks (\<lambda>found. length found \<le> nat l) (get_swaps E l k)"
  using page_sizes [of l]
  by (auto simp: oks_def addresses_def get_withdrawals_def get_swaps_def run_iffs dest!: map_c_length) blast+

text \<open>What an endpoint may answer: the status codes, and the body that goes with them.\<close>

definition page_answer :: "nat \<Rightarrow> int \<Rightarrow> int \<Rightarrow> bool" where
  "page_answer n limit offset \<longleftrightarrow> 1 \<le> limit \<and> limit \<le> 200 \<and> 0 \<le> offset \<and> n \<le> nat limit"

definition good_body :: "endpoint \<Rightarrow> payload \<Rightarrow> bool" where
  "good_body ep b \<longleftrightarrow> (case b of
       BHealthy \<Rightarrow> ep = Healthz
     | BStatus st \<Rightarrow> ep = Readyz \<and> st_synced st \<or> ep = ShowStatus
     | BUnlocked u \<Rightarrow> ep = (if u then Unlock else Lock)
     | BAddresses found n l k \<Rightarrow> ep = ListAddresses \<and> page_answer (length found) l k
     | BAddress _ \<Rightarrow> ep = CreateAddress
     | BBalance _ \<Rightarrow> ep = ShowBalance
     | BDeposits _ _ \<Rightarrow> ep = ListDeposits
     | BWithdrawals found l k \<Rightarrow> ep = ListWithdrawals \<and> page_answer (length found) l k
     | BWithdrawal _ \<Rightarrow> ep = CreateWithdrawal \<or> (\<exists>rid. ep = ShowWithdrawal rid)
     | BSwapKeys _ \<Rightarrow> ep = CreateSwapKeys
     | BSwaps found l k \<Rightarrow> ep = ListSwaps \<and> page_answer (length found) l k
     | BSwap _ \<Rightarrow> ep = RegisterSwap \<or> (\<exists>sid. ep = ShowSwap sid)
     | BAction _ \<Rightarrow> (\<exists>sid. ep = FundSwap sid \<or> ep = ClaimSwap sid \<or> ep = RefundSwap sid)
     | _ \<Rightarrow> False)"

definition error_codes :: "endpoint \<Rightarrow> nat set" where
  "error_codes ep = (case ep of
       Healthz \<Rightarrow> {} | Readyz \<Rightarrow> {503} | ShowStatus \<Rightarrow> {500} | ShowBalance \<Rightarrow> {503}
     | Unlock \<Rightarrow> {400, 401, 415} | ShowWithdrawal _ \<Rightarrow> {404, 500} | ShowSwap _ \<Rightarrow> {404, 503}
     | ListAddresses \<Rightarrow> {400, 500} | ListDeposits \<Rightarrow> {400, 500} | ListWithdrawals \<Rightarrow> {400, 500}
     | ListSwaps \<Rightarrow> {400, 503} | _ \<Rightarrow> {400, 415})"

definition creates :: "endpoint \<Rightarrow> bool" where
  "creates ep = (case ep of CreateWithdrawal \<Rightarrow> True | CreateSwapKeys \<Rightarrow> True | RegisterSwap \<Rightarrow> True
     | FundSwap _ \<Rightarrow> True | ClaimSwap _ \<Rightarrow> True | RefundSwap _ \<Rightarrow> True | _ \<Rightarrow> False)"

definition error_body :: "payload \<Rightarrow> bool" where
  "error_body b = (case b of BError _ \<Rightarrow> True | BBadJSON \<Rightarrow> True | BBadNumber \<Rightarrow> True | _ \<Rightarrow> False)"

definition proper_answer :: "endpoint \<Rightarrow> response \<Rightarrow> bool" where
  "proper_answer ep a \<longleftrightarrow>
     (rs_status a = 200 \<or> rs_status a = 201 \<and> creates ep) \<and> good_body ep (rs_body a) \<or>
     rs_status a \<in> error_codes ep \<and> error_body (rs_body a) \<or>
     ep = Readyz \<and> rs_status a = 503 \<and> (\<exists>st. rs_body a = BStatus st \<and> \<not> st_synced st)"

lemma oks_body_answer:
  assumes "\<And>a. oks (proper_answer ep) (f a)" and "{400, 415} \<subseteq> error_codes ep"
  shows "oks (proper_answer ep) (with_body members zero rq f)"
  using assms
  by (intro oks_with_body) (auto dest!: decode_body_refusal simp: proper_answer_def write_error_def write_json_def error_body_def)

lemma oks_page_answer:
  assumes "\<And>l k. 1 \<le> l \<Longrightarrow> l \<le> 200 \<Longrightarrow> 0 \<le> k \<Longrightarrow> oks (proper_answer ep) (f l k)" and "400 \<in> error_codes ep"
  shows "oks (proper_answer ep) (with_page rq f)"
  using assms
  by (intro oks_with_page) (auto dest!: pagination_refusal simp: proper_answer_def write_json_def error_body_def)

lemma oks_serve_answer:
  assumes "oks Q call" and "\<And>a. Q a \<Longrightarrow> proper_answer ep (answer a)" and "bad \<in> error_codes ep"
  shows "oks (proper_answer ep) (serve E bad call answer)"
  using assms(1,2) by (rule oks_serve) (simp_all add: assms(3) proper_answer_def write_error_def write_json_def error_body_def)

lemmas answer_defs = proper_answer_def write_error_def write_json_def error_body_def error_codes_def creates_def
  created_status_def good_body_def page_answer_def

lemma dispatch_answers: "oks (proper_answer ep) (dispatch E ep rq)"
proof (cases ep)
  case Healthz
  then show ?thesis by (simp add: dispatch_def oks_def answer_defs)
next
  case Lock
  then show ?thesis
    by (simp add: dispatch_def api_lock_def) (intro oks_body_answer oks_bnd oks_ret; simp add: answer_defs)
next
  case ListAddresses
  then show ?thesis
    by (simp add: dispatch_def api_addresses_def) (intro oks_page_answer oks_serve_answer [OF listing_sizes(1)];
      auto simp: answer_defs)
next
  case ListWithdrawals
  then show ?thesis
    by (simp add: dispatch_def api_withdrawals_def) (intro oks_page_answer oks_serve_answer [OF listing_sizes(2)];
      auto simp: answer_defs)
next
  case ListSwaps
  then show ?thesis
    by (simp add: dispatch_def api_swaps_def) (intro oks_page_answer oks_serve_answer [OF listing_sizes(3)];
      auto simp: answer_defs)
qed (simp_all add: dispatch_def api_ready_def api_status_def api_unlock_def api_create_address_def api_balance_def
    api_deposits_def api_create_withdrawal_def api_withdrawal_def api_create_swap_keys_def api_register_swap_def
    api_swap_def api_fund_swap_def api_claim_swap_def api_refund_swap_def,
    (intro oks_body_answer oks_page_answer oks_serve_answer [OF oks_any];
      auto simp: answer_defs split: option.split)+)

section \<open>What a status code says about the state\<close>

lemma serve_Ok_iff:
  "serve E bad call answer s = (Ok a, t) \<longleftrightarrow>
    (\<exists>e. call s = (Err e, t) \<and> a = write_error bad (error_text (driver_text E) e)) \<or> (\<exists>x. call s = (Ok x, t) \<and> a = answer x)"
  by (auto simp: serve_def bnd_Ok_iff attempt_def split: prod.splits outcome.splits)

lemma with_body_Ok_iff:
  "with_body members zero rq f s = (Ok a, t) \<longleftrightarrow>
    decode_body members zero rq = Inl a \<and> t = s \<or> (\<exists>x. decode_body members zero rq = Inr x \<and> f x s = (Ok a, t))"
  by (auto simp: with_body_def split: sum.splits)

lemmas answer_runs = serve_Ok_iff with_body_Ok_iff

lemma unlock_failed: "unlock_wallet E pw s = (Err e, t) \<Longrightarrow> frame s t"
  by (cases "fst (read_key E (key_path s) pw (world s))")
    (auto simp: unlock_wallet_def ext_sum_def ext_app bnd_def wake_rebroadcast_def frame_def)

lemma command_refused:
  assumes "dispatch E ep rq s = (Ok a, t)" and "rs_status a \<in> {401, 404, 415, 500, 503}"
  shows "frame s t"
proof -
  have views: "evolves frame (dispatch E ep rq)" if "ep \<in> {Readyz, ShowStatus, ListAddresses, ShowBalance, ListDeposits,
      ListWithdrawals, ListSwaps} \<or> (\<exists>x. ep = ShowWithdrawal x \<or> ep = ShowSwap x)"
    using that frame_queries by (auto simp: dispatch_def)
  show ?thesis
    using assms views [THEN evolvesD, OF _ assms(1)]
    by (cases ep) (auto simp: dispatch_def api_unlock_def api_lock_def api_create_address_def api_create_withdrawal_def
      api_create_swap_keys_def api_register_swap_def api_fund_swap_def api_claim_swap_def api_refund_swap_def
      answer_runs write_json_def write_error_def created_status_def frame.le_refl bnd_Ok_iff split: prod.splits if_splits
      dest: unlock_failed)
qed

lemma proper_secured [simp]: "proper_answer ep (security_headers a) = proper_answer ep a"
  "rs_status (security_headers a) = rs_status a" "rs_body (security_headers a) = rs_body a"
  by (simp_all add: proper_answer_def security_headers_def)

lemma handle_Ok:
  assumes "handle E token rq s = (Ok a, t)" and "route (hq_method rq) (hq_path rq) = Inr ep"
    and "ep \<in> {Healthz, Readyz} \<or> authorised_request token rq"
  obtains b where "dispatch E ep rq s = (Ok b, t)" and "a = security_headers b"
proof -
  obtain r' where "dispatch E ep rq s = (r', t)"
    and "Ok a = (case r' of Ok b \<Rightarrow> Ok (security_headers b) | Err e \<Rightarrow> Err e | Panic \<Rightarrow> Panic | Hang \<Rightarrow> Hang)"
    using assms unfolding handle_run by auto
  then show ?thesis using that by (cases r') auto
qed

lemma route_codes: "route verb path = Inl code \<Longrightarrow> code \<in> {404, 405}"
  by (auto simp: route_def split: option.splits if_splits)

text \<open>Errors of the service become answers. The endpoints that add no amounts and read no history page
  by page have an answer for every request, whatever the database and the packages say.\<close>

lemma serve_never: "never (K - {Failure}) call \<Longrightarrow> never K (serve E bad call answer)"
  unfolding serve_def by (intro never_bnd never_attempt never_basic)

lemma body_page_never:
  "(\<And>x. never K (f x)) \<Longrightarrow> never K (with_body members zero rq f)"
  "(\<And>l k. never K (g l k)) \<Longrightarrow> never K (with_page rq g)"
  by (auto simp: with_body_def with_page_def intro: never_basic split: sum.split prod.split)

lemmas handler_defs = api_ready_def api_status_def api_unlock_def api_lock_def api_addresses_def api_create_address_def
  api_balance_def api_deposits_def api_create_withdrawal_def api_withdrawal_def api_withdrawals_def
  api_create_swap_keys_def api_register_swap_def api_swaps_def api_swap_def api_fund_swap_def api_claim_swap_def
  api_refund_swap_def

lemma never_nothing: "never {} m"
  by (simp add: never_def)

lemma dispatch_no_error: "never {Failure} (dispatch E ep rq)"
  by (cases ep; simp add: dispatch_def handler_defs;
    intro body_page_never serve_never never_basic never_bnd; simp add: never_nothing lock_wallet_def never_basic)

definition plain :: "endpoint \<Rightarrow> bool" where
  "plain ep \<longleftrightarrow> ep \<in> {Healthz, Readyz, ShowStatus, Unlock, Lock, ListAddresses, CreateAddress, ListWithdrawals, CreateSwapKeys} \<or>
     (\<exists>rid. ep = ShowWithdrawal rid)"

lemma plain_calls:
  "never {Crash, Endless} (get_status E)" "never {Crash, Endless} (unlock_wallet E pw)" "never {Crash, Endless} (addresses E l k)"
  "never {Crash, Endless} (new_deposit_address E ref)" "never {Crash, Endless} (get_withdrawals E l k)"
  "never {Crash, Endless} (get_withdrawal E rid)" "never {Crash, Endless} (create_swap_keys E sid)"
proof -
  have view: "never {Crash, Endless} (view_withdrawal E w)" for w
    unfolding view_withdrawal_def still_best_def by (intro never_intros; simp)
  have new: "never {Crash, Endless} (new_address E ref kind)" and reg: "never {Crash, Endless} (register_address E a)" for ref kind a
    unfolding new_address_def register_address_def master_seed_def next_index_def add_address_def Let_def
    by (intro never_intros; simp)+
  show "never {Crash, Endless} (get_status E)"
    unfolding get_status_def network_synced_def address_count_def unlocked_def by (intro never_intros; simp)
  show "never {Crash, Endless} (unlock_wallet E pw)"
    unfolding unlock_wallet_def wake_rebroadcast_def by (intro never_intros; simp)
  show "never {Crash, Endless} (addresses E l k)"
    unfolding addresses_def addresses_page_def address_count_def by (intro never_intros; simp)
  show "never {Crash, Endless} (new_deposit_address E ref)"
    unfolding new_deposit_address_def address_by_reference_def by (intro never_intros new reg; simp)
  show "never {Crash, Endless} (get_withdrawals E l k)"
    unfolding get_withdrawals_def withdrawals_page_def by (intro never_intros view; simp)
  show "never {Crash, Endless} (get_withdrawal E rid)"
    unfolding get_withdrawal_def withdrawal_get_def by (intro never_intros view; simp)
  show "never {Crash, Endless} (create_swap_keys E sid)"
    unfolding create_swap_keys_def swap_key_get_def master_seed_def add_swap_key_def Let_def by (intro never_intros; simp)
qed

lemma plain_answers: "plain ep \<Longrightarrow> never {Failure, Crash, Endless} (dispatch E ep rq)"
proof -
  have sub: "never {Crash, Endless} m \<Longrightarrow> never ({Failure, Crash, Endless} - {Failure}) m" for m :: "('x sys, 'c) m"
    by (simp add: insert_Diff_if)
  show "plain ep \<Longrightarrow> never {Failure, Crash, Endless} (dispatch E ep rq)"
    by (cases ep; simp add: plain_def dispatch_def handler_defs;
      intro body_page_never serve_never sub plain_calls never_basic never_bnd; simp add: lock_wallet_def never_basic)
qed

text \<open>
  C30. How a request is answered. What is not routed gets the router's own text with 404 or 405, and
  what comes without the token a 401, before anything is read. Every other request that is answered
  gets one of the status codes of its handler, with the endpoint's own record for a success and an
  error text for an error; and an answer 401, 404, 405, 415, 500 or 503 leaves the wallet, its keys and
  its journals exactly as they were. No error of the service is left without an answer. The endpoints
  that add no amounts and page through no history always answer; of the others a request can end
  without an answer, by a panic where amounts overflow or by a history without end.
\<close>

theorem errors_answered:
  assumes "handle E token rq s = (r, t)"
  shows "case route (hq_method rq) (hq_path rq) of
      Inl code \<Rightarrow> code \<in> {404, 405} \<and> t = s \<and> (\<exists>a msg. r = Ok a \<and> rs_status a = code \<and> rs_body a = BText msg)
    | Inr ep \<Rightarrow> if ep \<notin> {Healthz, Readyz} \<and> \<not> authorised_request token rq
        then t = s \<and> (\<exists>a. r = Ok a \<and> rs_status a = 401 \<and> rs_body a = BError ''authentication required'')
        else (case r of
            Ok a \<Rightarrow> proper_answer ep a \<and> (rs_status a \<in> {401, 404, 415, 500, 503} \<longrightarrow> frame s t)
          | Err _ \<Rightarrow> False | _ \<Rightarrow> \<not> plain ep)"
proof (cases "route (hq_method rq) (hq_path rq)")
  case (Inl code)
  with assms show ?thesis
    using route_codes [OF Inl] by (auto simp: handle_run router_answer_def security_headers_def)
next
  case (Inr ep)
  show ?thesis
  proof (cases "ep \<notin> {Healthz, Readyz} \<and> \<not> authorised_request token rq")
    case True
    with Inr assms show ?thesis by (auto simp: handle_run write_error_def write_json_def security_headers_def)
  next
    case False
    with assms Inr obtain r' where run: "dispatch E ep rq s = (r', t)"
      and r: "r = (case r' of Ok a \<Rightarrow> Ok (security_headers a) | Err e \<Rightarrow> Err e | Panic \<Rightarrow> Panic | Hang \<Rightarrow> Hang)"
      unfolding handle_run by auto
    have "case r of Ok a \<Rightarrow> proper_answer ep a \<and> (rs_status a \<in> {401, 404, 415, 500, 503} \<longrightarrow> frame s t)
          | Err _ \<Rightarrow> False | _ \<Rightarrow> \<not> plain ep"
    proof (cases r')
      case (Ok b)
      with run have "proper_answer ep b" by (simp add: oksD [OF dispatch_answers])
      with command_refused [of E ep rq s b t] run Ok r show ?thesis by auto
    next
      case (Err e)
      with neverD [OF dispatch_no_error, of E ep rq s] run show ?thesis by simp
    qed (use neverD [OF plain_answers, of ep E rq s] run r in auto)
    with Inr False show ?thesis by auto
  qed
qed

section \<open>201 and 200\<close>

text \<open>A command that answers \<open>created = false\<close> has only read.\<close>

definition idle :: "('x sys, 'a \<times> bool) m \<Rightarrow> bool" where
  "idle m \<longleftrightarrow> (\<forall>s v t. m s = (Ok (v, False), t) \<longrightarrow> frame s t)"

lemma idle_ret: "idle (ret x)" "idle (fail e)"
  by (simp_all add: idle_def frame.le_refl)

lemma idle_created: "oks snd m \<Longrightarrow> idle m"
  unfolding oks_def idle_def by fastforce

lemma idle_bnd:
  assumes "evolves frame m" and "\<And>a. idle (f a)"
  shows "idle (bnd m f)"
  unfolding idle_def
proof (intro allI impI)
  fix s v t
  assume "bnd m f s = (Ok (v, False), t)"
  then obtain a u where m: "m s = (Ok a, u)" and f: "f a u = (Ok (v, False), t)" by (auto simp: bnd_Ok_iff)
  have "frame s u" using assms(1) m by (rule evolvesD)
  moreover have "frame u t" using assms(2) [of a] f by (auto simp: idle_def)
  ultimately show "frame s t" by (rule frame.le_trans)
qed

lemma idle_option: "idle m \<Longrightarrow> (\<And>x. idle (f x)) \<Longrightarrow> idle (case r of None \<Rightarrow> m | Some x \<Rightarrow> f x)"
  by (simp split: option.split)

lemma journal_created: "oks snd (journal_swap_action E c)"
  unfolding journal_swap_action_def by (intro oks_intros) simp

lemma idle_commands:
  "idle (create_withdrawal E ctx w)" "idle (create_swap_keys E sid)" "idle (register_swap E r)"
  "idle (fund_swap E ctx sid f)" "idle (spend_swap E ctx sid kind q)"
proof -
  have fund: "idle (new_funding E ctx sid sw v fee unt)" for sw v fee unt
    unfolding new_funding_def by (intro idle_created oks_intros journal_created)
  have spend: "idle (new_spend E ctx sid kind sw secret oid fee)" for sw secret oid fee
    unfolding new_spend_def by (intro idle_created oks_intros journal_created)
  have sum: "evolves frame (case r of None \<Rightarrow> fail e | Some x \<Rightarrow> ret x)" for r :: "'c option" and e
    by (intro frame_intros)
  show "idle (create_withdrawal E ctx w)"
    unfolding create_withdrawal_def
    by (intro idle_bnd [OF frame.ev_guard] idle_bnd [OF frame.ev_sum] idle_bnd [OF frame_reads(8)] idle_option
      idle_bnd [OF view_withdrawal_frame] idle_ret idle_created oks_intros) simp
  show "idle (create_swap_keys E sid)"
    unfolding create_swap_keys_def
    by (intro idle_bnd [OF frame.ev_guard] idle_bnd [OF frame_swap_reads(1)] idle_option idle_ret idle_created oks_intros) simp
  show "idle (register_swap E r)"
    unfolding register_swap_def Let_def
    by (intro idle_bnd [OF frame.ev_guard] idle_bnd [OF frame.ev_sum] idle_bnd [OF frame_swap_reads(1)]
      idle_bnd [OF frame_ext] idle_bnd [OF frame_swap_reads(2)] idle_option
      idle_bnd [OF watch_swap_frame] idle_bnd [OF view_swap_frame] idle_ret idle_created oks_intros) simp
  show "idle (fund_swap E ctx sid f)"
    unfolding fund_swap_def
    by (intro idle_bnd [OF frame.ev_guard] idle_bnd [OF frame.ev_sum] idle_bnd [OF frame_swap_reads(2)]
      idle_bnd [OF frame_swap_reads(4)] idle_option idle_bnd [OF view_swap_action_frame] idle_ret fund)
  show "idle (spend_swap E ctx sid kind q)"
    unfolding spend_swap_def
    by (intro idle_bnd [OF frame.ev_guard] idle_bnd [OF frame.ev_sum] idle_bnd [OF frame_swap_reads(2)] idle_bnd [OF sum]
      idle_bnd [OF frame_swap_reads(4)] idle_option idle_bnd [OF view_swap_action_frame] idle_ret spend)
qed

text \<open>A command that answers \<open>created = true\<close> has added one record, with the key it was asked for.\<close>

lemma recorded_payment:
  assumes "create_withdrawal E ctx rq s = (Ok (v, True), t)"
  shows "\<exists>row. t_withdrawals (tables t) = t_withdrawals (tables s) @ [row] \<and> wr_request row = rq_id rq"
proof -
  obtain mst cs dest amnt fee s1 txn s2 w s3 where fr: "frame s s1"
    and build: "build_custody_transfer E ctx cs mst dest amnt fee s1 = (Ok txn, s2)"
    and w: "w_request w = rq_id rq" and j: "journalled E w s2 s3" and t: "frame (s3\<lparr>wake := True\<rparr>) t"
    by (rule create_withdrawal_new [OF assms])
  have "t_withdrawals (tables s2) = t_withdrawals (tables s)"
    using evolvesD [OF journals_build build] fr by (simp add: same_journals_def frame_def)
  then show ?thesis
    using t w by (auto simp: frame_def withdrawal_identity_def intro: journalled_row [OF j])
qed

lemma recorded_action:
  assumes "acted E c s2 u" and "frame (u\<lparr>wake := True\<rparr>) t" and "t_actions (tables s2) = t_actions (tables s)"
  shows "\<exists>row. t_actions (tables t) = t_actions (tables s) @ [row] \<and> action_key row = (c_swap c, c_kind c, c_output c)"
  using assms(2,3) by (auto simp: frame_def action_key_def action_identity_def intro: acted_row [OF assms(1)])

lemma recorded_spend:
  assumes laws: "currency_laws E" and run: "spend_swap E ctx sid kind rq s = (Ok (v, True), t)"
  shows "\<exists>row oid. t_actions (tables t) = t_actions (tables s) @ [row] \<and>
    parse_output_id E (trim_space (sq_output rq)) = Some oid \<and> action_key row = (sid, kind, output_id_string E oid)"
proof -
  obtain oid fee secret sw keys cs s1 txn destination rest s2 c u where oid: "parse_output_id E (trim_space (sq_output rq)) = Some oid"
    and fee: "default_fee E (sq_fee rq) = Inr fee" and f1: "frame s s1"
    and build: "build_swap_spend E ctx cs kind sw keys secret oid fee s1 = (Ok (txn, destination, rest), s2)"
    and c: "c_swap c = sid" "c_kind c = kind" "c_output c = output_id_string E oid"
    and act: "acted E c s2 u" "frame (u\<lparr>wake := True\<rparr>) t"
    by (rule spend_swap_new [OF run])
  have "t_actions (tables s2) = t_actions (tables s)"
    using f1 by (auto simp: same_journals_def frame_def intro: build_swap_spend_run [OF laws default_fee_bound [OF laws fee] build])
  from recorded_action [OF act this] c oid show ?thesis by metis
qed

lemma recorded_funding:
  assumes "fund_swap E ctx sid rq s = (Ok (v, True), t)"
  shows "\<exists>row. t_actions (tables t) = t_actions (tables s) @ [row] \<and> action_key row = (sid, ''fund'', [])"
proof -
  obtain mst cs and sw :: swap and amnt fee s1 txn s2 c u where f1: "frame s s1"
    and build: "build_custody_transfer E ctx cs mst (s_address sw) amnt fee s1 = (Ok txn, s2)"
    and c: "c_swap c = sid" "c_kind c = ''fund''" "c_output c = []"
    and act: "acted E c s2 u" "frame (u\<lparr>wake := True\<rparr>) t"
    by (rule fund_swap_new [OF assms])
  have "t_actions (tables s2) = t_actions (tables s)"
    using evolvesD [OF journals_build build] f1 by (simp add: same_journals_def frame_def)
  from recorded_action [OF act this] c show ?thesis by metis
qed

lemma recorded_keys:
  assumes "create_swap_keys E sid s = (Ok (v, True), t)"
  shows "\<exists>row. t_swap_keys (tables t) = t_swap_keys (tables s) @ [row] \<and> kr_swap row = sid"
proof -
  from assms obtain found s1 where get: "swap_key_get E sid s = (Ok found, s1)"
    and rest: "(case found of
       Some k \<Rightarrow> ret (view_swap_key E k, False)
     | None \<Rightarrow>
         bnd master_seed (\<lambda>mst.
         bnd (lift_sum (derive_swap_keys E mst sid)) (\<lambda>keys.
         bnd (ext (now E)) (\<lambda>t.
         let k = \<lparr>k_swap = sid, k_public = pk_public keys, k_created = t\<rparr> in
         bnd (add_swap_key E k) (\<lambda>_.
         ret (view_swap_key E k, True)))))) s1 = (Ok (v, True), t)"
    unfolding create_swap_keys_def by (elim bnd_OkE) (auto simp: guard_err_Ok_iff)
  have fr: "frame s s1" using frame_swap_reads(1) get by (rule evolvesD)
  from rest obtain keys :: private_keys where "add_swap_key E \<lparr>k_swap = sid, k_public = pk_public keys, k_created = fst (now E (world s1))\<rparr>
      (s1\<lparr>world := snd (now E (world s1))\<rparr>) = (Ok (), t)"
    by (cases found) (auto simp: bnd_Ok_iff master_seed_def lift_sum_Ok_iff Let_def ext_Ok_iff split: option.splits)
  then show ?thesis using fr
    by (auto simp: add_swap_key_def run_iffs Let_def frame_def)
qed

lemma recorded_swap:
  assumes "register_swap E rq s = (Ok (v, True), t)"
  shows "\<exists>row. t_swaps (tables t) = t_swaps (tables s) @ [row] \<and> sr_swap row = rg_swap rq"
proof -
  obtain sw h where "stands_for E rq s sw"
    and "frame (s\<lparr>tables := (tables s)\<lparr>t_swaps := t_swaps (tables s) @ [swap_row_of E sw h]\<rparr>\<rparr>) t"
    by (rule register_swap_new [OF assms])
  then show ?thesis by (auto simp: frame_def swap_row_of_def stands_for_def)
qed

text \<open>The record a successful command has added, by its key.\<close>

definition recorded :: "('x, 'z) env_scheme \<Rightarrow> endpoint \<Rightarrow> request \<Rightarrow> 'x sys \<Rightarrow> 'x sys \<Rightarrow> bool" where
  "recorded E ep rq s t \<longleftrightarrow> (case ep of
       CreateWithdrawal \<Rightarrow> (\<exists>w row. decode_body withdrawal_fields zero_withdrawal rq = Inr w \<and> wr_request row = rq_id w \<and>
         t_withdrawals (tables t) = t_withdrawals (tables s) @ [row])
     | CreateSwapKeys \<Rightarrow> (\<exists>sid row. decode_body (single_field ''swapID'') [] rq = Inr sid \<and> kr_swap row = sid \<and>
         t_swap_keys (tables t) = t_swap_keys (tables s) @ [row])
     | RegisterSwap \<Rightarrow> (\<exists>r row. decode_body register_fields zero_register rq = Inr r \<and> sr_swap row = rg_swap r \<and>
         t_swaps (tables t) = t_swaps (tables s) @ [row])
     | FundSwap sid \<Rightarrow> (\<exists>row. action_key row = (sid, ''fund'', []) \<and> t_actions (tables t) = t_actions (tables s) @ [row])
     | ClaimSwap sid \<Rightarrow> (\<exists>q oid row. decode_body spend_fields zero_spend rq = Inr q \<and>
         parse_output_id E (trim_space (sq_output q)) = Some oid \<and>
         action_key row = (sid, ''claim'', output_id_string E oid) \<and> t_actions (tables t) = t_actions (tables s) @ [row])
     | RefundSwap sid \<Rightarrow> (\<exists>q oid row. decode_body spend_fields zero_spend rq = Inr q \<and>
         parse_output_id E (trim_space (sq_output q)) = Some oid \<and>
         action_key row = (sid, ''refund'', output_id_string E oid) \<and> t_actions (tables t) = t_actions (tables s) @ [row])
     | _ \<Rightarrow> False)"

lemmas command_defs = api_create_withdrawal_def api_create_swap_keys_def api_register_swap_def api_fund_swap_def
  api_claim_swap_def api_refund_swap_def claim_swap_def refund_swap_def

lemma command_run:
  assumes run: "with_body members zero rq (\<lambda>x. serve E 400 (call x) (\<lambda>(v, c). write_json (created_status c) (out v))) s = (Ok a, t)"
    and idle: "\<And>x. idle (call x)"
    and new: "\<And>x v. decode_body members zero rq = Inr x \<Longrightarrow> call x s = (Ok (v, True), t) \<Longrightarrow> R"
  shows "(rs_status a = 201 \<longrightarrow> R) \<and> (rs_status a = 200 \<longrightarrow> frame s t)"
proof (cases "decode_body members zero rq")
  case (Inl r)
  with run show ?thesis using decode_body_refusal [OF Inl]
    by (auto simp: with_body_def write_error_def write_json_def)
next
  case (Inr x)
  have "frame s t" if "call x s = (Ok (v, False), t)" for v using idle [of x] that by (simp add: idle_def)
  with run Inr new [OF Inr] show ?thesis
    by (auto simp: answer_runs write_json_def write_error_def created_status_def split: if_splits)
qed

lemma dispatch_created:
  assumes laws: "currency_laws E" and ep: "creates ep" and run: "dispatch E ep rq s = (Ok a, t)"
  shows "(rs_status a = 201 \<longrightarrow> recorded E ep rq s t) \<and> (rs_status a = 200 \<longrightarrow> frame s t)"
  using ep run recorded_spend [OF laws, of RequestCtx]
  by (cases ep)
    (simp_all add: creates_def dispatch_def command_defs recorded_def,
     (erule command_run [OF _ idle_commands(1)] command_run [OF _ idle_commands(2)] command_run [OF _ idle_commands(3)]
        command_run [OF _ idle_commands(4)] command_run [OF _ idle_commands(5)];
      fastforce dest: recorded_payment recorded_keys recorded_swap recorded_funding)+)

text \<open>
  C31. What the status of a command tells: 201 is answered only when the journal or table of the endpoint
  has got exactly one record more, under the key the request named, and 200 only when nothing has
  changed, so that a repeated request is told apart from a new one. An error tells nothing about the
  record: the view that is answered is read after it was stored, and when that fails the answer is 400.
\<close>

theorem created_told:
  assumes "currency_laws E" and "handle E token rq s = (Ok a, t)"
    and "route (hq_method rq) (hq_path rq) = Inr ep" and "creates ep"
  shows "(rs_status a = 201 \<longrightarrow> recorded E ep rq s t) \<and> (rs_status a = 200 \<longrightarrow> frame s t)"
proof (cases "authorised_request token rq")
  case True
  with assms(2,3) obtain b where "dispatch E ep rq s = (Ok b, t)" and "a = security_headers b"
    by (blast elim: handle_Ok)
  with dispatch_created [OF assms(1,4)] show ?thesis by simp
next
  case False
  have "ep \<notin> {Healthz, Readyz}" using assms(4) by (auto simp: creates_def)
  with False assms(2,3) show ?thesis by (auto simp: handle_run write_error_def write_json_def)
qed

section \<open>Listings\<close>











end
