(* ===== verification/Ledger.thy ===== *)
theory Ledger
  imports Api_Facts
begin

text \<open>
  The abstract specification of the daemon: a ledger of what it has promised. Addresses are issued
  once, a payment, a session, a contract and an action are entered once under a fresh key, and no
  entry is ever changed. The daemon, run for any time under any requests, turns of its loop,
  restarts and changes of the world outside, refines it.
\<close>

section \<open>The life of the daemon\<close>

text \<open>
  A request is answered, the background loop takes a turn, the world outside moves on, or the
  process is started again: the store stays, the seed does not, and the loop is woken.
\<close>

inductive step :: "('x, 'z) env_scheme \<Rightarrow> string \<Rightarrow> 'x sys \<Rightarrow> 'x sys \<Rightarrow> bool" for E token where
  request: "handle E token rq s = (r, t) \<Longrightarrow> step E token s t"
| turn: "rebroadcast_turn E timer s = (r, t) \<Longrightarrow> step E token s t"
| outside: "step E token s (s\<lparr>world := w\<rparr>)"
| restart: "step E token s (s\<lparr>world := w, mst_seed := None, the_node := n, key_path := path, wake := True\<rparr>)"

abbreviation lifetime :: "('x, 'z) env_scheme \<Rightarrow> string \<Rightarrow> 'x sys \<Rightarrow> 'x sys \<Rightarrow> bool" where
  "lifetime E token \<equiv> (step E token)\<^sup>*\<^sup>*"

inductive_cases stepE [elim]: "step E token s t"

text \<open>Whatever happens, the tables change by the steps of theory Moves only, with the seed of the time.\<close>

lemma step_moves:
  assumes laws: "currency_laws E" and st: "step E token s t"
  obtains K u where "moves E K s u" and "tables t = tables u"
  using st
proof cases
  case (request rq r)
  from handle_effect [OF laws request] show ?thesis
  proof (cases "route (hq_method rq) (hq_path rq)")
    case (Inr ep)
    with handle_effect [OF laws request]
    have "t = s \<or> request_change E ep rq s t" by (auto split: if_splits)
    then show ?thesis
      by (cases ep) (auto simp: request_change_def frame_def intro: that [OF mv.le_refl] that)
  qed (auto intro: that [OF mv.le_refl])
next
  case (turn timer r)
  then show ?thesis using evolvesD [OF mv_rebroadcast_turn [OF laws]] that by blast
qed (auto intro: that [OF mv.le_refl])

text \<open>A relation between tables that every move keeps holds of a whole life.\<close>

lemma lifetime_tables:
  assumes laws: "currency_laws E" and run: "lifetime E token s t"
    and refl: "\<And>a. R a a" and trans: "\<And>a b c. R a b \<Longrightarrow> R b c \<Longrightarrow> R a c"
    and move: "\<And>K s t. move E K s t \<Longrightarrow> R (tables s) (tables t)"
  shows "R (tables s) (tables t)"
  using run
proof (induction rule: rtranclp_induct)
  case (step t u)
  obtain K v where mv: "moves E K t v" and u: "tables u = tables v" by (rule step_moves [OF laws step(2)])
  have "R (tables t) (tables v)"
    using mv by (rule moves_invariant) (auto intro: refl trans move)
  with step(3) u trans show ?case by simp
qed (rule refl)

section \<open>The ledger\<close>

record ledger =
  lg_children :: "int \<rightharpoonup> string \<times> bytes \<times> string option \<times> string" \<comment> \<open>address, keys, reference, kind\<close>
  lg_payments :: "string \<rightharpoonup> string \<times> string \<times> string \<times> string" \<comment> \<open>kind, destination, amount, fee\<close>
  lg_sessions :: "string \<rightharpoonup> bytes"
  lg_contracts :: "string \<rightharpoonup> string \<times> (bytes \<times> bytes \<times> bytes \<times> int) \<times> string" \<comment> \<open>role, terms, address\<close>
  lg_actions :: "string \<times> string \<times> string \<rightharpoonup> string \<times> string \<times> string" \<comment> \<open>destination, amount, fee\<close>

text \<open>The specification: entries are added under fresh keys, in the order the business needs them.\<close>

inductive entry :: "ledger \<Rightarrow> ledger \<Rightarrow> bool" where
  issue: "\<forall>j\<in>dom (lg_children l). j < i \<Longrightarrow> 0 \<le> i \<Longrightarrow> \<forall>c\<in>ran (lg_children l). fst c \<noteq> addr \<Longrightarrow>
     kind \<in> {''deposit'', ''change''} \<Longrightarrow> ref \<noteq> None \<longrightarrow> (\<forall>c\<in>ran (lg_children l). fst (snd (snd c)) \<noteq> ref) \<Longrightarrow>
     entry l (l\<lparr>lg_children := (lg_children l)(i \<mapsto> (addr, keys, ref, kind))\<rparr>)"
| pay: "rid \<notin> dom (lg_payments l) \<Longrightarrow> kind \<in> {''withdrawal'', ''defend''} \<Longrightarrow>
     entry l (l\<lparr>lg_payments := (lg_payments l)(rid \<mapsto> (kind, dest, amnt, fee))\<rparr>)"
| session: "sid \<notin> dom (lg_sessions l) \<Longrightarrow>
     entry l (l\<lparr>lg_sessions := (lg_sessions l)(sid \<mapsto> keys)\<rparr>)"
| contract: "sid \<in> dom (lg_sessions l) \<Longrightarrow> sid \<notin> dom (lg_contracts l) \<Longrightarrow> role \<in> {''recipient'', ''refund''} \<Longrightarrow>
     0 < height \<Longrightarrow> \<forall>c\<in>ran (lg_contracts l). snd (snd c) \<noteq> addr \<Longrightarrow>
     entry l (l\<lparr>lg_contracts := (lg_contracts l)(sid \<mapsto> (role, (rec, ref, hash, height), addr))\<rparr>)"
| action: "sid \<in> dom (lg_contracts l) \<Longrightarrow> (sid, kind, outp) \<notin> dom (lg_actions l) \<Longrightarrow>
     kind \<in> {''fund'', ''claim'', ''refund''} \<Longrightarrow>
     entry l (l\<lparr>lg_actions := (lg_actions l)((sid, kind, outp) \<mapsto> (dest, amnt, fee))\<rparr>)"

abbreviation entries :: "ledger \<Rightarrow> ledger \<Rightarrow> bool" where
  "entries \<equiv> entry\<^sup>*\<^sup>*"

definition ledger_le :: "ledger \<Rightarrow> ledger \<Rightarrow> bool" where
  "ledger_le a b \<longleftrightarrow> lg_children a \<subseteq>\<^sub>m lg_children b \<and> lg_payments a \<subseteq>\<^sub>m lg_payments b \<and>
     lg_sessions a \<subseteq>\<^sub>m lg_sessions b \<and> lg_contracts a \<subseteq>\<^sub>m lg_contracts b \<and> lg_actions a \<subseteq>\<^sub>m lg_actions b"

lemma map_le_fresh: "k \<notin> dom m \<Longrightarrow> m \<subseteq>\<^sub>m m(k \<mapsto> v)"
  by (auto simp: map_le_def)

lemma entry_le: "entry a b \<Longrightarrow> ledger_le a b"
  by (induction rule: entry.induct) (auto simp: ledger_le_def intro!: map_le_fresh)

lemma entries_le: "entries a b \<Longrightarrow> ledger_le a b"
  by (induction rule: rtranclp_induct) (auto simp: ledger_le_def intro: map_le_trans dest!: entry_le)

section \<open>The abstraction\<close>

context primary_key begin

text \<open>The table as a map from keys to the lasting columns.\<close>

definition index :: "('r \<Rightarrow> 'v) \<Rightarrow> 'r list \<Rightarrow> 'k \<rightharpoonup> 'v" where
  "index ident rows = map_of (map (\<lambda>r. (key r, ident r)) rows)"

lemma index_lookup: "index ident rows k = map_option ident (lookup k rows)"
  by (induction rows) (auto simp: index_def lookup_def)

lemma index_dom: "dom (index ident rows) = key ` set rows"
  by (simp add: index_def dom_map_of_conv_image_fst image_comp comp_def)

lemma index_ran: "x \<in> ran (index ident rows) \<Longrightarrow> \<exists>r\<in>set rows. x = ident r"
  by (auto simp: index_lookup ran_def dest: lookup_Some)

lemma index_inserted: "admits rows r \<Longrightarrow> index ident (rows @ [r]) = (index ident rows)(key r \<mapsto> ident r)"
  by (auto simp: index_lookup fun_eq_iff lookup_inserted lookup_other)

lemma index_update: "(\<And>r. key (f r) = key r) \<Longrightarrow> (\<And>r. ident (f r) = ident r) \<Longrightarrow>
    index ident (update_where p f rows) = index ident rows"
  by (induction rows) (auto simp: index_def update_where_def)

end

definition child_columns :: "address_row \<Rightarrow> string \<times> bytes \<times> string option \<times> string" where
  "child_columns r = (ar_address r, ar_public r, ar_reference r, ar_kind r)"

definition payment_columns :: "withdrawal_row \<Rightarrow> string \<times> string \<times> string \<times> string" where
  "payment_columns r = (wr_kind r, wr_destination r, wr_amount r, wr_fee r)"

definition contract_columns :: "swap_row \<Rightarrow> string \<times> (bytes \<times> bytes \<times> bytes \<times> int) \<times> string" where
  "contract_columns r = (sr_role r, (sr_recipient r, sr_refund r, sr_hash r, sr_refund_height r), sr_address r)"

definition action_columns :: "action_row \<Rightarrow> string \<times> string \<times> string" where
  "action_columns r = (cr_destination r, cr_amount r, cr_fee r)"

definition ledger_of :: "store \<Rightarrow> ledger" where
  "ledger_of st = \<lparr>lg_children = addr_index.index child_columns (t_addresses st),
     lg_payments = wtab.index payment_columns (t_withdrawals st),
     lg_sessions = key_tab.index kr_public (t_swap_keys st),
     lg_contracts = swap_tab.index contract_columns (t_swaps st),
     lg_actions = action_tab.index action_columns (t_actions st)\<rparr>"

section \<open>Refinement\<close>

lemma address_rows_columns:
  assumes "address_constraints rows r"
  shows "\<forall>c\<in>ran (addr_index.index child_columns rows). fst c \<noteq> ar_address r" and "ar_kind r \<in> {''deposit'', ''change''}"
    and "ar_reference r \<noteq> None \<longrightarrow> (\<forall>c\<in>ran (addr_index.index child_columns rows). fst (snd (snd c)) \<noteq> ar_reference r)"
  using assms by (auto simp: address_constraints_def child_columns_def rev_image_eqI dest!: addr_index.index_ran)

lemma next_value_above: "r \<in> set rows \<Longrightarrow> ar_index r < next_value rows"
  using Max_ge [of "ar_index ` set rows" "ar_index r"] by (auto simp: next_value_def)

lemma edit_columns:
  "payment_edit E f \<Longrightarrow> wr_request (f r) = wr_request r \<and> payment_columns (f r) = payment_columns r"
  "action_edit E g \<Longrightarrow> action_key (g q) = action_key q \<and> action_columns (g q) = action_columns q"
  by (auto simp: payment_edit_def action_edit_def payment_columns_def action_columns_def action_key_def)

lemma move_entries:
  assumes "move E K s t"
  shows "entries (ledger_of (tables s)) (ledger_of (tables t))"
  using assms
proof cases
  case (issue ref kind a)
  then obtain keys where idx: "uint (a_index a) = next_value (t_addresses (tables s))"
    and con: "address_constraints (t_addresses (tables s)) (address_row_of E a (uint (a_index a)))"
    by (auto simp: issued_def)
  let ?r = "address_row_of E a (uint (a_index a))" and ?l = "ledger_of (tables s)"
  have "entry ?l (?l\<lparr>lg_children := (lg_children ?l)(ar_index ?r \<mapsto> (ar_address ?r, ar_public ?r, ar_reference ?r, ar_kind ?r))\<rparr>)"
  proof (rule entry.issue)
    show "\<forall>j\<in>dom (lg_children ?l). j < ar_index ?r"
      using idx by (auto simp: ledger_of_def addr_index.index_dom address_row_of_def dest: next_value_above)
    show "0 \<le> ar_index ?r" by (simp add: address_row_of_def)
  qed (use address_rows_columns [OF con] in \<open>simp_all add: ledger_of_def\<close>)
  then show ?thesis
    using addr_index.index_inserted [OF con, of child_columns] issue(1)
    by (simp add: ledger_of_def with_address_def child_columns_def r_into_rtranclp)
next
  case (pay w raw h)
  let ?r = "withdrawal_row_of E w raw h" and ?l = "ledger_of (tables s)"
  have "entry ?l (?l\<lparr>lg_payments := (lg_payments ?l)(wr_request ?r \<mapsto> (wr_kind ?r, wr_destination ?r, wr_amount ?r, wr_fee ?r))\<rparr>)"
    using pay(8) by (intro entry.pay) (auto simp: ledger_of_def wtab.index_dom withdrawal_admits_def withdrawal_checks_def)
  then show ?thesis
    using wtab.index_inserted [OF pay(8), of payment_columns] pay(1)
    by (simp add: ledger_of_def with_payment_def payment_columns_def r_into_rtranclp)
next
  case (session sid mst keys row)
  let ?l = "ledger_of (tables s)"
  have "entry ?l (?l\<lparr>lg_sessions := (lg_sessions ?l)(kr_swap row \<mapsto> kr_public row)\<rparr>)"
    using session(7) by (intro entry.session) (auto simp: ledger_of_def key_tab.index_dom key_constraints_def)
  then show ?thesis
    using key_tab.index_inserted [OF session(7), of kr_public] session(1)
    by (simp add: ledger_of_def with_key_def r_into_rtranclp)
next
  case (bind sw h)
  let ?r = "swap_row_of E sw h" and ?l = "ledger_of (tables s)"
  have "entry ?l (?l\<lparr>lg_contracts := (lg_contracts ?l)(sr_swap ?r \<mapsto>
      (sr_role ?r, (sr_recipient ?r, sr_refund ?r, sr_hash ?r, sr_refund_height ?r), sr_address ?r))\<rparr>)"
    using bind(7) by (intro entry.contract)
      (auto simp: ledger_of_def key_tab.index_dom swap_tab.index_dom swap_constraints_def contract_columns_def rev_image_eqI
        dest!: swap_tab.index_ran)
  then show ?thesis
    using swap_tab.index_inserted [OF bind(7), of contract_columns] bind(1)
    by (simp add: ledger_of_def with_swap_def contract_columns_def r_into_rtranclp)
next
  case (act c raw h)
  let ?r = "action_row_of E c raw h" and ?l = "ledger_of (tables s)"
  have "entry ?l (?l\<lparr>lg_actions := (lg_actions ?l)((cr_swap ?r, cr_kind ?r, cr_output ?r) \<mapsto>
      (cr_destination ?r, cr_amount ?r, cr_fee ?r))\<rparr>)"
    using act(8) by (intro entry.action)
      (auto simp: ledger_of_def action_tab.index_dom swap_tab.index_dom action_constraints_def action_checks_def action_key_def)
  then show ?thesis
    using action_tab.index_inserted [OF act(8), of action_columns] act(1)
    by (simp add: ledger_of_def with_action_def action_columns_def action_key_def r_into_rtranclp)
next
  case (resend rid f)
  then show ?thesis
    using wtab.index_update [of f payment_columns] edit_columns(1) [OF resend(3)]
    by (simp add: ledger_of_def edit_payments_def)
next
  case (retry aid f)
  then show ?thesis
    using action_tab.index_update [of f action_columns] edit_columns(2) [OF retry(3)]
    by (simp add: ledger_of_def edit_actions_def)
qed (simp_all add: frame_def)

text \<open>
  C25. The daemon refines the ledger: whatever requests it is sent, with whatever timing, errors of
  the database and the network, restarts and movements of the chain, its tables go through steps of
  the abstract ledger only - a fresh address under the next child index, a payment, session,
  contract or action under a fresh key, a contract only after its session and an action only after
  its contract.
\<close>

theorem daemon_refines_ledger:
  assumes "currency_laws E" and "lifetime E token s t"
  shows "entries (ledger_of (tables s)) (ledger_of (tables t))"
  by (rule lifetime_tables [OF assms, where R = "\<lambda>a b. entries (ledger_of a) (ledger_of b)"])
    (auto intro: move_entries)

section \<open>Rows are kept\<close>

text \<open>The keys of the tables are unique.\<close>

definition keyed :: "store \<Rightarrow> bool" where
  "keyed st \<longleftrightarrow> distinct (map ar_index (t_addresses st)) \<and> distinct (map wr_request (t_withdrawals st)) \<and>
     distinct (map kr_swap (t_swap_keys st)) \<and> distinct (map sr_swap (t_swaps st)) \<and>
     distinct (map action_key (t_actions st))"

lemma move_keyed:
  assumes "move E K s t" and "keyed (tables s)"
  shows "keyed (tables t)"
  using assms
proof (cases rule: move.cases)
  case (issue ref kind a)
  then show ?thesis
    using assms(2) addr_index.distinct_insert [of "t_addresses (tables s)" "address_row_of E a (uint (a_index a))"]
    by (auto simp: keyed_def with_address_def issued_def)
next
  case (pay w raw h)
  with assms(2) show ?thesis
    using wtab.distinct_insert [OF _ pay(8)] by (simp add: keyed_def with_payment_def)
next
  case (session sid mst keys row)
  with assms(2) show ?thesis
    using key_tab.distinct_insert [OF _ session(7)] by (simp add: keyed_def with_key_def)
next
  case (bind sw h)
  with assms(2) show ?thesis
    using swap_tab.distinct_insert [OF _ bind(7)] by (simp add: keyed_def with_swap_def)
next
  case (act c raw h)
  with assms(2) show ?thesis
    using action_tab.distinct_insert [OF _ act(8)] by (simp add: keyed_def with_action_def)
next
  case (resend rid f)
  with assms(2) show ?thesis
    using map_update_where [of wr_request f] edit_columns(1) [OF resend(3)] by (simp add: keyed_def edit_payments_def)
next
  case (retry aid f)
  with assms(2) show ?thesis
    using map_update_where [of action_key f] edit_columns(2) [OF retry(3)] by (simp add: keyed_def edit_actions_def)
qed (simp_all add: frame_def keyed_def)

context primary_key begin

text \<open>Where the keys are unique, the index is the table.\<close>

lemma index_row:
  assumes "distinct (map key rows)" and "r \<in> set rows"
  shows "index ident rows (key r) = Some (ident r)"
  using lookup_distinct [OF assms] by (simp add: index_lookup)

lemma index_unique:
  assumes "distinct (map key rows)" and "index ident rows k = Some v"
  shows "\<exists>!r. r \<in> set rows \<and> key r = k \<and> ident r = v"
proof -
  from assms(2) obtain r where "lookup k rows = Some r" and "ident r = v" by (auto simp: index_lookup)
  then have "r \<in> set rows \<and> key r = k \<and> ident r = v" by (auto dest: lookup_Some)
  with lookup_distinct [OF assms(1)] show ?thesis by (metis option.sel)
qed

lemma index_kept:
  assumes "distinct (map key rows)" and "distinct (map key rows')" and "index ident rows \<subseteq>\<^sub>m index ident rows'" and "r \<in> set rows"
  shows "\<exists>!q. q \<in> set rows' \<and> key q = key r \<and> ident q = ident r"
proof (rule index_unique [OF assms(2)])
  show "index ident rows' (key r) = Some (ident r)"
    using index_row [OF assms(1,4), of ident] assms(3) by (metis domI map_le_def)
qed

end

text \<open>The rows of an earlier store in a later one: found exactly once, with their lasting columns.\<close>

definition rows_kept :: "store \<Rightarrow> store \<Rightarrow> bool" where
  "rows_kept a b \<longleftrightarrow>
    (\<forall>r\<in>set (t_withdrawals a). \<exists>!q. q \<in> set (t_withdrawals b) \<and> wr_request q = wr_request r \<and>
       payment_columns q = payment_columns r) \<and>
    (\<forall>r\<in>set (t_actions a). \<exists>!q. q \<in> set (t_actions b) \<and> action_key q = action_key r \<and>
       action_columns q = action_columns r) \<and>
    (\<forall>r\<in>set (t_swap_keys a). \<exists>!q. q \<in> set (t_swap_keys b) \<and> kr_swap q = kr_swap r \<and> kr_public q = kr_public r) \<and>
    (\<forall>r\<in>set (t_swaps a). \<exists>!q. q \<in> set (t_swaps b) \<and> sr_swap q = sr_swap r \<and>
       contract_columns q = contract_columns r) \<and>
    (\<forall>r\<in>set (t_addresses a). \<exists>!q. q \<in> set (t_addresses b) \<and> ar_index q = ar_index r \<and>
       child_columns q = child_columns r)"

lemma ledger_rows:
  "keyed a \<Longrightarrow> keyed b \<Longrightarrow> ledger_le (ledger_of a) (ledger_of b) \<Longrightarrow> rows_kept a b"
  unfolding keyed_def ledger_le_def ledger_of_def ledger.simps rows_kept_def
  by (intro conjI ballI wtab.index_kept action_tab.index_kept key_tab.index_kept swap_tab.index_kept addr_index.index_kept)
    simp_all

text \<open>Both together are kept by every step, and add up.\<close>

definition ledger_grows :: "store \<Rightarrow> store \<Rightarrow> bool" where
  "ledger_grows a b \<longleftrightarrow> (keyed a \<longrightarrow> keyed b) \<and> ledger_le (ledger_of a) (ledger_of b)"

lemma ledger_grows_refl: "ledger_grows a a"
  by (simp add: ledger_grows_def ledger_le_def)

lemma ledger_grows_trans: "ledger_grows a b \<Longrightarrow> ledger_grows b c \<Longrightarrow> ledger_grows a c"
  by (auto simp: ledger_grows_def ledger_le_def intro: map_le_trans)

lemma move_grows: "move E K s t \<Longrightarrow> ledger_grows (tables s) (tables t)"
  using entries_le [OF move_entries] move_keyed by (auto simp: ledger_grows_def)

text \<open>
  C26. What was journalled stays: in any later state of the daemon every payment, every swap action,
  every session, every contract and every issued address of an earlier state is found exactly once,
  under the same key and with the same destination, amount and fee, the same terms, or the same keys;
  no request identifier, swap or output is ever used twice.
\<close>

theorem promises_kept:
  assumes laws: "currency_laws E" and run: "lifetime E token s t" and keys: "keyed (tables s)"
  shows "keyed (tables t) \<and> rows_kept (tables s) (tables t)"
proof -
  have "ledger_grows (tables s) (tables t)"
    by (rule lifetime_tables [OF laws run]) (auto intro: ledger_grows_refl ledger_grows_trans move_grows)
  with keys ledger_rows show ?thesis unfolding ledger_grows_def by blast
qed

section \<open>A locked wallet\<close>

definition same_promises :: "store \<Rightarrow> store \<Rightarrow> bool" where
  "same_promises a b \<longleftrightarrow> lg_children (ledger_of b) = lg_children (ledger_of a) \<and>
     lg_payments (ledger_of b) = lg_payments (ledger_of a) \<and> lg_sessions (ledger_of b) = lg_sessions (ledger_of a) \<and>
     lg_actions (ledger_of b) = lg_actions (ledger_of a)"

lemma locked_move:
  assumes "move E K s t" and "mst_seed s = None"
  shows "same_promises (tables s) (tables t)"
  using assms
proof (cases rule: move.cases)
  case (resend rid f)
  then show ?thesis
    using wtab.index_update [of f payment_columns] edit_columns(1) [OF resend(3)]
    by (simp add: same_promises_def ledger_of_def edit_payments_def)
next
  case (retry aid f)
  then show ?thesis
    using action_tab.index_update [of f action_columns] edit_columns(2) [OF retry(3)]
    by (simp add: same_promises_def ledger_of_def edit_actions_def)
qed (use assms(2) in \<open>auto simp: same_promises_def ledger_of_def frame_def with_swap_def issued_def\<close>)

text \<open>
  C27. A locked wallet promises nothing: no request (an unlock included), no turn of the loop and no
  restart issues an address, journals a payment, opens a session or enters a swap action while the
  wallet is locked; only a contract between session keys that exist already can be registered.
\<close>

theorem locked_promises_nothing:
  assumes "currency_laws E" and "step E token s t" and locked: "mst_seed s = None"
  shows "same_promises (tables s) (tables t)"
proof -
  obtain K u where mv: "moves E K s u" and t: "tables t = tables u"
    by (rule step_moves [OF assms(1,2)])
  from mv have "mst_seed u = None \<and> same_promises (tables s) (tables u)"
  proof (rule moves_invariant)
    fix u v assume u: "mst_seed u = None \<and> same_promises (tables s) (tables u)" and mv: "move E K u v"
    from locked_move [OF mv] move_seed [OF mv] u
    show "mst_seed v = None \<and> same_promises (tables s) (tables v)" by (simp add: same_promises_def)
  qed (simp add: locked same_promises_def)
  with t show ?thesis by simp
qed

end
