(* ===== verification/Typed_Store.thy ===== *)
theory Typed_Store
  imports Ledger
begin

text \<open>
  What the daemon stores it can read back, but for transactions of more than 4 MiB: the type of a
  well-formed row is that its scan succeeds, and every step of the daemon keeps all rows of all five
  tables well-formed.
\<close>

section \<open>Well-formed rows\<close>

text \<open>The columns both journals share: basis, confirmation, transaction, destination, amount and fee.\<close>

definition journal_ok :: "('x, 'z) env_scheme \<Rightarrow> int \<Rightarrow> bytes \<Rightarrow> int option \<Rightarrow> bytes option \<Rightarrow> bytes \<Rightarrow> string \<Rightarrow> string \<Rightarrow> string \<Rightarrow> bool" where
  "journal_ok E h i ch ci raw dest amnt fee \<longleftrightarrow>
     0 \<le> h \<and> h < 2 ^ 63 \<and> length i = 32 \<and> (ch = None) = (ci = None) \<and>
     (case ch of None \<Rightarrow> True | Some v \<Rightarrow> 0 \<le> v) \<and> (case ci of None \<Rightarrow> True | Some b \<Rightarrow> length b = 32) \<and>
     (\<exists>t. encode_txn E t = Inr raw) \<and> reads (parse_qaddr E dest) \<and> reads (cur_parse E amnt) \<and> reads (cur_parse E fee)"

definition payment_ok :: "('x, 'z) env_scheme \<Rightarrow> withdrawal_row \<Rightarrow> bool" where
  "payment_ok E r \<longleftrightarrow> journal_ok E (wr_basis_height r) (wr_basis_id r) (wr_conf_height r) (wr_conf_id r) (wr_blob r)
     (wr_destination r) (wr_amount r) (wr_fee r)"

definition action_ok :: "('x, 'z) env_scheme \<Rightarrow> action_row \<Rightarrow> bool" where
  "action_ok E r \<longleftrightarrow> journal_ok E (cr_basis_height r) (cr_basis_id r) (cr_conf_height r) (cr_conf_id r) (cr_blob r)
     (cr_destination r) (cr_amount r) (cr_fee r)"

definition typed :: "('x, 'z) env_scheme \<Rightarrow> store \<Rightarrow> bool" where
  "typed E st \<longleftrightarrow>
     (\<forall>r\<in>set (t_addresses st). reads (decode_address E r)) \<and> (\<forall>r\<in>set (t_withdrawals st). payment_ok E r) \<and>
     (\<forall>r\<in>set (t_swap_keys st). reads (scan_swap_key E r)) \<and> (\<forall>r\<in>set (t_swaps st). reads (scan_swap E r)) \<and>
     (\<forall>r\<in>set (t_actions st). action_ok E r)"

text \<open>What the readers of the store do with a row; \<open>decodeTransaction\<close> refuses more than 4 MiB, a bound
  that the writers do not check.\<close>

definition small :: "bytes \<Rightarrow> bool" where
  "small raw \<longleftrightarrow> length raw \<le> 4194304"

definition readable :: "('x, 'z) env_scheme \<Rightarrow> store \<Rightarrow> bool" where
  "readable E st \<longleftrightarrow>
     (\<forall>r\<in>set (t_addresses st). reads (decode_address E r)) \<and>
     (\<forall>r\<in>set (t_withdrawals st). reads (scan_withdrawal E r) \<longleftrightarrow> small (wr_blob r)) \<and>
     (\<forall>r\<in>set (t_swap_keys st). reads (scan_swap_key E r)) \<and> (\<forall>r\<in>set (t_swaps st). reads (scan_swap E r)) \<and>
     (\<forall>r\<in>set (t_actions st). reads (scan_swap_action E r) \<longleftrightarrow> small (cr_blob r))"

lemma transaction_reads:
  assumes laws: "codec_laws E" and "encode_txn E t = Inr raw" and "small raw"
  shows "decode_transaction E raw = Inr t"
  using assms(2,3) codec_lawsD(2,3) [OF laws assms(2)] by (simp add: decode_transaction_def small_def)

text \<open>A journal row whose transaction is larger is refused.\<close>

lemma large_refused:
  "reads (scan_withdrawal E r) \<Longrightarrow> small (wr_blob r)" "reads (scan_swap_action E c) \<Longrightarrow> small (cr_blob c)"
  by (auto simp: scan_withdrawal_def scan_swap_action_def decode_transaction_def small_def reads_def
      split: sum.splits if_splits)

lemma journal_reads:
  assumes laws: "codec_laws E" and "small raw" and ok: "journal_ok E h i ch ci raw dest amnt fee"
  obtains height c t d a f where "scan_uint64 h = Inr height" and "length i = 32" and "\<And>e. scan_confirmation e ch ci = Inr c"
    and "decode_transaction E raw = Inr t" and "parse_qaddr E dest = Inr d" and "cur_parse E amnt = Inr a" and "cur_parse E fee = Inr f"
proof -
  from ok obtain t where "encode_txn E t = Inr raw" unfolding journal_ok_def by blast
  from transaction_reads [OF laws this assms(2)] have "decode_transaction E raw = Inr t" .
  moreover obtain c where "\<And>e. scan_confirmation e ch ci = Inr c"
    using ok by (cases ch; cases ci) (auto simp: journal_ok_def scan_confirmation_def)
  ultimately show ?thesis
    using ok that by (auto simp: journal_ok_def reads_iff scan_uint64_def)
qed

lemma typed_readable:
  assumes laws: "codec_laws E" and ok: "typed E st"
  shows "readable E st"
proof -
  have "reads (scan_withdrawal E r)" if "payment_ok E r" "small (wr_blob r)" for r
    using that(1) unfolding payment_ok_def
    by (rule journal_reads [OF laws that(2)]) (auto simp: scan_withdrawal_def reads_iff)
  moreover have "reads (scan_swap_action E r)" if "action_ok E r" "small (cr_blob r)" for r
    using that(1) unfolding action_ok_def
    by (rule journal_reads [OF laws that(2)]) (auto simp: scan_swap_action_def reads_iff)
  ultimately show ?thesis using ok large_refused by (auto simp: typed_def readable_def)
qed

section \<open>New rows\<close>

lemma keys_read:
  assumes "codec_laws E" and "sound_keys E k"
  shows "decode_qday_keys E (keys_bytes E k) = Inr k"
  using assms codec_lawsD(5) [OF assms(1), of k]
  by (auto simp: decode_qday_keys_def sound_keys_def full_keys_def Let_def qkeys_split)

lemma key_reads:
  assumes "codec_laws E" "key_laws E" and "derive_swap_keys E mst sid = Inr keys" and "kr_public row = keys_bytes E (pk_public keys)"
  shows "reads (scan_swap_key E row)"
  using keys_read [OF assms(1) key_lawsD [OF assms(2)], of "derive_swap_seed mst sid" keys] assms(3,4)
  by (simp add: scan_swap_key_def derive_swap_keys_def)

lemma swap_reads:
  assumes laws: "codec_laws E" and sound: "sound_keys E (s_recipient sw)" "sound_keys E (s_refund sw)"
    and addr: "contract_address E (terms_of sw) = Inr (s_address sw)" and h: "sql_uint64 (s_refund_height sw) = Inr h"
    and con: "swap_constraints keys rows (swap_row_of E sw h)"
  shows "reads (scan_swap E (swap_row_of E sw h))"
  using con scan_sql_uint64 [OF h] keys_read [OF laws sound(1)] keys_read [OF laws sound(2)] codec_lawsD(1) [OF laws] addr
  by (simp add: scan_swap_def swap_row_of_def swap_constraints_def terms_of_def)

lemma new_journal_ok:
  assumes laws: "codec_laws E" and "encode_txn E t = Inr raw" and h: "sql_uint64 v = Inr h" and "length i = 32"
    and "amnt < 2 ^ 128" and "fee < 2 ^ 128"
  shows "journal_ok E h i None None raw (qaddr_string E dest) (cur_exact E amnt) (cur_exact E fee)"
  using assms codec_lawsD(1,4) [OF laws] by (auto simp: journal_ok_def sql_uint64_def split: if_splits)

lemma edited_ok:
  assumes "payment_edit E f" and "payment_ok E r" and "withdrawal_checks (f r)"
  shows "payment_ok E (f r)"
  using assms
  by (auto simp: payment_edit_def payment_ok_def journal_ok_def withdrawal_checks_def confirmation_columns_def sql_uint64_def
      split: if_splits option.splits sum.splits)

lemma edited_action_ok:
  assumes "action_edit E f" and "action_ok E r" and "action_checks (f r)"
  shows "action_ok E (f r)"
  using assms
  by (auto simp: action_edit_def action_ok_def journal_ok_def action_checks_def confirmation_columns_def sql_uint64_def
      split: if_splits option.splits sum.splits)

section \<open>Type safety\<close>

lemma move_typed:
  assumes laws: "codec_laws E" "key_laws E" and mv: "move E K s t" and ok: "typed E (tables s)"
  shows "typed E (tables t)"
  using mv
proof cases
  case (issue ref kind a)
  with ok address_reads [OF laws issue(2)] show ?thesis by (auto simp: typed_def with_address_def)
next
  case (pay w raw h)
  have "payment_ok E (withdrawal_row_of E w raw h)"
    using new_journal_ok [OF laws(1) pay(4,5) _ pay(6,7)] pay(8)
    by (simp add: payment_ok_def withdrawal_row_of_def withdrawal_admits_def withdrawal_checks_def)
  with ok pay(1) show ?thesis by (auto simp: typed_def with_payment_def)
next
  case (session sid mst keys row)
  with ok key_reads [OF laws session(4,6)] show ?thesis by (auto simp: typed_def with_key_def)
next
  case (bind sw h)
  with ok swap_reads [OF laws(1) bind(3,4,5,6,7)] show ?thesis by (auto simp: typed_def with_swap_def)
next
  case (act c raw h)
  have "action_ok E (action_row_of E c raw h)"
    using new_journal_ok [OF laws(1) act(4,5) _ act(6,7)] act(8)
    by (simp add: action_ok_def action_row_of_def action_constraints_def action_checks_def)
  with ok act(1) show ?thesis by (auto simp: typed_def with_action_def)
next
  case (resend rid f)
  with ok show ?thesis
    using edited_ok [OF resend(3)] by (auto simp: typed_def edit_payments_def update_where_def)
next
  case (retry aid f)
  with ok show ?thesis
    using edited_action_ok [OF retry(3)] by (auto simp: typed_def edit_actions_def update_where_def)
qed (use ok in \<open>simp_all add: frame_def typed_def\<close>)

text \<open>
  C28. The store is type-safe: from a store whose rows are well-formed, an empty one for example, the
  daemon only ever reaches stores whose rows are well-formed, whatever it is asked and whatever fails.
  Of these rows the scanners of the store read back every address, session key and contract without
  an error, and a journal row exactly when its encoded transaction is at most 4 MiB: what is larger
  can be written and is refused when it is read.
\<close>

theorem store_type_safe:
  assumes "currency_laws E" and "codec_laws E" and "key_laws E" and "lifetime E token s t" and "typed E (tables s)"
  shows "typed E (tables t) \<and> readable E (tables t)"
proof -
  have "typed E (tables t)"
    using lifetime_tables [OF assms(1,4), where R = "\<lambda>a b. typed E a \<longrightarrow> typed E b"] assms(5) move_typed [OF assms(2,3)] by blast
  with typed_readable [OF assms(2)] show ?thesis by blast
qed

end
