(* ===== verification/Recover_Facts.thy ===== *)
theory Recover_Facts
  imports Boot_Facts Typed_Store
begin

text \<open>
  \<open>recover-addresses\<close>: after it every child of the seed up to the count is a row of the table, the
  rows that were there are untouched, and exactly the missing ones were added.
\<close>

section \<open>Steps of a command on the store\<close>

lemma on_daemon_Ok: "on_daemon m s = (Ok a, t) \<Longrightarrow> m (daemon s) = (Ok a, daemon t)"
  by (auto simp: on_daemon_def split: prod.splits outcome.splits)

lemma on_daemon_run: "daemon (snd (on_daemon m s)) = snd (m (daemon s))"
  by (auto simp: on_daemon_def split: prod.splits outcome.splits)

lemma call_tables: "call f s = (r, t) \<Longrightarrow> tables (daemon t) = tables (daemon s)"
  by (auto simp: call_def split: prod.splits)

lemma failed_Ok: "failed r s = (Ok a, t) \<longleftrightarrow> r = Inr a \<and> t = s"
  by (auto simp: failed_def split: sum.splits)

lemma fold_c_append: "fold_c f (xs @ ys) a = bnd (fold_c f xs a) (fold_c f ys)"
proof (induction xs arbitrary: a)
  case (Cons x xs)
  then show ?case by (simp add: bnd_def fun_eq_iff split: prod.split outcome.split)
qed simp

section \<open>One child\<close>

text \<open>The row stands for the child of the seed with its index.\<close>

definition child_of :: "('x, 'z) env_scheme \<Rightarrow> bytes \<Rightarrow> address_row \<Rightarrow> bool" where
  "child_of E seed r \<longleftrightarrow> (\<exists>keys. derive_keys E seed (word_of_int (ar_index r)) = Inr keys \<and>
     ar_public r = keys_bytes E (pk_public keys) \<and> parse_qaddr E (ar_address r) = Inr (keys_address E (pk_public keys)))"

text \<open>A row that recovery adds: an own address without a reference.\<close>

definition restored_row :: "('x, 'z) env_scheme \<Rightarrow> bytes \<Rightarrow> address_row \<Rightarrow> bool" where
  "restored_row E seed r \<longleftrightarrow> child_of E seed r \<and> ar_kind r = ''change'' \<and> ar_reference r = None"

lemma stored_child:
  assumes laws: "codec_laws E" and row: "decode_address E r = Inr a" and same: "a_public a = pk_public keys"
    and derived: "derive_keys E seed (word_of_int (ar_index r)) = Inr keys"
  shows "child_of E seed r"
proof -
  from row have "a_public a = \<lparr>classical = take 32 (ar_public r), reserve = drop 32 (ar_public r)\<rparr>"
    and "parse_qaddr E (ar_address r) = Inr (keys_address E (a_public a))"
    by (auto simp: decode_address_def Let_def split: sum.splits option.splits if_splits)
  with same derived codec_lawsD(5) [OF laws] show ?thesis
    unfolding child_of_def by (metis append_take_drop_id qkeys.select_convs)
qed

lemma query_row_Some: "query_row f row = Inr (Some a) \<Longrightarrow> \<exists>r. row = Some r \<and> f r = Inr a"
  by (auto simp: query_row_def split: option.splits sum.splits)

lemma address_by_index_Some:
  assumes "address_by_index E i s = (Ok (Some a), t)"
  obtains r where "List.find (\<lambda>r. ar_index r = uint i) (t_addresses (tables s)) = Some r" and "decode_address E r = Inr a"
proof -
  from assms obtain u where st: "statement E s = (Ok (), u)"
    and q: "query_row (decode_address E) (List.find (\<lambda>r. ar_index r = uint i) (t_addresses (tables u))) = Inr (Some a)"
    by (auto simp: address_by_index_def bnd_Ok_iff lift_sum_Ok_iff dest!: sql_uint64_Inr)
  from evolvesD [OF frame_statement st] have "tables u = tables s" by (simp add: frame_def)
  with query_row_Some [OF q] that show ?thesis by auto
qed

text \<open>The outcomes of one step: the child is there, or it is added.\<close>

lemma recover_child_Ok:
  assumes laws: "codec_laws E" and n: "n < 2 ^ 63" and run: "recover_child E seed n k s = (Ok k', t)"
  shows "(\<exists>r\<in>set (t_addresses (tables (daemon s))). ar_index r = int n \<and> child_of E seed r) \<and> k' = k \<and>
      tables (daemon t) = tables (daemon s) \<or>
    (\<exists>r. ar_index r = int n \<and> restored_row E seed r \<and> address_constraints (t_addresses (tables (daemon s))) r \<and> k' = k + 1 \<and>
      tables (daemon t) = (tables (daemon s))\<lparr>t_addresses := t_addresses (tables (daemon s)) @ [r]\<rparr>)"
proof -
  let ?i = "of_nat n :: u64"
  have i: "uint ?i = int n" using n by (simp add: unsigned_of_nat take_bit_nat_eq_self)
  from run obtain keys found u where keys: "derive_keys E seed ?i = Inr keys"
    and found: "on_daemon (address_by_index E ?i) s = (Ok found, u)"
    and rest: "(case found of
        Some a \<Rightarrow> if a_public a \<noteq> pk_public keys then fail (ChildMismatch ?i) else ret k
      | None \<Rightarrow> bnd (call (now E)) (\<lambda>t. bnd (on_daemon (add_address E (child_record E ?i (pk_public keys) t))) (\<lambda>_. ret (Suc k)))) u = (Ok k', t)"
    by (auto simp: recover_child_def Let_def bnd_Ok_iff failed_Ok)
  have fr: "tables (daemon u) = tables (daemon s)"
    using evolvesD [OF frame_reads(5) on_daemon_Ok [OF found]] by (simp add: frame_def)
  show ?thesis
  proof (cases found)
    case (Some a)
    obtain r where find: "List.find (\<lambda>r. ar_index r = int n) (t_addresses (tables (daemon s))) = Some r"
      and row: "decode_address E r = Inr a"
      using address_by_index_Some [OF on_daemon_Ok [OF found [unfolded Some]]] unfolding i by blast
    from find have r: "r \<in> set (t_addresses (tables (daemon s)))" "ar_index r = int n" by (auto simp: find_Some_iff)
    moreover have "child_of E seed r"
      using rest Some keys r(2) by (intro stored_child [OF laws row]) (auto split: if_splits)
    ultimately show ?thesis using rest Some fr by (auto split: if_splits)
  next
    case None
    from rest None obtain c v where now: "call (now E) u = (Ok c, v)" and k: "k' = k + 1"
      and new: "on_daemon (add_address E (child_record E ?i (pk_public keys) c)) v = (Ok (), t)"
      by (auto simp: bnd_Ok_iff)
    from call_tables [OF now] fr have same: "tables (daemon v) = tables (daemon s)" by simp
    let ?r = "address_row_of E (child_record E ?i (pk_public keys) c) (int n)"
    from add_address_cases [OF on_daemon_Ok [OF new]] i
    have "address_constraints (t_addresses (tables (daemon s))) ?r"
      and "tables (daemon t) = (tables (daemon s))\<lparr>t_addresses := t_addresses (tables (daemon s)) @ [?r]\<rparr>"
      by (auto simp: frame_def with_address_def same child_record_def)
    moreover have "ar_index ?r = int n" and "restored_row E seed ?r"
      using keys codec_lawsD(1) [OF laws] by (auto simp: restored_row_def child_of_def address_row_of_def child_record_def)
    ultimately show ?thesis using k by blast
  qed
qed

section \<open>All children\<close>

text \<open>The table after the first \<open>n\<close> children.\<close>

definition restored :: "('x, 'z) env_scheme \<Rightarrow> bytes \<Rightarrow> nat \<Rightarrow> store \<Rightarrow> store \<Rightarrow> nat \<Rightarrow> bool" where
  "restored E seed n a b added \<longleftrightarrow>
     (\<exists>new. b = a\<lparr>t_addresses := t_addresses a @ new\<rparr> \<and>
        map ar_index new = map int (filter (\<lambda>i. int i \<notin> ar_index ` set (t_addresses a)) [0..<n]) \<and>
        (\<forall>r\<in>set new. restored_row E seed r) \<and> added = length new) \<and>
     (\<forall>i<n. \<exists>r\<in>set (t_addresses b). ar_index r = int i \<and> child_of E seed r)"

lemma recover_children_restored:
  assumes laws: "codec_laws E" and "n \<le> 2 ^ 63" and "recover_children E seed n s = (Ok added, t)"
  shows "restored E seed n (tables (daemon s)) (tables (daemon t)) added"
  using assms(2,3)
proof (induction n arbitrary: added t)
  case 0
  then show ?case by (auto simp: recover_children_def restored_def)
next
  case (Suc n)
  from Suc.prems(2) obtain k u where before: "recover_children E seed n s = (Ok k, u)"
    and one: "recover_child E seed n k u = (Ok added, t)"
    by (auto simp: recover_children_def fold_c_append bnd_Ok_iff)
  have bound: "n < 2 ^ 63" using Suc.prems(1) by simp
  let ?a = "tables (daemon s)" and ?u = "tables (daemon u)" and ?t = "tables (daemon t)"
  from Suc.IH [OF _ before] bound obtain new where u: "?u = ?a\<lparr>t_addresses := t_addresses ?a @ new\<rparr>"
    and idx: "map ar_index new = map int (filter (\<lambda>i. int i \<notin> ar_index ` set (t_addresses ?a)) [0..<n])"
    and rows: "\<forall>r\<in>set new. restored_row E seed r" and k: "k = length new"
    and old: "\<forall>i<n. \<exists>r\<in>set (t_addresses ?u). ar_index r = int i \<and> child_of E seed r"
    unfolding restored_def by auto
  have seen: "ar_index ` set new \<subseteq> int ` {..<n}"
    using arg_cong [OF idx, of set] by auto
  from recover_child_Ok [OF laws bound one] show ?case
  proof
    assume there: "(\<exists>r\<in>set (t_addresses ?u). ar_index r = int n \<and> child_of E seed r) \<and> added = k \<and> ?t = ?u"
    with u seen have "int n \<in> ar_index ` set (t_addresses ?a)" by force
    with there u idx rows k old show ?thesis
      unfolding restored_def by (intro conjI exI [of _ new]) (auto simp: less_Suc_eq)
  next
    assume "\<exists>r. ar_index r = int n \<and> restored_row E seed r \<and> address_constraints (t_addresses ?u) r \<and> added = k + 1 \<and>
      ?t = ?u\<lparr>t_addresses := t_addresses ?u @ [r]\<rparr>"
    then obtain r where r: "ar_index r = int n" "restored_row E seed r" "address_constraints (t_addresses ?u) r" "added = k + 1"
      and t: "?t = ?u\<lparr>t_addresses := t_addresses ?u @ [r]\<rparr>" by blast
    from r(1,3) u have "int n \<notin> ar_index ` set (t_addresses ?a)" by (auto simp: address_constraints_def)
    with r t u idx rows k old show ?thesis
      unfolding restored_def by (intro conjI exI [of _ "new @ [r]"]) (auto simp: less_Suc_eq restored_row_def)
  qed
qed

end
