(* ===== verification/Program_Facts.thy ===== *)
theory Program_Facts
  imports Recover_Facts
begin

text \<open>
  The commands and the store: whatever the program is called with, it changes the store by the steps
  of the daemon and of \<open>recover-addresses\<close> only.
\<close>

section \<open>Relations between stores, carried through a command\<close>

locale store_order =
  fixes R :: "store \<Rightarrow> store \<Rightarrow> bool"
  assumes R_refl: "R a a"
    and R_trans: "R a b \<Longrightarrow> R b c \<Longrightarrow> R a c"
begin

definition of_boot :: "'x boot \<Rightarrow> 'x boot \<Rightarrow> bool" where
  "of_boot s t \<longleftrightarrow> R (tables (daemon s)) (tables (daemon t))"

definition of_sys :: "'x sys \<Rightarrow> 'x sys \<Rightarrow> bool" where
  "of_sys s t \<longleftrightarrow> R (tables s) (tables t)"

sublocale boot: state_order of_boot
  by unfold_locales (auto simp: of_boot_def intro: R_refl R_trans)

sublocale sys: state_order of_sys
  by unfold_locales (auto simp: of_sys_def intro: R_refl R_trans)

lemma kept_mod: "(\<And>s. tables (daemon (f s)) = tables (daemon s)) \<Longrightarrow> evolves of_boot (mod_st f)"
  by (rule boot.ev_mod) (simp add: of_boot_def R_refl)

lemma kept_call: "evolves of_boot (call f)"
  by (auto simp: evolves_def call_def of_boot_def R_refl split: prod.splits)

lemma kept_failed: "evolves of_boot (failed r)"
  by (auto simp: evolves_def failed_def of_boot_def R_refl split: sum.splits)

lemma kept_calls:
  "evolves of_boot (call f)" "evolves of_boot (failed r)" "evolves of_boot (call_sum g)" "evolves of_boot (call_err h)"
  unfolding call_sum_def call_err_def by (intro boot.ev_intros kept_call kept_failed)+

lemma kept_daemon:
  assumes "evolves of_sys m"
  shows "evolves of_boot (on_daemon m)"
  unfolding evolves_def
proof
  fix s :: "'a boot"
  have "of_sys (daemon s) (snd (m (daemon s)))" using assms by (simp add: evolves_def)
  then show "of_boot s (snd (on_daemon m s))" by (simp add: of_boot_def of_sys_def on_daemon_run)
qed

lemma kept_frame: "evolves frame m \<Longrightarrow> evolves of_sys m"
  by (auto simp: evolves_def frame_def of_sys_def R_refl)

lemma kept_context: "evolves of_boot m \<Longrightarrow> evolves of_boot (in_context msg m)"
  by (auto simp: evolves_def in_context_def split: prod.splits outcome.splits) (metis snd_conv)+

lemma kept_handles:
  "evolves of_boot (acquire E r arg)" "evolves of_boot (release E r)" "evolves of_boot (release_all E rs)"
  unfolding acquire_def release_def release_all_def
  by (intro boot.ev_intros kept_calls kept_mod; simp)+

lemma kept_or_release:
  assumes "evolves of_boot m"
  shows "evolves of_boot (or_release E rs m)"
proof (rule evolvesI)
  fix s :: "'a boot" and r t
  assume run: "or_release E rs m s = (r, t)"
  obtain r' u where m: "m s = (r', u)" by fastforce
  have first: "of_boot s u" by (rule evolvesD [OF assms m])
  have tidy: "of_boot u v" if "bnd (release_all E rs) (\<lambda>_. fail e) u = (q, v)" for e q v
    using boot.ev_bnd [OF kept_handles(3) boot.ev_fail] that by (rule evolvesD)
  show "of_boot s t"
    using run m first boot.le_trans [OF first tidy]
    by (cases r') (auto simp: or_release_def)
qed

lemma kept_deferring:
  assumes m: "evolves of_boot m" and ends: "evolves of_boot last_step"
  shows "evolves of_boot (deferring last_step m)"
proof (rule evolvesI)
  fix s :: "'a boot" and r t
  assume run: "deferring last_step m s = (r, t)"
  obtain r' u where u: "m s = (r', u)" by fastforce
  have first: "of_boot s u" by (rule evolvesD [OF m u])
  have tidy: "of_boot u v" if "bnd last_step (\<lambda>_. k) u = (q, v)" "evolves of_boot k" for k q v
    using boot.ev_bnd [OF ends that(2)] that(1) by (rule evolvesD)
  show "of_boot s t"
    using run u first boot.le_trans [OF first tidy]
    by (cases r') (auto simp: deferring_def intro: boot.ev_ret boot.ev_fail boot.ev_panic split: if_splits)
qed

lemma kept_goroutine: "evolves of_boot m \<Longrightarrow> evolves of_boot (in_goroutine m)"
  by (auto simp: evolves_def in_goroutine_def of_boot_def split: prod.splits outcome.splits) (metis snd_conv)+

lemma kept_with_flags: "(\<And>fs. evolves of_boot (f fs)) \<Longrightarrow> evolves of_boot (with_flags flags args f)"
  by (auto simp: with_flags_def intro: boot.ev_fail split: option.split)

lemmas kept_intros = boot.ev_intros kept_calls kept_context kept_handles kept_or_release kept_deferring kept_with_flags

text \<open>The start and the stop do not touch the rows.\<close>

lemma kept_schema: "evolves of_boot (mod_st (\<lambda>s. s\<lparr>schema := f (schema s)\<rparr>))"
  by (rule kept_mod) simp

lemma kept_statement: "evolves of_boot (on_daemon (statement E))"
  by (intro kept_daemon kept_frame frame_intros)

lemma kept_store: "evolves of_boot (open_store E path)" "evolves of_boot (close_store E)"
  unfolding open_store_def close_store_def create_tables_def table_columns_def add_column_def create_indexes_def
    create_table_def create_index_def schema_statement_def
  by (intro kept_intros kept_schema kept_statement)+

lemma kept_pages: "evolves of_boot (on_daemon (addresses_page E l k))" "evolves of_boot (on_daemon (swaps_page E l k))"
  by (intro kept_daemon kept_frame frame_reads frame_swap_reads)+

lemma kept_watch: "evolves of_boot (watch_wallets E)"
  unfolding watch_wallets_def ensure_wallet_def register_addresses_def register_contracts_def address_batch_def swap_batch_def
  by (intro kept_intros kept_pages)

lemma kept_node: "evolves of_boot (open_node E cfg)" "evolves of_boot (close_node E)"
  unfolding open_node_def choose_manifest_def load_manifest_def start_syncer_def close_node_def
  by (intro kept_intros kept_watch; intro kept_mod; simp)+

lemma kept_service: "evolves of_boot (new_service E key)" "evolves of_boot close_service"
  unfolding new_service_def close_service_def wake_rebroadcast_def lock_wallet_def
  by (intro kept_intros kept_daemon; intro kept_mod sys.ev_mod; simp add: of_sys_def R_refl)+

lemma kept_files:
  "evolves of_boot (private_dir E path)" "evolves of_boot (read_secret E path name)" "evolves of_boot (check_key_file E path)"
  "evolves of_boot (load_or_create_token E path)" "evolves of_boot (choose_seed E path)"
  unfolding private_dir_def read_secret_def check_key_file_def load_or_create_token_def choose_seed_def Let_def
  by (intro kept_intros)+

lemma kept_listener: "evolves of_boot (loopback_listener E address allow)"
  unfolding loopback_listener_def by (intro kept_intros)

lemma kept_unlock: "evolves of_boot (unlock_at_start E path)"
  unfolding unlock_at_start_def unlock_wallet_def wake_rebroadcast_def
  by (intro kept_intros kept_files kept_daemon sys.ev_intros frame_intros [THEN kept_frame] sys.ev_mod; simp add: of_sys_def R_refl)

text \<open>The commands, for a relation the steps of the daemon keep.\<close>

lemma kept_serve:
  assumes laws: "currency_laws E" and move: "\<And>K s t. move E K s t \<Longrightarrow> R (tables s) (tables t)"
  shows "evolves of_boot (serve_api E token hs)"
proof -
  have steps: "of_sys s t" if "step E token s t" for s t
    unfolding of_sys_def
    by (rule lifetime_tables [OF laws r_into_rtranclp [of "step E token", OF that], where R = R])
      (auto intro: R_refl R_trans move)
  have "evolves of_boot (happens E token h)" for h
  proof (cases h)
    case (Asked rq)
    have "of_sys d (snd (handle E token rq d))" for d
      by (rule steps, rule step.request, rule prod.collapse [symmetric])
    with Asked show ?thesis
      by (simp add: happens_def boot.ev_mod of_boot_def of_sys_def)
  next
    case (TakesTurn timer)
    have "evolves of_sys (rebroadcast_turn E timer)"
      by (rule evolvesI) (blast intro: steps step.turn)
    with TakesTurn show ?thesis by (simp add: happens_def kept_daemon kept_goroutine)
  qed
  then show ?thesis unfolding serve_api_def serving_def by (intro kept_intros)
qed

text \<open>The row that is added for a child of the seed.\<close>

definition adds_child :: "('x, 'z) node_env_scheme \<Rightarrow> bool" where
  "adds_child E \<longleftrightarrow> (\<forall>st seed i keys t.
     let row = address_row_of E (child_record E i (pk_public keys) t) (uint i) in
     derive_keys E seed i = Inr keys \<longrightarrow> address_constraints (t_addresses st) row \<longrightarrow> uint i < 2 ^ 63 \<longrightarrow>
     R st (st\<lparr>t_addresses := t_addresses st @ [row]\<rparr>))"

lemma kept_add_child:
  assumes new: "adds_child E" and keys: "derive_keys E seed i = Inr keys"
  shows "evolves of_sys (add_address E (child_record E i (pk_public keys) t))"
proof (rule evolvesI)
  fix s :: "'a sys" and r u
  let ?a = "child_record E i (pk_public keys) t"
  assume run: "add_address E ?a s = (r, u)"
  from add_address_cases [OF run] show "of_sys s u"
  proof
    assume "r = Ok () \<and> frame (with_address E ?a s) u \<and>
      address_constraints (t_addresses (tables s)) (address_row_of E ?a (uint (a_index ?a)))"
    moreover from this run have "uint i < 2 ^ 63"
      by (auto simp: add_address_def bnd_Ok_iff lift_sum_Ok_iff child_record_def dest!: sql_uint64_Inr)
    ultimately show ?thesis
      using new keys by (auto simp: adds_child_def of_sys_def frame_def with_address_def child_record_def Let_def)
  qed (auto simp: frame_def of_sys_def R_refl)
qed

lemma kept_children:
  assumes "adds_child E"
  shows "evolves of_boot (recover_children E seed n)"
  unfolding recover_children_def recover_child_def Let_def
  by (intro boot.ev_fold boot.ev_bnd_post [OF kept_calls(2)] boot.ev_bnd [OF kept_calls(1)] kept_intros kept_daemon
      frame_reads [THEN kept_frame] kept_add_child [OF assms]) (auto simp: failed_Ok)

lemma kept_program:
  assumes "currency_laws E" and "\<And>K s t. move E K s t \<Longrightarrow> R (tables s) (tables t)" and "adds_child E"
  shows "evolves of_boot (run_program E hs args)"
proof -
  have "evolves of_boot (run_daemon E hs args)" for args
    unfolding run_daemon_def Let_def
    by (intro kept_intros kept_files kept_store kept_node kept_service kept_unlock kept_listener kept_serve assms)
  moreover have "evolves of_boot (init_wallet E args)" "evolves of_boot (recovery E args)" for args
    unfolding init_wallet_def recovery_def Let_def by (intro kept_intros kept_files kept_store)+
  moreover have "evolves of_boot (recover_addresses E args)" for args
    unfolding recover_addresses_def Let_def by (intro kept_intros kept_files kept_store kept_children assms)
  ultimately show ?thesis
    unfolding run_program_def by (intro boot.ev_list boot.ev_if boot.ev_ret boot.ev_fail) simp_all
qed

end

section \<open>What the program does to its records\<close>

interpretation same_rows: store_order "(=)"
  by unfold_locales auto

interpretation growing: store_order ledger_grows
  by unfold_locales (auto intro: ledger_grows_refl ledger_grows_trans)

interpretation invar: store_order "\<lambda>a b. P a \<longrightarrow> P b" for P :: "store \<Rightarrow> bool"
  by unfold_locales auto

lemma address_added_grows:
  assumes new: "address_constraints (t_addresses st) row"
  shows "ledger_grows st (st\<lparr>t_addresses := t_addresses st @ [row]\<rparr>)"
proof -
  have "ar_index row \<notin> dom (addr_index.index child_columns (t_addresses st))"
    using new by (auto simp: addr_index.index_dom address_constraints_def)
  then show ?thesis
    using addr_index.index_inserted [OF new, of child_columns] addr_index.distinct_insert [OF _ new]
    by (auto simp: ledger_grows_def ledger_le_def ledger_of_def keyed_def intro: map_le_fresh)
qed

lemma growing_child: "growing.adds_child E"
  by (simp add: growing.adds_child_def Let_def address_added_grows)

lemma child_reads:
  assumes laws: "codec_laws E" "key_laws E" and keys: "derive_keys E seed i = Inr keys" and "uint i < 2 ^ 63"
  shows "reads (decode_address E (address_row_of E (child_record E i (pk_public keys) t) (uint i)))"
  using key_lawsD [OF laws(2), of "derive_seed seed i" keys] keys assms(4) codec_lawsD(1,5) [OF laws(1)]
  by (simp add: decode_address_def address_row_of_def child_record_def scan_uint64_def sound_keys_def full_keys_def Let_def qkeys_split derive_keys_def)

lemma typed_child: "codec_laws E \<Longrightarrow> key_laws E \<Longrightarrow> invar.adds_child (typed E) E"
  using child_reads [of E] by (auto simp: invar.adds_child_def Let_def typed_def)

text \<open>
  C34. The records survive the program: whatever command is run, however the daemon is used while it
  runs and wherever it fails, the keys of the tables stay unique, every row stays well-formed and
  readable, and every journalled payment and action, every session, contract and address of before is
  found exactly once, with the same terms.
\<close>

theorem program_keeps_records:
  assumes "currency_laws E" and "codec_laws E" and "key_laws E" and run: "run_program E hs args s = (r, t)"
    and before: "keyed (tables (daemon s))" "typed E (tables (daemon s))"
  shows "keyed (tables (daemon t)) \<and> typed E (tables (daemon t)) \<and> readable E (tables (daemon t)) \<and>
    rows_kept (tables (daemon s)) (tables (daemon t))"
proof -
  have "ledger_grows (tables (daemon s)) (tables (daemon t))"
    using evolvesD [OF growing.kept_program [OF assms(1) move_grows growing_child] run] by (simp add: growing.of_boot_def)
  moreover have "typed E (tables (daemon t))"
    using evolvesD [OF invar.kept_program [OF assms(1) _ typed_child [OF assms(2,3)]] run] before(2) move_typed [OF assms(2,3)]
    unfolding invar.of_boot_def by blast
  ultimately show ?thesis
    using before ledger_rows typed_readable [OF assms(2)] unfolding ledger_grows_def by blast
qed

section \<open>recover-addresses\<close>

lemma deferring_Ok:
  assumes "deferring last_step m s = (Ok a, t)"
  obtains u b where "m s = (Ok a, u)" and "last_step u = (Ok b, t)"
  using assms by (auto simp: deferring_def bnd_def split: prod.splits outcome.splits if_splits)

lemma with_flags_Ok:
  assumes "with_flags declared args f s = (Ok a, t)"
  obtains fs where "parse_flags declared args = Some (fs, [])" and "f fs s = (Ok a, t)"
  using assms by (auto simp: with_flags_def split: option.splits if_splits)

lemma same_rows_D: "evolves same_rows.of_boot m \<Longrightarrow> m s = (r, t) \<Longrightarrow> tables (daemon t) = tables (daemon s)"
  using evolvesD [of same_rows.of_boot m s r t] by (simp add: same_rows.of_boot_def)

definition report :: "nat \<Rightarrow> nat \<Rightarrow> string list" where
  "report added n = [''Restored '' @ decimal_digits added @ '' address records through child index '' @
     decimal_digits (n - 1) @ ''. Customer references require a database backup.'']"

text \<open>A successful run, taken apart.\<close>

lemma recover_addresses_Ok:
  assumes "recover_addresses E args s = (Ok out, t)"
  obtains fs password seed added v w x x' where "parse_flags (recover_flags E) args = Some (fs, [])"
    and "1 \<le> flag_count ''count'' fs" and "flag_count ''count'' fs \<le> 10000000"
    and "read_key E (join_path E [flag_text ''data'' fs, ''master.key'']) password x = (Inr seed, x')"
    and "tables (daemon v) = tables (daemon s)" and "recover_children E seed (flag_count ''count'' fs) v = (Ok added, w)"
    and "tables (daemon t) = tables (daemon w)" and "out = report added (flag_count ''count'' fs)"
proof -
  from assms obtain fs where fs: "parse_flags (recover_flags E) args = Some (fs, [])"
    and body: "(let children = flag_count ''count'' fs; data = flag_text ''data'' fs in
     bnd (guard_err (children = 0 \<or> 10000000 < children) BadCount) (\<lambda>_.
     bnd (read_secret E (flag_text ''password-file'' fs) ''password'') (\<lambda>password.
     bnd (call_sum (read_key E (join_path E [data, ''master.key'']) password)) (\<lambda>seed.
     bnd (open_store E (join_path E [data, ''walletd.sqlite3''])) (\<lambda>_.
     deferring (bnd (close_store E) (\<lambda>_. ret ()))
       (bnd (recover_children E seed children) (\<lambda>added. ret (report added children)))))))) s = (Ok out, t)"
    unfolding recover_addresses_def report_def by (rule with_flags_Ok)
  let ?n = "flag_count ''count'' fs"
  from body obtain password seed u v v' x where n: "\<not> (?n = 0 \<or> 10000000 < ?n)"
    and secret: "read_secret E (flag_text ''password-file'' fs) ''password'' s = (Ok password, u)"
    and key: "call_sum (read_key E (join_path E [flag_text ''data'' fs, ''master.key'']) password) u = (Ok seed, v')"
    and db: "open_store E (join_path E [flag_text ''data'' fs, ''walletd.sqlite3'']) v' = (Ok x, v)"
    and rest: "deferring (bnd (close_store E) (\<lambda>_. ret ()))
      (bnd (recover_children E seed ?n) (\<lambda>added. ret (report added ?n))) v = (Ok out, t)"
    unfolding Let_def bnd_Ok_iff guard_err_Ok_iff by blast
  from rest obtain w b where run: "bnd (recover_children E seed ?n) (\<lambda>added. ret (report added ?n)) v = (Ok out, w)"
    and ends: "bnd (close_store E) (\<lambda>_. ret ()) w = (Ok b, t)"
    by (rule deferring_Ok)
  from run obtain added where children: "recover_children E seed ?n v = (Ok added, w)" and out: "out = report added ?n"
    unfolding bnd_Ok_iff ret_Ok_iff by blast
  note same = same_rows_D [OF same_rows.kept_files(2) secret] same_rows_D [OF same_rows.kept_calls(3) key]
    same_rows_D [OF same_rows.kept_store(1) db] same_rows_D [OF same_rows.boot.ev_bnd [OF same_rows.kept_store(2) same_rows.boot.ev_ret] ends]
  obtain y y' where "read_key E (join_path E [flag_text ''data'' fs, ''master.key'']) password y = (Inr seed, y')"
    using key by (auto simp: call_sum_def call_def bnd_Ok_iff failed_Ok split: prod.splits)
  then show ?thesis using that [OF fs _ _ _ _ children _ out] n same by simp
qed

text \<open>
  C35. A lost address index is rebuilt: when \<open>recover-addresses\<close> succeeds, every child of the master
  seed below the count is a row of the address table with its own keys and address; the rows of
  before stand unchanged in front, exactly the missing children were appended, in order and as own
  addresses without a reference, and their number is the one it prints. A second run adds nothing.
\<close>

theorem addresses_restored:
  assumes laws: "codec_laws E" and run: "recover_addresses E args s = (Ok out, t)"
  shows "\<exists>fs seed added. parse_flags (recover_flags E) args = Some (fs, []) \<and>
    1 \<le> flag_count ''count'' fs \<and> flag_count ''count'' fs \<le> 10000000 \<and>
    (\<exists>password w w'. read_key E (join_path E [flag_text ''data'' fs, ''master.key'']) password w = (Inr seed, w')) \<and>
    restored E seed (flag_count ''count'' fs) (tables (daemon s)) (tables (daemon t)) added \<and>
    out = report added (flag_count ''count'' fs)"
proof -
  from run obtain fs password seed added v w x x' where fs: "parse_flags (recover_flags E) args = Some (fs, [])"
    and n: "1 \<le> flag_count ''count'' fs" "flag_count ''count'' fs \<le> 10000000"
    and key: "read_key E (join_path E [flag_text ''data'' fs, ''master.key'']) password x = (Inr seed, x')"
    and same: "tables (daemon v) = tables (daemon s)"
    and children: "recover_children E seed (flag_count ''count'' fs) v = (Ok added, w)"
    and same': "tables (daemon t) = tables (daemon w)" and out: "out = report added (flag_count ''count'' fs)"
    by (rule recover_addresses_Ok)
  have "restored E seed (flag_count ''count'' fs) (tables (daemon v)) (tables (daemon w)) added"
    by (rule recover_children_restored [OF laws _ children]) (use n(2) in simp)
  then show ?thesis using fs n key out unfolding same same' by blast
qed

end
