(* ===== verification/Start_Facts.thy ===== *)
theory Start_Facts
  imports Program_Facts
begin

text \<open>
  The start: the list of peers, the migration of the database and the API token.
\<close>

section \<open>Peers\<close>

text \<open>A host and a port from 1 to 65535.\<close>

definition peer_ok :: "string \<Rightarrow> bool" where
  "peer_ok peer_text \<longleftrightarrow> (case split_host_port peer_text of
       None \<Rightarrow> False
     | Some (host, port) \<Rightarrow> host \<noteq> [] \<and> port \<noteq> [] \<and> list_all is_digit port \<and> digits_value port \<in> {1..65535})"

definition entries_of :: "string \<Rightarrow> string list" where
  "entries_of text_list = filter (\<lambda>e. e \<noteq> []) (map trim_space (split_on CHR '','' text_list))"

lemma peer_of_cases:
  "peer_of peer_text = (if trim_space peer_text = [] then Inr None
     else if peer_ok (trim_space peer_text) then Inr (Some (trim_space peer_text)) else Inl (BadPeer (trim_space peer_text)))"
  by (auto simp: peer_of_def peer_ok_def parse_uint_def Let_def split: option.splits)

definition collect :: "string list \<Rightarrow> string list \<Rightarrow> string list" where
  "collect = foldl (\<lambda>peers v. if v \<in> set peers then peers else peers @ [v])"

lemma collect_peers_run:
  "collect_peers es peers = (let found = filter (\<lambda>e. e \<noteq> []) (map trim_space es) in
     case List.find (\<lambda>e. \<not> peer_ok e) found of Some e \<Rightarrow> Inl (BadPeer e) | None \<Rightarrow> Inr (collect peers found))"
  by (induction es arbitrary: peers) (auto simp: peer_of_cases collect_def Let_def split: option.splits)

lemma collect_first: "collect [] xs = rev (remdups (rev xs))"
proof (induction xs rule: rev_induct)
  case (snoc x xs)
  then show ?case by (auto simp: collect_def)
qed (simp add: collect_def)

text \<open>
  C40. The list of peers: \<open>ParsePeers\<close> accepts exactly the lists that hold an entry and whose
  non-blank entries are all a host with a port from 1 to 65535; it returns them trimmed, each once, in
  the order of their first mention, and otherwise names the first entry that is wrong.
\<close>

theorem peers_parsed:
  "parse_peers value_text =
    (case List.find (\<lambda>e. \<not> peer_ok e) (entries_of value_text) of
       Some e \<Rightarrow> Inl (BadPeer e)
     | None \<Rightarrow> if entries_of value_text = [] then Inl PeerRequired
         else Inr (rev (remdups (rev (entries_of value_text)))))"
  by (auto simp: parse_peers_def collect_peers_run collect_first entries_of_def [symmetric] Let_def split: option.split)

section \<open>The migration of the database\<close>

text \<open>The tables and indexes of the current version.\<close>

definition current_tables :: "string \<rightharpoonup> string list" where
  "current_tables = [
     ''schema_version'' \<mapsto> [''version''],
     ''addresses'' \<mapsto> [''child_index'', ''address'', ''public_keys'', ''reference'', ''kind'', ''created_at''],
     ''withdrawals'' \<mapsto> [''request_id'', ''kind'', ''transaction_blob'', ''basis_height'', ''basis_id'', ''destination'',
       ''amount_atomic'', ''fee_atomic'', ''created_at'', ''last_error'', ''confirmed_height'', ''confirmed_block_id''],
     ''swap_keys'' \<mapsto> [''swap_id'', ''public_keys'', ''created_at''],
     ''swaps'' \<mapsto> [''swap_id'', ''role'', ''recipient_keys'', ''refund_keys'', ''secret_hash'', ''refund_height'',
       ''contract_address'', ''created_at''],
     ''swap_actions'' \<mapsto> [''action_id'', ''swap_id'', ''kind'', ''output_id'', ''transaction_blob'', ''basis_height'',
       ''basis_id'', ''destination'', ''amount_atomic'', ''fee_atomic'', ''created_at'', ''last_error'', ''confirmed_height'',
       ''confirmed_block_id'']]"

lemma current_tables_eq:
  "current_tables = [''schema_version'' \<mapsto> [''version''], ''addresses'' \<mapsto> address_columns, ''withdrawals'' \<mapsto> withdrawal_columns,
     ''swap_keys'' \<mapsto> swap_key_columns, ''swaps'' \<mapsto> swap_columns, ''swap_actions'' \<mapsto> swap_action_columns]"
  by (simp only: current_tables_def address_columns_def withdrawal_columns_def swap_key_columns_def swap_columns_def
      swap_action_columns_def)

definition current_indexes :: "string \<rightharpoonup> string \<times> string list" where
  "current_indexes = [''withdrawals_confirmed_height'' \<mapsto> (''withdrawals'', [''confirmed_height'']),
     ''swap_actions_confirmed_height'' \<mapsto> (''swap_actions'', [''confirmed_height'']),
     ''swap_actions_swap_id'' \<mapsto> (''swap_actions'', [''swap_id'', ''created_at''])]"

text \<open>The columns of a table that is there already, with the two that \<open>withdrawals\<close> may lack behind them.\<close>

definition completed :: "string \<Rightarrow> string list \<Rightarrow> string list" where
  "completed table columns = (if table = ''withdrawals''
     then columns @ filter (\<lambda>n. n \<notin> set columns) [''confirmed_height'', ''confirmed_block_id''] else columns)"

lemma completed_twice: "completed table (completed table cs) = completed table cs"
  by (auto simp: completed_def)

lemma completed_current: "current_tables table = Some cs \<Longrightarrow> completed table cs = cs"
  by (auto simp: completed_def current_tables_eq withdrawal_columns_def split: if_splits)

text \<open>The schema of the current version: what was there is kept, what was missing is there.\<close>

definition migrated :: "schema \<Rightarrow> schema" where
  "migrated c = c\<lparr>sv_rows := map (\<lambda>_. 3) (if sv_rows c = [] then [1] else sv_rows c),
     sv_tables := (\<lambda>table. case sv_tables c table of None \<Rightarrow> current_tables table | Some cs \<Rightarrow> Some (completed table cs)),
     sv_indexes := current_indexes ++ sv_indexes c\<rparr>"

lemma migrated_twice: "migrated (migrated c) = migrated c"
  by (auto simp: migrated_def fun_eq_iff completed_twice completed_current map_add_def split: option.split)

text \<open>An earlier layout: a table that is there has the columns the script relies on.\<close>

definition earlier_layout :: "schema \<Rightarrow> bool" where
  "earlier_layout c \<longleftrightarrow> (sv_tables c ''schema_version'' = None \<or> has_columns ''schema_version'' [''version''] c) \<and>
     (sv_tables c ''swap_actions'' = None \<or> has_columns ''swap_actions'' [''confirmed_height'', ''swap_id'', ''created_at''] c)"

text \<open>A file system and a database engine that do what they are asked.\<close>

definition database_works :: "('x, 'z) node_env_scheme \<Rightarrow> bool" where
  "database_works E \<longleftrightarrow> (\<forall>w. fst (db_fault E w) = None \<and> (\<forall>r path. \<exists>bound. fst (open_resource E r path w) = Inr bound))"

text \<open>A step of \<open>Open\<close> from the schema \<open>c\<close>: it ends as \<open>Q\<close> says, or with an error on the way to \<open>goal\<close>,
  which needs a fault outside or a layout that is none of the earlier ones.\<close>

definition migrates :: "('x, 'z) node_env_scheme \<Rightarrow> schema \<Rightarrow> schema \<Rightarrow> ('x, 'a) b \<Rightarrow> ('a \<Rightarrow> schema \<Rightarrow> bool) \<Rightarrow> bool" where
  "migrates E goal c m Q \<longleftrightarrow> (\<forall>s r t. schema s = c \<longrightarrow> m s = (r, t) \<longrightarrow>
     (case r of Ok a \<Rightarrow> Q a (schema t)
      | Err _ \<Rightarrow> migrated (schema t) = goal \<and> (database_works E \<longrightarrow> \<not> earlier_layout c) | _ \<Rightarrow> False))"

lemma migratesD:
  assumes "migrates E goal c m Q" and "schema s = c" and "m s = (r, t)"
  shows "case r of Ok a \<Rightarrow> Q a (schema t)
    | Err _ \<Rightarrow> migrated (schema t) = goal \<and> (database_works E \<longrightarrow> \<not> earlier_layout c) | _ \<Rightarrow> False"
  using assms unfolding migrates_def by blast

lemma migrates_bnd:
  assumes "migrates E goal c m P" and "\<And>a d. P a d \<Longrightarrow> (earlier_layout c \<longrightarrow> earlier_layout d) \<and> migrates E goal d (f a) Q"
  shows "migrates E goal c (bnd m f) Q"
  unfolding migrates_def
proof (intro allI impI)
  fix s r t
  assume c: "schema s = c" and run: "bnd m f s = (r, t)"
  obtain r' u where m: "m s = (r', u)" by fastforce
  note one = migratesD [OF assms(1) c m]
  show "case r of Ok a \<Rightarrow> Q a (schema t)
    | Err _ \<Rightarrow> migrated (schema t) = goal \<and> (database_works E \<longrightarrow> \<not> earlier_layout c) | _ \<Rightarrow> False"
  proof (cases r')
    case (Ok a)
    with one have "P a (schema u)" by simp
    note two = assms(2) [OF this]
    moreover have "f a u = (r, t)" using run m Ok by (simp add: bnd_def)
    ultimately show ?thesis using migratesD [OF conjunct2 [OF two] refl] by (cases r) fastforce+
  qed (use one run m in \<open>auto simp: bnd_def\<close>)
qed

lemma statement_schema:
  assumes "on_daemon (statement E) s = (r, t)"
  shows "schema t = schema s \<and> (r = Ok () \<or> (\<exists>e. r = Err e) \<and> \<not> database_works E)"
proof -
  obtain f x where "db_fault E (world (daemon s)) = (f, x)" by fastforce
  moreover from this have "database_works E \<Longrightarrow> f = None" unfolding database_works_def by (metis fst_conv)
  ultimately show ?thesis
    using assms by (auto simp: on_daemon_def statement_def ext_err_def ext_def bnd_def lift_err_def
        split: prod.splits option.splits)
qed

lemma migrates_statement:
  assumes "migrated c = goal" and "earlier_layout c \<Longrightarrow> admits c"
  shows "migrates E goal c (schema_statement E admits f) (\<lambda>_ d. d = f c \<and> admits c)"
  unfolding migrates_def
proof (intro allI impI)
  fix s :: "'a boot" and r t
  assume c: "schema s = c" and run: "schema_statement E admits f s = (r, t)"
  obtain r' u where st: "on_daemon (statement E) s = (r', u)" by fastforce
  from statement_schema [OF st] run c assms st
  show "case r of Ok _ \<Rightarrow> schema t = f c \<and> admits c
    | Err _ \<Rightarrow> migrated (schema t) = goal \<and> (database_works E \<longrightarrow> \<not> earlier_layout c) | _ \<Rightarrow> False"
    by (cases "admits c") (auto simp: schema_statement_def bnd_def guard_err_def)
qed

text \<open>The stages of \<open>Open\<close>.\<close>

definition with_rows :: "schema \<Rightarrow> schema" where
  "with_rows c = c\<lparr>sv_rows := (if sv_rows c = [] then [1] else sv_rows c)\<rparr>"

definition with_table :: "string \<Rightarrow> string list \<Rightarrow> schema \<Rightarrow> schema" where
  "with_table table columns c =
     (if sv_tables c table = None then c\<lparr>sv_tables := (sv_tables c)(table \<mapsto> columns)\<rparr> else c)"

definition with_column :: "string \<Rightarrow> schema \<Rightarrow> schema" where
  "with_column name c = c\<lparr>sv_tables := (sv_tables c)(''withdrawals'' :=
     map_option (\<lambda>cs. if name \<in> set cs then cs else cs @ [name]) (sv_tables c ''withdrawals''))\<rparr>"

definition with_index :: "string \<Rightarrow> string \<Rightarrow> string list \<Rightarrow> schema \<Rightarrow> schema" where
  "with_index name table columns c =
     (if sv_indexes c name = None then c\<lparr>sv_indexes := (sv_indexes c)(name \<mapsto> (table, columns))\<rparr> else c)"

lemmas stage_defs = with_rows_def with_table_def with_column_def with_index_def
lemmas layout_defs = earlier_layout_def has_columns_def

lemma rows_stage: "migrated (with_rows c) = migrated c" "earlier_layout (with_rows c) = earlier_layout c"
  by (simp_all add: migrated_def with_rows_def layout_defs)

lemma table_stage:
  assumes "current_tables table = Some columns"
  shows "migrated (with_table table columns c) = migrated c" "earlier_layout c \<Longrightarrow> earlier_layout (with_table table columns c)"
proof -
  have "completed table columns = columns" by (rule completed_current [OF assms])
  with assms show "migrated (with_table table columns c) = migrated c"
    by (auto simp: migrated_def with_table_def fun_eq_iff split: option.split)
  show "earlier_layout c \<Longrightarrow> earlier_layout (with_table table columns c)"
    using assms by (auto simp: layout_defs with_table_def current_tables_eq swap_action_columns_def split: if_splits option.splits)
qed

lemma column_stage:
  "migrated (with_column ''confirmed_height'' c) = migrated c"
  "sv_tables c ''withdrawals'' = Some cs \<Longrightarrow> ''confirmed_height'' \<in> set cs \<Longrightarrow>
    migrated (with_column ''confirmed_block_id'' c) = migrated c"
  "earlier_layout (with_column name c) = earlier_layout c"
proof -
  have completed: "completed ''withdrawals'' (if ''confirmed_height'' \<in> set cs then cs else cs @ [''confirmed_height''])
      = completed ''withdrawals'' cs" for cs
    by (simp add: completed_def)
  show "migrated (with_column ''confirmed_height'' c) = migrated c"
    unfolding migrated_def with_column_def by (simp add: fun_eq_iff completed split: option.split)
  have completed_id: "''confirmed_height'' \<in> set cs \<Longrightarrow> ''confirmed_block_id'' \<notin> set cs \<Longrightarrow>
      completed ''withdrawals'' (cs @ [''confirmed_block_id'']) = completed ''withdrawals'' cs" for cs
    by (simp add: completed_def)
  show "sv_tables c ''withdrawals'' = Some cs \<Longrightarrow> ''confirmed_height'' \<in> set cs \<Longrightarrow>
    migrated (with_column ''confirmed_block_id'' c) = migrated c"
    unfolding migrated_def with_column_def
    by (intro schema.equality) (auto simp: fun_eq_iff completed_id split: option.split)
  show "earlier_layout (with_column name c) = earlier_layout c"
    by (simp add: layout_defs with_column_def)
qed

lemma index_stage:
  assumes "current_indexes name = Some (table, columns)"
  shows "migrated (with_index name table columns c) = migrated c" "earlier_layout (with_index name table columns c) = earlier_layout c"
  using assms by (auto simp: migrated_def with_index_def layout_defs map_add_def fun_eq_iff split: option.split)

lemma migrates_weaken:
  assumes "migrates E goal c m P" and "\<And>a d. P a d \<Longrightarrow> Q a d"
  shows "migrates E goal c m Q"
  unfolding migrates_def
proof (intro allI impI)
  fix s r t
  assume "schema s = c" and "m s = (r, t)"
  from migratesD [OF assms(1) this] assms(2) show "case r of Ok a \<Rightarrow> Q a (schema t)
    | Err _ \<Rightarrow> migrated (schema t) = goal \<and> (database_works E \<longrightarrow> \<not> earlier_layout c) | _ \<Rightarrow> False"
    by (cases r) auto
qed

lemma migrates_last:
  assumes "migrated c = goal" and "earlier_layout c \<Longrightarrow> admits c" and "admits c \<Longrightarrow> Q () (f c)"
  shows "migrates E goal c (schema_statement E admits f) Q"
  using migrates_statement [of c goal admits E f, OF assms(1,2)] by (rule migrates_weaken) (use assms(3) in auto)

lemma stage_fields [simp]:
  "sv_tables (with_table t cols c) = (sv_tables c)(t := Some (case sv_tables c t of None \<Rightarrow> cols | Some cs \<Rightarrow> cs))"
  "sv_rows (with_table t cols c) = sv_rows c" "sv_indexes (with_table t cols c) = sv_indexes c"
  "sv_tables (with_rows c) = sv_tables c" "sv_rows (with_rows c) = (if sv_rows c = [] then [1] else sv_rows c)"
  "sv_indexes (with_rows c) = sv_indexes c"
  "sv_tables (with_column name c) = (sv_tables c)(''withdrawals'' :=
     map_option (\<lambda>cs. if name \<in> set cs then cs else cs @ [name]) (sv_tables c ''withdrawals''))"
  "sv_rows (with_column name c) = sv_rows c" "sv_indexes (with_column name c) = sv_indexes c"
  "sv_tables (with_index name t cols c) = sv_tables c" "sv_rows (with_index name t cols c) = sv_rows c"
  "sv_indexes (with_index name t cols c) = (sv_indexes c)(name := Some (case sv_indexes c name of None \<Rightarrow> (t, cols) | Some x \<Rightarrow> x))"
  by (auto simp: stage_defs fun_eq_iff split: option.split)

lemma stage_steps:
  "create_table E t cols = schema_statement E (\<lambda>_. True) (with_table t cols)"
  "create_index E name t cols = schema_statement E
     (\<lambda>c. has_columns t [] c \<and> (sv_indexes c name \<noteq> None \<or> has_columns t cols c)) (with_index name t cols)"
  by (simp_all add: create_table_def create_index_def with_table_def [abs_def] with_index_def [abs_def])

lemma migrates_then:
  assumes "migrated c = goal" and "earlier_layout c \<Longrightarrow> admits c" and "earlier_layout c \<Longrightarrow> earlier_layout (f c)"
    and "migrates E goal (f c) m Q"
  shows "migrates E goal c (bnd (schema_statement E admits f) (\<lambda>_. m)) Q"
  using assms by (intro migrates_bnd [OF migrates_statement]) auto

definition with_tables :: "schema \<Rightarrow> schema" where
  "with_tables c = with_table ''swap_actions'' swap_action_columns (with_table ''swaps'' swap_columns
     (with_table ''swap_keys'' swap_key_columns (with_table ''withdrawals'' withdrawal_columns
     (with_table ''addresses'' address_columns (with_rows (with_table ''schema_version'' [''version''] c))))))"

lemma tables_stage: "migrated (with_tables c) = migrated c" "earlier_layout c \<Longrightarrow> earlier_layout (with_tables c)"
  unfolding with_tables_def by (simp_all add: table_stage rows_stage current_tables_eq)

lemma migrates_tables: "migrates E (migrated c) c (create_tables E) (\<lambda>_ d. d = with_tables c)"
  unfolding create_tables_def stage_steps with_rows_def [symmetric] with_tables_def
  by (intro migrates_then migrates_last)
    (auto simp: table_stage rows_stage current_tables_eq layout_defs split: option.splits)

lemma migrates_read:
  assumes "sv_tables c ''withdrawals'' = Some cs"
  shows "migrates E (migrated c) c (table_columns E) (\<lambda>a d. a = cs \<and> d = c)"
  unfolding table_columns_def
  by (rule migrates_bnd [where P = "\<lambda>_ d. d = c"])
    (use assms in \<open>auto simp: migrates_def dest!: statement_schema split: outcome.split\<close>)

lemma migrates_column:
  assumes "migrated c = goal" and "sv_tables c ''withdrawals'' = Some ds" and "name \<in> set cs \<longleftrightarrow> name \<in> set ds"
  shows "migrates E goal c (add_column E cs name) (\<lambda>_ d. d = with_column name c)"
proof (cases "name \<in> set cs")
  case True
  with assms have "with_column name c = c" by (simp add: with_column_def fun_upd_idem)
  with True show ?thesis by (auto simp: add_column_def migrates_def)
next
  case False
  with assms have "with_column name c = c\<lparr>sv_tables := (sv_tables c)(''withdrawals'' := map_option (\<lambda>cs. cs @ [name]) (sv_tables c ''withdrawals''))\<rparr>"
    by (simp add: with_column_def)
  with False assms show ?thesis by (auto simp: add_column_def has_columns_def intro!: migrates_last)
qed

definition with_indexes :: "schema \<Rightarrow> schema" where
  "with_indexes c = with_index ''swap_actions_swap_id'' ''swap_actions'' [''swap_id'', ''created_at'']
     (with_index ''swap_actions_confirmed_height'' ''swap_actions'' [''confirmed_height'']
     (with_index ''withdrawals_confirmed_height'' ''withdrawals'' [''confirmed_height''] c))"

lemma migrates_indexes:
  assumes "sv_tables c ''withdrawals'' = Some cs" "''confirmed_height'' \<in> set cs" "sv_tables c ''swap_actions'' \<noteq> None"
    and "sv_tables c ''schema_version'' \<noteq> None"
  shows "migrates E (migrated c) c (create_indexes E) (\<lambda>_ d. d = (with_indexes c)\<lparr>sv_rows := map (\<lambda>_. 3) (sv_rows c)\<rparr>)"
  unfolding create_indexes_def stage_steps with_indexes_def
  by (intro migrates_then migrates_last)
    (use assms in \<open>auto simp: index_stage current_indexes_def layout_defs\<close>)

lemma migrates_exact:
  assumes "migrates E goal c m (\<lambda>a d. a = v \<and> d = c')" and "earlier_layout c \<Longrightarrow> earlier_layout c'" and "migrates E goal c' (f v) Q"
  shows "migrates E goal c (bnd m f) Q"
  by (rule migrates_bnd [OF assms(1)]) (use assms(2,3) in auto)

lemma migrates_exact_unit:
  "migrates E goal c m (\<lambda>_ d. d = c') \<Longrightarrow> (earlier_layout c \<Longrightarrow> earlier_layout c') \<Longrightarrow> migrates E goal c' (f ()) Q \<Longrightarrow>
    migrates E goal c (bnd m f) Q"
  by (rule migrates_exact [where v = "()"]) auto

lemma released_fail: "bnd (release_all E [r]) (\<lambda>_. fail e) v = (q, w) \<Longrightarrow> q = Err e \<and> schema w = schema v"
  by (auto simp: release_all_def release_def call_def bnd_def split: prod.splits)

text \<open>Every stage is on the way to the current schema, and the last one is there.\<close>

lemma stages_end:
  fixes c :: schema
  defines "d \<equiv> with_column ''confirmed_block_id'' (with_column ''confirmed_height'' (with_tables c))"
  shows "(with_indexes d)\<lparr>sv_rows := map (\<lambda>_. 3) (sv_rows d)\<rparr> = migrated c"
proof (rule schema.equality)
  show "sv_tables ((with_indexes d)\<lparr>sv_rows := map (\<lambda>_. 3) (sv_rows d)\<rparr>) = sv_tables (migrated c)"
    by (rule ext) (auto simp: d_def with_indexes_def with_tables_def migrated_def current_tables_eq completed_def
        withdrawal_columns_def split: option.split)
  show "sv_indexes ((with_indexes d)\<lparr>sv_rows := map (\<lambda>_. 3) (sv_rows d)\<rparr>) = sv_indexes (migrated c)"
    by (rule ext) (auto simp: d_def with_indexes_def with_tables_def migrated_def current_indexes_def map_add_def split: option.split)
qed (simp_all add: d_def with_tables_def migrated_def)

lemma migrates_open:
  "migrates E (migrated c) c (bnd (create_tables E) (\<lambda>_. bnd (table_columns E) (\<lambda>columns.
     bnd (add_column E columns ''confirmed_height'') (\<lambda>_. bnd (add_column E columns ''confirmed_block_id'') (\<lambda>_.
     create_indexes E))))) (\<lambda>_ d. d = migrated c)"
proof -
  let ?c = "with_tables c"
  obtain cs where cs: "sv_tables ?c ''withdrawals'' = Some cs" by (simp add: with_tables_def)
  let ?h = "with_column ''confirmed_height'' ?c" let ?b = "with_column ''confirmed_block_id'' ?h"
  let ?hs = "if ''confirmed_height'' \<in> set cs then cs else cs @ [''confirmed_height'']"
  have hs: "sv_tables ?h ''withdrawals'' = Some ?hs" using cs by simp
  have h: "migrated ?h = migrated c" and b: "migrated ?b = migrated c"
    using column_stage(2) [OF hs] by (simp_all add: column_stage(1) tables_stage)
  note last_step = migrates_indexes [of ?b _ E, unfolded b stages_end]
  have read: "migrates E (migrated c) ?c (table_columns E) (\<lambda>a d. a = cs \<and> d = ?c)"
    using migrates_read [OF cs, of E] by (simp add: tables_stage)
  have h_col: "migrates E (migrated c) ?c (add_column E cs ''confirmed_height'') (\<lambda>_ d. d = ?h)"
    by (rule migrates_column [OF _ cs]) (simp_all add: tables_stage)
  have b_col: "migrates E (migrated c) ?h (add_column E cs ''confirmed_block_id'') (\<lambda>_ d. d = ?b)"
    by (rule migrates_column [OF h hs]) simp
  have "migrates E (migrated c) ?b (create_indexes E) (\<lambda>_ d. d = migrated c)"
    by (rule last_step) (use cs in \<open>auto simp: with_tables_def\<close>)
  then show ?thesis
    by (intro migrates_exact_unit [OF migrates_tables] migrates_exact [OF read] migrates_exact_unit [OF h_col]
        migrates_exact_unit [OF b_col]) (simp_all add: column_stage tables_stage)
qed

text \<open>
  C38. Opening the database brings every earlier layout to the current one. \<open>Open\<close> always comes back.
  With success the schema is the current one: all six tables and all three indexes are there, those
  that were there before with their columns, \<open>withdrawals\<close> with the confirmation columns behind them,
  and the version is 3; no row is touched, and opening again changes nothing. An error on the way, at
  whichever statement, leaves a database that the next opening brings to the same schema; and there is
  one only where the file or the engine fails or the layout is none of the earlier ones.
\<close>

theorem database_migrated:
  assumes "open_store E path s = (r, t)"
  shows "tables (daemon t) = tables (daemon s) \<and> migrated (migrated (schema s)) = migrated (schema s) \<and>
    (case r of Ok _ \<Rightarrow> schema t = migrated (schema s)
     | Err _ \<Rightarrow> migrated (schema t) = migrated (schema s) \<and> (database_works E \<longrightarrow> \<not> earlier_layout (schema s))
     | _ \<Rightarrow> False)"
proof -
  let ?c = "schema s"
  obtain r0 u where get: "acquire E RecordsDB path s = (r0, u)" by fastforce
  obtain q x where opens: "open_resource E RecordsDB path (world (daemon s)) = (q, x)" by fastforce
  then have "database_works E \<Longrightarrow> \<exists>bound. q = Inr bound" unfolding database_works_def by (metis fst_conv)
  with opens have kept: "schema u = ?c" "(\<exists>a. r0 = Ok a) \<or> (\<exists>e. r0 = Err e) \<and> \<not> database_works E"
    using get by (cases q; auto simp: acquire_def call_sum_def call_def failed_def bnd_def mod_st_app)+
  have tables: "tables (daemon t) = tables (daemon s)"
    by (rule same_rows_D [OF same_rows.kept_store(1) assms])
  have twice: "migrated (migrated ?c) = migrated ?c"
    by (rule migrated_twice)
  show ?thesis
  proof (cases r0)
    case (Ok a)
    let ?body = "bnd (create_tables E) (\<lambda>_. bnd (table_columns E) (\<lambda>columns.
        bnd (add_column E columns ''confirmed_height'') (\<lambda>_. bnd (add_column E columns ''confirmed_block_id'') (\<lambda>_. create_indexes E))))"
    obtain r1 v where body: "?body u = (r1, v)" by fastforce
    note out = migratesD [OF migrates_open [of E ?c] kept(1) body]
    moreover have "or_release E [RecordsDB] ?body u = (r, t)"
      using assms get Ok by (simp add: open_store_def bnd_def)
    ultimately show ?thesis
      using body tables twice by (cases r1) (auto simp: or_release_def dest!: released_fail)
  qed (use assms get kept tables twice in \<open>auto simp: open_store_def bnd_def\<close>)
qed

section \<open>The API token\<close>

lemma hex_text: "hex_decode s = Some bs \<Longrightarrow> c \<in> set s \<Longrightarrow> byte_of c < 128 \<and> \<not> is_space (byte_of c)"
proof (induction s arbitrary: bs rule: hex_decode.induct)
  case (3 a b s)
  have digit: "byte_of c < 128 \<and> \<not> is_space (byte_of c)" if "hex_value c = Some x" for c x
    using that by (auto simp: hex_value_def is_space_def Let_def split: if_splits)
  from "3.prems"(1) obtain x y bs' where d: "hex_value a = Some x" "hex_value b = Some y" "hex_decode s = Some bs'"
    by (auto split: option.splits)
  with "3.prems"(2) "3.IH" digit [OF d(1)] digit [OF d(2)] show ?case by auto
qed simp_all

lemma hex_untrimmed: "hex_decode s = Some bs \<Longrightarrow> trim_space s = s"
  using hex_text [of s bs] by (intro trim_space_tight) (auto simp: ascii_def list_all_iff)

lemma token_of_Inr:
  "token_of content = Inr token \<longleftrightarrow> token = trim_space content \<and> (\<exists>raw. hex_decode token = Some raw \<and> length raw = 32)"
  by (auto simp: token_of_def Let_def split: option.splits if_splits)

lemma token_fixed: "token_of content = Inr token \<Longrightarrow> token_of token = Inr token \<and> length token = 64"
  by (auto simp: token_of_Inr hex_untrimmed dest: hex_decode_length)

text \<open>
  C39. The token survives: the token the API runs with is 64 hexadecimal digits for 32 bytes; it is the
  trimmed content of the file, or on the first start the digits of fresh random bytes, of which the
  file holds exactly the digits; and reading a file with these digits gives the same token again. Any
  other content of the file stops the start.
\<close>

theorem token_survives:
  assumes "load_or_create_token E path s = (Ok token, t)"
  shows "length token = 64 \<and> (\<exists>raw. hex_decode token = Some raw \<and> length raw = 32) \<and> token_of token = Inr token \<and>
    (case read_file E path (world (daemon s)) of
       (Inr content, _) \<Rightarrow> token = trim_space content
     | (Inl e, w) \<Rightarrow> is_not_exist E e \<and> (\<exists>entropy w'. random_bytes E w = (Inr entropy, w') \<and> token = hex_encode entropy \<and>
         fst (create_file E path token w') = None))"
proof -
  from assms obtain found content u v where read: "call (read_file E path) s = (Ok found, u)"
    and got: "(case found of Inr content \<Rightarrow> ret content
       | Inl e \<Rightarrow> if is_not_exist E e then
             bnd (call_sum (random_bytes E)) (\<lambda>entropy. let content = hex_encode entropy in
             bnd (call_err (create_file E path content)) (\<lambda>_. ret content))
           else fail (Failed e)) u = (Ok content, v)"
    and tok: "token_of content = Inr token"
    unfolding load_or_create_token_def bnd_Ok_iff lift_sum_Ok_iff by blast
  from read have contents: "read_file E path (world (daemon s)) = (found, world (daemon u))"
    by (auto simp: call_def split: prod.splits)
  have "case found of Inr content \<Rightarrow> token = trim_space content
     | Inl e \<Rightarrow> is_not_exist E e \<and> (\<exists>entropy w'. random_bytes E (world (daemon u)) = (Inr entropy, w') \<and> token = hex_encode entropy \<and>
         fst (create_file E path token w') = None)"
  proof (cases found)
    case (Inl e)
    from got Inl obtain entropy u' x where e: "is_not_exist E e" and fresh: "call_sum (random_bytes E) u = (Ok entropy, u')"
      and kept: "call_err (create_file E path (hex_encode entropy)) u' = (Ok x, v)" and c: "content = hex_encode entropy"
      by (auto simp: Let_def bnd_Ok_iff split: if_splits)
    from tok c have token: "token = hex_encode entropy" by (auto simp: token_of_Inr hex_untrimmed [OF hex_roundtrip])
    have "random_bytes E (world (daemon u)) = (Inr entropy, world (daemon u'))"
      using fresh by (auto simp: call_sum_def call_def bnd_Ok_iff failed_Ok split: prod.splits)
    moreover have "create_file E path (hex_encode entropy) (world (daemon u')) = (None, world (daemon v))"
      using kept by (auto simp: call_err_def call_def bnd_Ok_iff lift_err_Ok_iff split: prod.splits)
    ultimately show ?thesis using Inl e token by simp
  qed (use got tok in \<open>auto simp: token_of_Inr\<close>)
  with contents tok token_fixed [OF tok] show ?thesis
    by (auto simp: token_of_Inr split: sum.splits)
qed

end
