(* ===== verification/Watch_Facts.thy ===== *)
theory Watch_Facts
  imports Program_Facts
begin

text \<open>
  The registration of the stored addresses and contracts with the wallet index when the node is
  opened: nothing that is stored is left unwatched, and the paging always ends.
\<close>

text \<open>
  What the wallet index promises: a batch that is accepted is watched by the wallet, in the set
  \<open>reg\<close> reads off the world, and nothing is forgotten.
\<close>

definition watch_laws :: "('x, 'z) env_scheme \<Rightarrow> ('x \<Rightarrow> (nat \<times> wallet_address) set) \<Rightarrow> bool" where
  "watch_laws E reg \<longleftrightarrow>
     (\<forall>wid as w. reg w \<subseteq> reg (snd (wm_add_addresses E wid as w)) \<and>
        (fst (wm_add_addresses E wid as w) = None \<longrightarrow> Pair wid ` set as \<subseteq> reg (snd (wm_add_addresses E wid as w)))) \<and>
     (\<forall>w. reg w \<subseteq> reg (snd (db_fault E w)))"

section \<open>One batch\<close>

text \<open>Both loops of \<open>OpenNode\<close>: a page is read, turned into entries and handed to the index.\<close>

definition register_batch :: "('x, 'z) node_env_scheme \<Rightarrow> nat \<Rightarrow> (int \<Rightarrow> ('x sys, 'a list) m) \<Rightarrow>
    ('a list \<Rightarrow> ('x, wallet_address list) b) \<Rightarrow> (int \<Rightarrow> string) \<Rightarrow> int \<Rightarrow> ('x, int + unit) b" where
  "register_batch E wid pg mk msg offset =
     bnd (on_daemon (pg offset)) (\<lambda>found.
     if found = [] then ret (Inr ()) else
     bnd (mk found) (\<lambda>batch.
     bnd (in_context (msg offset) (call_err (wm_add_addresses E wid batch))) (\<lambda>_.
     ret (if int (length found) < batch_size then Inr () else Inl (offset + batch_size)))))"

lemma batches:
  "address_batch E wid = register_batch E wid (addresses_page E batch_size) (\<lambda>found. ret (map (custody_entry E) found))
     (\<lambda>offset. ''register address batch at offset '' @ decimal_digits (nat offset) @ '': '')"
  "swap_batch E wid = register_batch E wid (swaps_page E batch_size) (map_c (\<lambda>sw. lift_sum (swap_entry E sw)))
     (\<lambda>offset. ''register atomic-swap batch at offset '' @ decimal_digits (nat offset) @ '': '')"
  by (rule ext, simp only: address_batch_def swap_batch_def register_batch_def bnd_ret)+

lemma map_c_lift: "map_c (\<lambda>x. lift_sum (g x)) xs s = (Ok ys, t) \<Longrightarrow> t = s \<and> list_all2 (\<lambda>x y. g x = Inr y) xs ys"
  by (induction xs arbitrary: ys s) (auto simp: bnd_Ok_iff lift_sum_Ok_iff)

lemma context_Ok: "in_context msg m s = (Ok a, t) \<longleftrightarrow> m s = (Ok a, t)"
  by (auto simp: in_context_def split: prod.splits outcome.splits)

lemma call_err_Ok: "call_err f s = (Ok a, t) \<Longrightarrow>
    f (world (daemon s)) = (None, world (daemon t)) \<and> tables (daemon t) = tables (daemon s)"
  by (auto simp: call_err_def call_def bnd_Ok_iff lift_err_Ok_iff split: prod.splits)

text \<open>The rows of a table in the order of the paging, the scan of a row, and the entry for it.\<close>

definition pages_of :: "(int \<Rightarrow> ('x sys, 'a list) m) \<Rightarrow> ('x \<Rightarrow> 'w set) \<Rightarrow> (store \<Rightarrow> 'r list) \<Rightarrow> ('r \<Rightarrow> error + 'a) \<Rightarrow> bool" where
  "pages_of pg reg rows scan \<longleftrightarrow> (\<forall>k s found t. pg k s = (Ok found, t) \<longrightarrow>
     tables t = tables s \<and> reg (world s) \<subseteq> reg (world t) \<and>
     list_all2 (\<lambda>r a. scan r = Inr a) (page batch_size k (rows (tables s))) found)"

definition watched :: "('x \<Rightarrow> (nat \<times> wallet_address) set) \<Rightarrow> nat \<Rightarrow> ('r \<Rightarrow> error + 'a) \<Rightarrow> ('a \<Rightarrow> boot_error + wallet_address) \<Rightarrow> 'x boot \<Rightarrow> 'r \<Rightarrow> bool" where
  "watched reg wid scan wrap s r \<longleftrightarrow> (\<exists>a e. scan r = Inr a \<and> wrap a = Inr e \<and> (wid, e) \<in> reg (world (daemon s)))"

lemma statement_reg: "watch_laws E reg \<Longrightarrow> statement E s = (Ok (), t) \<Longrightarrow> tables t = tables s \<and> reg (world s) \<subseteq> reg (world t)"
  by (auto simp: watch_laws_def statement_Ok_iff) (metis snd_conv subsetD)

lemma pages:
  assumes "watch_laws E reg"
  shows "pages_of (addresses_page E batch_size) reg (\<lambda>st. sort_key ar_index (t_addresses st)) (decode_address E)"
    and "pages_of (swaps_page E batch_size) reg (\<lambda>st. rev (sort_key (\<lambda>r. (sr_created r, sr_swap r)) (t_swaps st))) (scan_swap E)"
  by (auto simp: pages_of_def addresses_page_def swaps_page_def bnd_Ok_iff lift_sum_Ok_iff scan_rows_iff guard_err_Ok_iff
      dest: statement_reg [OF assms])

lemma watched_mono: "watched reg wid scan wrap s r \<Longrightarrow> reg (world (daemon s)) \<subseteq> reg (world (daemon t)) \<Longrightarrow> watched reg wid scan wrap t r"
  unfolding watched_def by blast

lemma list_all2_partner: "list_all2 P xs ys \<Longrightarrow> x \<in> set xs \<Longrightarrow> \<exists>y\<in>set ys. P x y"
  by (induction rule: list_all2_induct) auto

lemma batch_step:
  assumes laws: "watch_laws E reg" and pgs: "pages_of pg reg rows scan"
    and mk: "\<And>found s batch t. mk found s = (Ok batch, t) \<Longrightarrow> t = s \<and> list_all2 (\<lambda>a e. wrap a = Inr e) found batch"
    and k: "0 \<le> k" and run: "register_batch E wid pg mk msg k s = (Ok r, t)"
  shows "tables (daemon t) = tables (daemon s) \<and> reg (world (daemon s)) \<subseteq> reg (world (daemon t)) \<and>
    (\<forall>row\<in>set (page batch_size k (rows (tables (daemon s)))). watched reg wid scan wrap t row) \<and>
    (case r of Inl k' \<Rightarrow> k' = k + batch_size \<and> k < int (length (rows (tables (daemon s))))
      | Inr _ \<Rightarrow> int (length (rows (tables (daemon s)))) \<le> k + batch_size)"
proof -
  let ?R = "rows (tables (daemon s))"
  from run obtain found u where pg: "on_daemon (pg k) s = (Ok found, u)"
    and rest: "(if found = [] then ret (Inr ()) else bnd (mk found) (\<lambda>batch.
      bnd (in_context (msg k) (call_err (wm_add_addresses E wid batch))) (\<lambda>_.
      ret (if int (length found) < batch_size then Inr () else Inl (k + batch_size))))) u = (Ok r, t)"
    unfolding register_batch_def bnd_Ok_iff by blast
  from pgs on_daemon_Ok [OF pg] have u: "tables (daemon u) = tables (daemon s)" "reg (world (daemon s)) \<subseteq> reg (world (daemon u))"
    and found: "list_all2 (\<lambda>r a. scan r = Inr a) (page batch_size k ?R) found"
    unfolding pages_of_def by blast+
  from list_all2_lengthD [OF found] have len: "length found = min 1000 (length ?R - nat k)"
    by (simp add: page_def batch_size_def)
  show ?thesis
  proof (cases "found = []")
    case True
    with rest found have "r = Inr ()" "t = u" "page batch_size k ?R = []" by auto
    with True u len k show ?thesis by (simp add: batch_size_def)
  next
    case False
    with rest obtain batch v where mkd: "mk found u = (Ok batch, v)"
      and add: "call_err (wm_add_addresses E wid batch) v = (Ok (), t)"
      and r: "r = (if int (length found) < batch_size then Inr () else Inl (k + batch_size))"
      by (auto simp: bnd_Ok_iff context_Ok)
    from mk [OF mkd] have v: "v = u" and wrap: "list_all2 (\<lambda>a e. wrap a = Inr e) found batch" by auto
    from laws call_err_Ok [OF add] have t: "tables (daemon t) = tables (daemon u)" "reg (world (daemon u)) \<subseteq> reg (world (daemon t))"
      and new: "Pair wid ` set batch \<subseteq> reg (world (daemon t))"
      unfolding watch_laws_def v by (metis fst_conv snd_conv)+
    have "watched reg wid scan wrap t row" if "row \<in> set (page batch_size k ?R)" for row
    proof -
      from list_all2_partner [OF found that] obtain a where "a \<in> set found" "scan row = Inr a" by blast
      moreover from list_all2_partner [OF wrap this(1)] obtain e where "e \<in> set batch" "wrap a = Inr e" by blast
      ultimately show ?thesis using new unfolding watched_def by blast
    qed
    moreover have "case r of Inl k' \<Rightarrow> k' = k + batch_size \<and> k < int (length ?R) | Inr _ \<Rightarrow> int (length ?R) \<le> k + batch_size"
      using r len k by (auto simp: batch_size_def)
    ultimately show ?thesis using u t by auto
  qed
qed

section \<open>The whole table\<close>

lemma batches_watched:
  assumes laws: "watch_laws E reg" and pgs: "pages_of pg reg rows scan"
    and mk: "\<And>found s batch t. mk found s = (Ok batch, t) \<Longrightarrow> t = s \<and> list_all2 (\<lambda>a e. wrap a = Inr e) found batch"
    and run: "loop (register_batch E wid pg mk msg) 0 s = (Ok (), t)"
  shows "tables (daemon t) = tables (daemon s) \<and> reg (world (daemon s)) \<subseteq> reg (world (daemon t)) \<and>
    (\<forall>row\<in>set (rows (tables (daemon s))). watched reg wid scan wrap t row)"
proof (rule loop_yields [OF _ _ run, where
      I = "\<lambda>k u. 0 \<le> k \<and> tables (daemon u) = tables (daemon s) \<and> reg (world (daemon s)) \<subseteq> reg (world (daemon u)) \<and>
        (\<forall>row\<in>set (take (nat k) (rows (tables (daemon s)))). watched reg wid scan wrap u row)"])
  fix k u r v
  let ?R = "rows (tables (daemon s))"
  assume I: "0 \<le> k \<and> tables (daemon u) = tables (daemon s) \<and> reg (world (daemon s)) \<subseteq> reg (world (daemon u)) \<and>
      (\<forall>row\<in>set (take (nat k) ?R). watched reg wid scan wrap u row)"
    and step: "register_batch E wid pg mk msg k u = (Ok r, v)"
  from I have same: "tables (daemon u) = tables (daemon s)" and k: "0 \<le> k" by blast+
  from batch_step [OF laws pgs mk k step, unfolded same]
  have s: "tables (daemon v) = tables (daemon s)" "reg (world (daemon u)) \<subseteq> reg (world (daemon v))"
    and page: "\<forall>row\<in>set (page batch_size k ?R). watched reg wid scan wrap v row"
    and next_k: "case r of Inl k' \<Rightarrow> k' = k + batch_size \<and> k < int (length ?R) | Inr _ \<Rightarrow> int (length ?R) \<le> k + batch_size"
    by blast+
  have "take (nat (k + batch_size)) ?R = take (nat k) ?R @ page batch_size k ?R"
    using I by (simp add: page_def batch_size_def nat_add_distrib take_add)
  then have all_done: "\<forall>row\<in>set (take (nat (k + batch_size)) ?R). watched reg wid scan wrap v row"
    using I page by (auto intro: watched_mono [OF _ s(2)])
  show "case r of Inl k' \<Rightarrow> 0 \<le> k' \<and> tables (daemon v) = tables (daemon s) \<and> reg (world (daemon s)) \<subseteq> reg (world (daemon v)) \<and>
        (\<forall>row\<in>set (take (nat k') ?R). watched reg wid scan wrap v row)
      | Inr _ \<Rightarrow> tables (daemon v) = tables (daemon s) \<and> reg (world (daemon s)) \<subseteq> reg (world (daemon v)) \<and>
        (\<forall>row\<in>set ?R. watched reg wid scan wrap v row)"
    using next_k all_done s I by (cases r) (auto simp: batch_size_def)
qed simp

lemma returns_call: "returns (call f)"
  by (auto simp: returns_def call_def split: prod.splits)

lemma returns_failed: "returns (failed r)"
  by (auto simp: failed_def intro: returns_intros split: sum.split)

lemma returns_context: "returns m \<Longrightarrow> returns (in_context msg m)"
  by (auto simp: returns_def in_context_def split: prod.split outcome.split) (metis fst_conv)+

lemma returns_daemon: "returns m \<Longrightarrow> returns (on_daemon m)"
  by (auto simp: returns_def on_daemon_def split: prod.split outcome.split) (metis fst_conv)+

lemma returns_boot_calls: "returns (call_sum f)" "returns (call_err g)"
  unfolding call_sum_def call_err_def lift_err_def by (intro returns_intros returns_call returns_failed)+

lemma batches_return:
  fixes wrap :: "'a \<Rightarrow> boot_error + wallet_address"
  assumes laws: "watch_laws E reg" and pgs: "pages_of pg reg rows scan"
    and mk: "\<And>found s batch t. mk found s = (Ok batch, t) \<Longrightarrow> t = s \<and> list_all2 (\<lambda>a e. wrap a = Inr e) found batch"
    and ends: "\<And>k. returns (pg k)" "\<And>found. returns (mk found)"
  shows "fst (loop (register_batch E wid pg mk msg) 0 s) \<noteq> Hang"
proof (rule loop_returns [where I = "\<lambda>k _. 0 \<le> k" and mu = "\<lambda>k u. nat (int (length (rows (tables (daemon u)))) - k)"])
  fix k u k' v
  assume k: "(0 :: int) \<le> k" and "register_batch E wid pg mk msg k u = (Ok (Inl k'), v)"
  from batch_step [OF laws pgs mk k this(2)] k
  show "0 \<le> k' \<and> nat (int (length (rows (tables (daemon v)))) - k') < nat (int (length (rows (tables (daemon u)))) - k)"
    by (auto simp: batch_size_def)
next
  fix k u
  have "returns (register_batch E wid pg mk msg k)"
    unfolding register_batch_def by (intro returns_intros returns_daemon returns_context returns_boot_calls ends)
  then show "fst (register_batch E wid pg mk msg k u) \<noteq> Hang" by (rule returnsD)
qed simp

lemma pages_return: "returns (addresses_page E l k)" "returns (swaps_page E l k)"
  unfolding addresses_page_def swaps_page_def guard_err_def lift_sum_def by (intro returns_intros returns_calls)+

lemma wrap_addresses:
  "ret (map (custody_entry E) found) s = (Ok batch, t) \<Longrightarrow>
    t = s \<and> list_all2 (\<lambda>a e. Inr (custody_entry E a) = (Inr e :: boot_error + wallet_address)) found batch"
  by (auto simp: list_all2_conv_all_nth)

lemma registered:
  assumes laws: "watch_laws E reg"
  shows "register_addresses E wid s = (Ok (), t) \<Longrightarrow> tables (daemon t) = tables (daemon s) \<and>
      (\<forall>row\<in>set (t_addresses (tables (daemon s))). watched reg wid (decode_address E) (\<lambda>a. Inr (custody_entry E a)) t row)"
    and "register_contracts E wid s = (Ok (), t) \<Longrightarrow> reg (world (daemon s)) \<subseteq> reg (world (daemon t)) \<and>
      (\<forall>row\<in>set (t_swaps (tables (daemon s))). watched reg wid (scan_swap E) (swap_entry E) t row)"
proof -
  assume "register_addresses E wid s = (Ok (), t)"
  from batches_watched [OF laws pages(1) [OF laws] wrap_addresses [where E = E] this [unfolded register_addresses_def batches]]
  show "tables (daemon t) = tables (daemon s) \<and>
      (\<forall>row\<in>set (t_addresses (tables (daemon s))). watched reg wid (decode_address E) (\<lambda>a. Inr (custody_entry E a)) t row)"
    by simp
next
  assume "register_contracts E wid s = (Ok (), t)"
  from batches_watched [OF laws pages(2) [OF laws] map_c_lift [where g = "swap_entry E"] this [unfolded register_contracts_def batches]]
  show "reg (world (daemon s)) \<subseteq> reg (world (daemon t)) \<and>
      (\<forall>row\<in>set (t_swaps (tables (daemon s))). watched reg wid (scan_swap E) (swap_entry E) t row)"
    by simp
qed

lemma entries_return: "returns (map_c (\<lambda>x. lift_sum (g x)) xs)"
  by (rule returns_map) (simp add: lift_sum_def returns_basic split: sum.split)

lemma registration_returns:
  assumes laws: "watch_laws E reg"
  shows "returns (register_addresses E wid)" and "returns (register_contracts E wid)"
proof -
  show "returns (register_addresses E wid)"
    unfolding returns_def register_addresses_def batches
    by (rule allI, rule batches_return, rule laws, rule pages(1) [OF laws], erule wrap_addresses, rule pages_return, rule returns_basic)
  show "returns (register_contracts E wid)"
    unfolding returns_def register_contracts_def batches
    by (rule allI, rule batches_return, rule laws, rule pages(2) [OF laws], erule map_c_lift, rule pages_return, rule entries_return)
qed

text \<open>
  C37. Nothing that is stored is left unwatched: the registration at the start always ends, however
  long the tables are, and when it succeeds every address row of the store is in the custody wallet
  of the index and every contract row in the swap wallet, each with the policy that its stored keys
  or terms stand for.
\<close>

theorem wallets_watched:
  assumes laws: "watch_laws E reg" and run: "watch_wallets E s = (r, t)"
  shows "r \<noteq> Hang \<and> (case r of
      Ok (custody, swaps) \<Rightarrow>
        (\<forall>row\<in>set (t_addresses (tables (daemon s))). watched reg custody (decode_address E) (\<lambda>a. Inr (custody_entry E a)) t row) \<and>
        (\<forall>row\<in>set (t_swaps (tables (daemon s))). watched reg swaps (scan_swap E) (swap_entry E) t row)
    | _ \<Rightarrow> True)"
proof -
  have "returns (watch_wallets E)"
    unfolding watch_wallets_def ensure_wallet_def
    by (intro returns_intros returns_boot_calls registration_returns [OF laws])
  then have "r \<noteq> Hang" using run returnsD [of "watch_wallets E" s] by auto
  moreover have "(\<forall>row\<in>set (t_addresses (tables (daemon s))). watched reg custody (decode_address E) (\<lambda>a. Inr (custody_entry E a)) t row) \<and>
      (\<forall>row\<in>set (t_swaps (tables (daemon s))). watched reg swaps (scan_swap E) (swap_entry E) t row)"
    if "r = Ok (custody, swaps)" for custody swaps
  proof -
    from run [unfolded that] obtain found s1 w1 s2 w2 s3 s4 and x y :: unit where
      s1: "call_sum (wm_wallets E) s = (Ok found, s1)"
      and s2: "ensure_wallet E (named_wallet ''QDAY Atomic Swaps'' found) ''QDAY Atomic Swaps'' ''qday-walletd contract index partition'' s1 = (Ok w1, s2)"
      and s3: "ensure_wallet E (named_wallet ''QDAY Custody'' found) ''QDAY Custody'' ''qday-walletd managed addresses'' s2 = (Ok w2, s3)"
      and a: "register_addresses E (wl_id w2) s3 = (Ok x, s4)" and c: "register_contracts E (wl_id w1) s4 = (Ok y, t)"
      and ids: "(custody, swaps) = (wl_id w2, wl_id w1)"
      unfolding watch_wallets_def bnd_Ok_iff ret_Ok_iff outcome.inject by blast
    have ensure: "evolves same_rows.of_boot (ensure_wallet E w name description)" for w name description
      unfolding ensure_wallet_def by (intro same_rows.kept_intros)
    have rows: "tables (daemon s3) = tables (daemon s)"
      using same_rows_D [OF same_rows.kept_calls(3) s1] same_rows_D [OF ensure s2] same_rows_D [OF ensure s3] by simp
    from registered(1) [OF laws, of "wl_id w2" s3 s4] registered(2) [OF laws, of "wl_id w1" s4 t] show ?thesis
      using a c ids rows by (auto intro: watched_mono)
  qed
  ultimately show ?thesis by (auto split: outcome.split)
qed

end
