(* ===== verification/Api_Examples.thy ===== *)
theory Api_Examples
  imports Api_Facts
begin

text \<open>
  The properties of the interface on concrete requests: a withdrawal that is carried out, and the
  listing of the addresses.
\<close>

definition sample_body :: "(string \<times> string) list" where
  "sample_body = [(''requestID'', ''pay-1''), (''destination'', ''d''), (''amountAtomic'', ''500''), (''feeAtomic'', ''200''),
     (''expectedUnitAtomic'', ''1'')]"

definition sample_post :: "string \<Rightarrow> request" where
  "sample_post token = \<lparr>hq_method = ''POST'', hq_path = [''v1'', ''withdrawals''], hq_query = [],
     hq_authorization = ''Bearer '' @ token, hq_content_type = ''application/json'', hq_body = object_text sample_body,
     hq_body_end = True\<rparr>"

definition sample_get :: "string \<Rightarrow> request" where
  "sample_get name = \<lparr>hq_method = ''GET'', hq_path = [''v1'', name], hq_query = [],
     hq_authorization = ''Bearer secret'', hq_content_type = [], hq_body = [], hq_body_end = True\<rparr>"

lemma sample_media: "media_type_is ''application/json'' ''application/json''"
proof -
  have "ascii ''application/json''" by (simp add: ascii_def byte_of_def)
  then have "trim_space (lower_runes ''application/json'') = ''application/json''"
    by (simp add: lower_runes_ascii lower_char_def byte_of_def trim_space_tight is_space_def)
  then show ?thesis by (simp add: media_type_is_def media_params.simps trim_left_def)
qed

lemma sample_sends: "sends sample_body (sample_post token)"
  by (simp add: sends_def sample_post_def sample_body_def object_text_def quote_def plain_char_def byte_of_def
      max_body_def sample_media)

lemma sample_decoded: "decode_body withdrawal_fields zero_withdrawal (sample_post token) = Inr sample_request"
  unfolding decode_sent [OF sample_sends]
  by (simp add: sample_body_def find_field_def withdrawal_fields_def string_field_def zero_withdrawal_def sample_request_def)

lemma sample_routes:
  "route (hq_method (sample_post token)) (hq_path (sample_post token)) = Inr CreateWithdrawal"
  "route (hq_method (sample_get ''addresses'')) (hq_path (sample_get ''addresses'')) = Inr ListAddresses"
  by (simp_all add: sample_post_def sample_get_def route_def path_routes_def routes_def)

lemma sample_tokens:
  "authorised_request ''secret'' (sample_post ''secret'')" "\<not> authorised_request ''secret'' (sample_post ''other'')"
  "authorised_request ''secret'' (sample_get name)"
  by (simp_all add: authorised_request_def sample_post_def sample_get_def trim_prefix_def)

lemma sample_posted:
  "handle sample_pay_env ''secret'' (sample_post ''secret'') sample_sys
    = (Ok (security_headers (write_json 201 (BWithdrawal sample_view))), sample_paid)"
  unfolding handle_run sample_routes
  by (simp add: sample_tokens dispatch_def api_create_withdrawal_def with_body_def sample_decoded serve_def attempt_def
      bnd_def sample_create created_status_def)

theorem request_confined_witness:
  "moves sample_pay_env {Issue ''change'' [], Resend ''pay-1'', Pay ''pay-1'' ''withdrawal'' [100] 500 200} sample_sys sample_paid"
proof -
  have "sample_parse ''500'' = Inr amnt \<longleftrightarrow> amnt = 500" for amnt
    by (auto simp: sample_parse_def digits_value_def byte_of_def)
  then show ?thesis
  using request_confined [OF sample_currency_laws sample_posted]
  by (simp add: sample_routes sample_tokens request_change_def request_labels_def body_labels_def sample_decoded
      payment_labels_def sample_request_def sample_parsed insert_commute)
qed

theorem created_told_witness:
  "recorded sample_pay_env CreateWithdrawal (sample_post ''secret'') sample_sys sample_paid"
  using created_told [OF sample_currency_laws sample_posted sample_routes(1)]
  by (simp add: creates_def write_json_def security_headers_def)

theorem errors_answered_witness:
  "fst (handle sample_pay_env ''secret'' (sample_get ''addresses'') sample_sys) \<noteq> Hang \<and>
    rs_status (security_headers (write_json 201 (BWithdrawal sample_view))) = 201 \<and>
    proper_answer CreateWithdrawal (security_headers (write_json 201 (BWithdrawal sample_view)))"
proof -
  obtain r t where run: "handle sample_pay_env ''secret'' (sample_get ''addresses'') sample_sys = (r, t)" by fastforce
  show ?thesis
    using errors_answered [OF run] errors_answered [OF sample_posted] run
    by (auto simp: sample_routes sample_tokens write_json_def security_headers_def plain_def)
qed

theorem bodies_read_witness:
  "decode_body withdrawal_fields zero_withdrawal (sample_post ''secret'') = Inr sample_request"
  using bodies_read [OF sample_sends [of "''secret''"], of "''pay-1''" "''d''" "''500''" "''200''" "''1''", THEN conjunct1]
  by (simp add: sample_body_def sample_request_def)




end
