(* ===== verification/Lifetime_Examples.thy ===== *)
theory Lifetime_Examples
  imports Typed_Store Api_Examples
begin

text \<open>
  The properties of a whole life on a concrete one: a withdrawal is requested and carried out, the
  process is started again, and a request without the token arrives.
\<close>

definition sample_reopened :: "unit sys" where
  "sample_reopened = sample_paid\<lparr>world := (), mst_seed := None, the_node := the_node sample_paid, key_path := key_path sample_paid, wake := True\<rparr>"

lemma sample_refused:
  "handle sample_pay_env ''secret'' (sample_post ''other'') s = (Ok (security_headers (write_error 401 ''authentication required'')), s)"
  unfolding handle_run sample_routes by (simp add: sample_tokens)

lemma sample_life: "lifetime sample_pay_env ''secret'' sample_sys sample_reopened"
proof -
  have "step sample_pay_env ''secret'' sample_sys sample_paid" using sample_posted by (rule step.request)
  moreover have "step sample_pay_env ''secret'' sample_paid sample_reopened"
    unfolding sample_reopened_def by (rule step.restart)
  ultimately show ?thesis by (rule converse_rtranclp_into_rtranclp [OF _ r_into_rtranclp])
qed

lemma sample_rows:
  "t_withdrawals (tables sample_sys) = []"
  "t_withdrawals (tables sample_reopened) = [withdrawal_row_of sample_pay_env sample_withdrawal [0] 10]"
  "t_addresses (tables sample_sys) = [sample_row]" "t_swap_keys (tables sample_sys) = []" "t_swaps (tables sample_sys) = []"
  "t_actions (tables sample_sys) = []"
  by (simp_all add: sample_reopened_def sample_paid_def sample_state)

theorem daemon_refines_ledger_witness:
  "entries (ledger_of (tables sample_sys)) (ledger_of (tables sample_reopened)) \<and>
    lg_payments (ledger_of (tables sample_sys)) = Map.empty \<and>
    dom (lg_payments (ledger_of (tables sample_reopened))) = {''pay-1''}"
  using daemon_refines_ledger [OF sample_currency_laws sample_life]
  by (simp add: ledger_of_def wtab.index_dom sample_rows withdrawal_row_of_def sample_withdrawal_def wtab.index_def)

theorem promises_kept_witness:
  "keyed (tables sample_reopened) \<and>
    (\<exists>!q. q \<in> set (t_addresses (tables sample_reopened)) \<and> ar_index q = ar_index sample_row \<and>
       child_columns q = child_columns sample_row)"
  using promises_kept [OF sample_currency_laws sample_life] by (simp add: keyed_def sample_rows rows_kept_def)

theorem locked_promises_nothing_witness: "same_promises (tables sample_reopened) (tables sample_reopened)"
proof (rule locked_promises_nothing [OF sample_currency_laws])
  show "step sample_pay_env ''secret'' sample_reopened sample_reopened" using sample_refused by (rule step.request)
qed (simp add: sample_reopened_def)

lemma sample_typed: "typed sample_pay_env (tables sample_sys)"
  by (simp add: typed_def sample_rows decode_address_def sample_row_def scan_uint64_def sample_keys_def Let_def)

theorem store_type_safe_witness: "typed sample_pay_env (tables sample_reopened) \<and> readable sample_pay_env (tables sample_reopened)"
  by (rule store_type_safe [OF sample_currency_laws sample_codec_laws sample_key_laws sample_life sample_typed])

end
