(* ===== verification/Start_Examples.thy ===== *)
theory Start_Examples
  imports Start_Facts Watch_Facts Lifetime_Examples
begin

text \<open>
  The start on a concrete machine: every file holds a passphrase of twelve letters, every call
  succeeds, and the packages of the daemon are those of theory Sample.
\<close>

definition sample_node_env :: "v2txn list \<Rightarrow> siacoin_element list \<Rightarrow> unit node_env" where
  "sample_node_env txns outs = env.extend (sample_env txns outs) (node_env.fields
     concat ''linux'' (\<lambda>v. ''home'') ''1'' (\<lambda>j. Inr \<lparr>mf_genesis = [7], mf_development = False, mf_rest = []\<rparr>) (\<lambda>m. None) []
     (\<lambda>e. True) (\<lambda>e. False) (\<lambda>e. False) (\<lambda>p w. (Inr 12, w)) (\<lambda>p w. (Inr ''abcdefabcdef'', w)) (\<lambda>p w. (Inr ([], True), w))
     (\<lambda>p c w. (None, w)) (\<lambda>w. (Inr (replicate 32 5), w)) (\<lambda>p w. (None, w)) (\<lambda>p w. (None, w)) (\<lambda>w. ([1], w)) (\<lambda>p. Inr [1]) (\<lambda>b. ''phrase'')
     (\<lambda>p pw seed k w. (None, w)) (\<lambda>r p w. (Inr p, w)) (\<lambda>r w. (None, w)) (\<lambda>m w. (None, w)) (\<lambda>p w. (None, w)) (\<lambda>w. (None, w))
     (\<lambda>g a ps w. ((), w)) (\<lambda>w. (Inr [\<lparr>wl_id = 1, wl_name = ''QDAY Custody''\<rparr>], w)) (\<lambda>n d w. (Inr \<lparr>wl_id = 2, wl_name = n\<rparr>, w))
     (\<lambda>w. (None, w)) (\<lambda>w. (None, w)) (\<lambda>w. (None, w)))"

lemmas sample_node_defs = sample_node_env_def env.extend_def node_env.fields_def

lemma sample_node_calls [simp]:
  "join_path (sample_node_env txns outs) = concat" "os_name (sample_node_env txns outs) = ''linux''"
  "get_env (sample_node_env txns outs) = (\<lambda>v. ''home'')"
  "stat_file (sample_node_env txns outs) = (\<lambda>p w. (Inr 12, w))"
  "read_file (sample_node_env txns outs) = (\<lambda>p w. (Inr ''abcdefabcdef'', w))"
  "open_resource (sample_node_env txns outs) = (\<lambda>r p w. (Inr p, w))"
  "close_resource (sample_node_env txns outs) = (\<lambda>r w. (None, w))"
  "wm_wallets (sample_node_env txns outs) = (\<lambda>w. (Inr [\<lparr>wl_id = 1, wl_name = ''QDAY Custody''\<rparr>], w))"
  "wm_add_wallet (sample_node_env txns outs) = (\<lambda>n d w. (Inr \<lparr>wl_id = 2, wl_name = n\<rparr>, w))"
  by (simp_all add: sample_node_defs)

lemma sample_node_packages [simp]:
  "qaddr_string (sample_node_env txns outs) = bytes_text"
  "parse_qaddr (sample_node_env txns outs) = (\<lambda>s. Inr (text_bytes s))"
  "keys_bytes (sample_node_env txns outs) = (\<lambda>k. classical k @ reserve k)"
  "keys_validate (sample_node_env txns outs) = (\<lambda>k. None)" "keys_address (sample_node_env txns outs) = classical"
  "keys_from_seed (sample_node_env txns outs) = (\<lambda>seed. Inr \<lparr>pk_public = sample_keys, pk_secret = []\<rparr>)"
  "db_fault (sample_node_env txns outs) = (\<lambda>w. (None, w))" "now (sample_node_env txns outs) = (\<lambda>w. (0, w))"
  "read_key (sample_node_env txns outs) = (\<lambda>p pw w. (Inr [1], w))"
  "wm_add_addresses (sample_node_env txns outs) = (\<lambda>wid as w. (None, w))"
  by (simp_all add: sample_node_defs)

lemma sample_node_currency: "currency_laws (sample_node_env txns outs)"
  by (simp add: currency_laws_def sample_node_defs sample_parse_def)

lemma sample_node_codec: "codec_laws (sample_node_env txns outs)"
  using sample_codec by (auto simp: codec_laws_def sample_node_defs sample_parse_def)

lemma sample_node_keys: "key_laws (sample_node_env txns outs)"
  by (simp add: key_laws_def sound_keys_def full_keys_def sample_keys_def)

section \<open>A new database, and the recovery of one address\<close>

definition sample_boot :: "unit boot" where
  "sample_boot = \<lparr>daemon = sample_sys\<lparr>tables := empty_store\<rparr>, handles = [],
     schema = \<lparr>sv_rows = [], sv_tables = Map.empty, sv_indexes = Map.empty\<rparr>, died = False\<rparr>"

definition sample_schema :: schema where
  "sample_schema = \<lparr>sv_rows = [3], sv_tables = current_tables, sv_indexes = current_indexes\<rparr>"

definition sample_child :: address_row where
  "sample_child = \<lparr>ar_index = 0, ar_address = bytes_text (classical sample_keys),
     ar_public = classical sample_keys @ reserve sample_keys, ar_reference = None, ar_kind = ''change'', ar_created = 0\<rparr>"

definition sample_recovered :: "unit boot" where
  "sample_recovered = \<lparr>daemon = sample_sys\<lparr>tables := empty_store\<lparr>t_addresses := [sample_child]\<rparr>\<rparr>, handles = [],
     schema = sample_schema, died = False\<rparr>"

definition sample_args :: "string list" where
  "sample_args = [''-count'', ''1'', ''-password-file'', ''p'']"

lemmas boot_run = bnd_def call_def call_sum_def call_err_def failed_def on_daemon_def statement_def ext_err_def ext_def
  acquire_def release_def

text \<open>The statements of the schema script, on an engine that does not fail.\<close>

lemma sample_statement:
  "admits (schema s) \<Longrightarrow>
    schema_statement (sample_node_env txns outs) admits f s = (Ok (), s\<lparr>schema := f (schema s)\<rparr>)"
  by (simp add: schema_statement_def boot_run guard_err_def)

lemma sample_table_created:
  "sv_tables (schema s) table = None \<Longrightarrow> create_table (sample_node_env txns outs) table columns s =
    (Ok (), s\<lparr>schema := (schema s)\<lparr>sv_tables := (sv_tables (schema s))(table \<mapsto> columns)\<rparr>\<rparr>)"
  by (simp add: create_table_def sample_statement)

lemma sample_index_created:
  "has_columns table [] (schema s) \<Longrightarrow> has_columns table columns (schema s) \<Longrightarrow> sv_indexes (schema s) name = None \<Longrightarrow>
    create_index (sample_node_env txns outs) name table columns s =
    (Ok (), s\<lparr>schema := (schema s)\<lparr>sv_indexes := (sv_indexes (schema s))(name \<mapsto> (table, columns))\<rparr>\<rparr>)"
  by (simp add: create_index_def sample_statement)

lemma sample_created:
  "create_tables (sample_node_env txns outs) (sample_boot\<lparr>handles := hs\<rparr>) = (Ok (), sample_boot\<lparr>handles := hs,
    schema := \<lparr>sv_rows = [1], sv_tables = current_tables, sv_indexes = Map.empty\<rparr>\<rparr>)"
  by (simp add: create_tables_def bnd_def sample_table_created sample_statement has_columns_def sample_boot_def current_tables_eq)

lemma current_has:
  "has_columns ''withdrawals'' [''confirmed_height''] \<lparr>sv_rows = r, sv_tables = current_tables, sv_indexes = i\<rparr>"
  "has_columns ''swap_actions'' [''confirmed_height''] \<lparr>sv_rows = r, sv_tables = current_tables, sv_indexes = i\<rparr>"
  "has_columns ''swap_actions'' [''swap_id'', ''created_at''] \<lparr>sv_rows = r, sv_tables = current_tables, sv_indexes = i\<rparr>"
  "has_columns ''schema_version'' [''version''] \<lparr>sv_rows = r, sv_tables = current_tables, sv_indexes = i\<rparr>"
  by (simp_all add: has_columns_def current_tables_eq withdrawal_columns_def swap_action_columns_def)

lemma has_none: "has_columns table (x # xs) c \<Longrightarrow> has_columns table [] c"
  by (simp add: has_columns_def split: option.splits)

lemma sample_columns:
  "schema s = \<lparr>sv_rows = r, sv_tables = current_tables, sv_indexes = i\<rparr> \<Longrightarrow>
    table_columns (sample_node_env txns outs) s = (Ok withdrawal_columns, s)"
  by (simp add: table_columns_def boot_run current_tables_eq)

lemma sample_opened:
  "open_store (sample_node_env txns outs) path sample_boot =
    (Ok (), sample_boot\<lparr>handles := [RecordsDB], schema := sample_schema\<rparr>)"
proof -
  have "''confirmed_height'' \<in> set withdrawal_columns" "''confirmed_block_id'' \<in> set withdrawal_columns"
    by (simp_all add: withdrawal_columns_def)
  moreover have "acquire (sample_node_env txns outs) RecordsDB path sample_boot = (Ok path, sample_boot\<lparr>handles := [RecordsDB]\<rparr>)"
    by (simp add: boot_run sample_boot_def)
  ultimately show ?thesis
    by (simp add: open_store_def or_release_def bnd_def sample_created sample_columns add_column_def create_indexes_def
        sample_index_created sample_statement current_has current_has [THEN has_none] sample_schema_def current_indexes_def)
qed

lemma sample_flags:
  "parse_flags (recover_flags E) sample_args =
    Some ([(''data'', FlagText (default_data_dir E)), (''password-file'', FlagText ''p''), (''count'', FlagCount 1)], [])"
  by (simp add: sample_args_def recover_flags_def split_flag_def set_flag_def put_flag_def parse_uint_any_def byte_of_def is_digit_def)

lemma sample_secret_text: "trim_space ''abcdefabcdef'' = ''abcdefabcdef''"
  by (rule trim_space_tight) (simp_all add: ascii_def byte_of_def is_space_def)

lemma sample_secret: "read_secret (sample_node_env txns outs) ''p'' ''password'' s = (Ok ''abcdefabcdef'', s)"
  by (simp add: read_secret_def boot_run sample_secret_text Let_def)

lemma sample_derived: "derive_keys (sample_node_env txns outs) seed i = Inr \<lparr>pk_public = sample_keys, pk_secret = []\<rparr>"
  by (simp add: derive_keys_def)

lemma sample_child_added:
  "recover_child (sample_node_env txns outs) [1] 0 0
      (sample_boot\<lparr>handles := [RecordsDB], schema := sample_schema\<rparr>)
    = (Ok 1, sample_recovered\<lparr>handles := [RecordsDB]\<rparr>)"
  by (simp add: recover_child_def sample_derived boot_run address_by_index_def add_address_def sql_uint64_def query_row_def
      sample_boot_def sample_recovered_def empty_store_def address_constraints_def address_row_of_def child_record_def
      sample_child_def sample_keys_def guard_err_def Let_def unix_seconds_def)

lemma sample_recovery:
  "recover_addresses (sample_node_env txns outs) sample_args sample_boot = (Ok (report 1 1), sample_recovered)"
proof -
  let ?u = "sample_boot\<lparr>handles := [RecordsDB], schema := sample_schema\<rparr>"
  have children: "recover_children (sample_node_env txns outs) [1] 1 ?u = (Ok 1, sample_recovered\<lparr>handles := [RecordsDB]\<rparr>)"
    by (simp add: recover_children_def bnd_def sample_child_added)
  have key: "call_sum (Pair (Inr x)) s = (Ok x, s)" for x and s :: "unit boot"
    by (simp add: boot_run)
  have ends: "close_store (sample_node_env txns outs) (sample_recovered\<lparr>handles := [RecordsDB]\<rparr>) = (Ok None, sample_recovered)"
    by (simp add: close_store_def boot_run sample_recovered_def)
  show ?thesis
    by (simp add: recover_addresses_def with_flags_def sample_flags flag_count_def flag_text_def Let_def bnd_def sample_secret key
        sample_opened deferring_def children [unfolded One_nat_def] ends report_def guard_err_def)
qed

theorem program_tidy_witness:
  "handles sample_boot = [] \<and> run_program (sample_node_env [] []) [] (''recover-addresses'' # sample_args) sample_boot =
      (Ok (report 1 1), sample_recovered) \<and> handles sample_recovered = []"
proof -
  have run: "run_program (sample_node_env [] []) [] (''recover-addresses'' # sample_args) sample_boot = (Ok (report 1 1), sample_recovered)"
    by (simp add: run_program_def sample_recovery)
  have start: "handles sample_boot = []" by (simp add: sample_boot_def)
  show ?thesis using program_tidy [OF sample_node_currency start run] run start by blast
qed

theorem program_keeps_records_witness:
  "typed (sample_node_env [] []) (tables (daemon sample_recovered)) \<and> keyed (tables (daemon sample_recovered)) \<and>
    readable (sample_node_env [] []) (tables (daemon sample_recovered)) \<and>
    rows_kept (tables (daemon sample_boot)) (tables (daemon sample_recovered))"
proof -
  have run: "run_program (sample_node_env [] []) [] (''recover-addresses'' # sample_args) sample_boot = (Ok (report 1 1), sample_recovered)"
    by (simp add: run_program_def sample_recovery)
  have "keyed (tables (daemon sample_boot))" "typed (sample_node_env [] []) (tables (daemon sample_boot))"
    by (simp_all add: sample_boot_def keyed_def typed_def empty_store_def)
  with program_keeps_records [OF sample_node_currency sample_node_codec sample_node_keys run] show ?thesis by blast
qed

theorem addresses_restored_witness:
  "\<exists>fs seed added. parse_flags (recover_flags (sample_node_env [] [])) sample_args = Some (fs, []) \<and>
    restored (sample_node_env [] []) seed (flag_count ''count'' fs) empty_store (tables (daemon sample_recovered)) added \<and>
    report 1 1 = report added (flag_count ''count'' fs)"
  using addresses_restored [OF sample_node_codec sample_recovery, of "[]" "[]"] by (auto simp: sample_boot_def)

text \<open>A database of a development build: three tables, and no confirmation columns.\<close>

definition sample_old :: schema where
  "sample_old = \<lparr>sv_rows = [1], sv_tables = [''schema_version'' \<mapsto> [''version''], ''addresses'' \<mapsto> address_columns,
     ''withdrawals'' \<mapsto> take 10 withdrawal_columns], sv_indexes = Map.empty\<rparr>"

lemma sample_old_migrated: "migrated sample_old = sample_schema"
  unfolding migrated_def sample_old_def sample_schema_def
  by (intro schema.equality ext) (auto simp: current_tables_eq completed_def withdrawal_columns_def)

theorem database_migrated_witness:
  "\<exists>t. open_store (sample_node_env [] []) ''d'' (sample_boot\<lparr>schema := sample_old\<rparr>) = (Ok (), t) \<and> schema t = sample_schema"
proof -
  obtain r t where run: "open_store (sample_node_env [] []) ''d'' (sample_boot\<lparr>schema := sample_old\<rparr>) = (r, t)" by fastforce
  have "database_works (sample_node_env [] [])" and "earlier_layout sample_old"
    by (simp_all add: database_works_def earlier_layout_def has_columns_def sample_old_def)
  with database_migrated [OF run] run show ?thesis
    by (cases r) (auto simp: sample_old_migrated)
qed

theorem token_survives_witness:
  "\<exists>raw. hex_decode (hex_encode (replicate 32 5)) = Some raw \<and> length raw = 32 \<and>
    token_of (hex_encode (replicate 32 5)) = Inr (hex_encode (replicate 32 5))"
proof -
  let ?E = "(sample_node_env [] [])\<lparr>read_file := \<lambda>p w. (Inl (Foreign ''not found''), w), is_not_exist := \<lambda>e. True\<rparr>"
  have trim: "trim_space (hex_encode (replicate 32 5)) = hex_encode (replicate 32 5)" by (rule hex_untrimmed [OF hex_roundtrip])
  have "load_or_create_token ?E ''api.token'' sample_boot = (Ok (hex_encode (replicate 32 5)), sample_boot)"
    by (simp add: load_or_create_token_def boot_run sample_node_defs token_of_def trim Let_def)
  from token_survives [OF this] show ?thesis by auto
qed

text \<open>An index that takes one entry, and a store with the address it stands for.\<close>

definition sample_index_env :: "unit node_env" where
  "sample_index_env = (sample_node_env [] [])\<lparr>wm_add_addresses := \<lambda>wid as w.
     (if wid = 1 \<and> as = [custody_entry (sample_node_env [] []) sample_owner] then None else Some (Foreign ''refused''), w)\<rparr>"

definition sample_watching :: "unit boot" where
  "sample_watching = sample_boot\<lparr>daemon := sample_sys\<rparr>"

lemma sample_watches: "watch_laws sample_index_env (\<lambda>_. {(1, custody_entry (sample_node_env [] []) sample_owner)})"
  by (simp add: watch_laws_def sample_index_env_def)

lemma sample_entry: "custody_entry sample_index_env a = custody_entry (sample_node_env [] []) a"
  by (simp add: custody_entry_def sample_index_env_def)

lemma sample_decoded_row: "decode_address sample_index_env sample_row = Inr sample_owner"
  by (simp add: sample_index_env_def decode_address_def sample_row_def sample_owner_def scan_uint64_def
      sample_keys_def unix_time_def numeral_eq_Suc)

lemma sample_index_calls [simp]:
  "db_fault sample_index_env = (\<lambda>w. (None, w))"
  "wm_wallets sample_index_env = (\<lambda>w. (Inr [\<lparr>wl_id = 1, wl_name = ''QDAY Custody''\<rparr>], w))"
  "wm_add_wallet sample_index_env = (\<lambda>n d w. (Inr \<lparr>wl_id = 2, wl_name = n\<rparr>, w))"
  "wm_add_addresses sample_index_env = (\<lambda>wid as w.
     (if wid = 1 \<and> as = [custody_entry (sample_node_env [] []) sample_owner] then None else Some (Foreign ''refused''), w))"
  by (simp_all add: sample_index_env_def)

lemma sample_pages:
  "addresses_page sample_index_env batch_size 0 sample_sys = (Ok [sample_owner], sample_sys)"
  "swaps_page sample_index_env batch_size 0 sample_sys = (Ok [], sample_sys)"
proof -
  have st: "statement sample_index_env s = (Ok (), s)" for s
    by (simp add: statement_def ext_err_def ext_def bnd_def)
  show "addresses_page sample_index_env batch_size 0 sample_sys = (Ok [sample_owner], sample_sys)"
    by (simp add: addresses_page_def bnd_def st batch_size_def page_def sample_state sample_decoded_row)
  show "swaps_page sample_index_env batch_size 0 sample_sys = (Ok [], sample_sys)"
    by (simp add: swaps_page_def bnd_def st batch_size_def page_def sample_state)
qed

lemma sample_indexed: "watch_wallets sample_index_env sample_watching = (Ok (1, 2), sample_watching)"
proof -
  have sys: "daemon sample_watching = sample_sys" "sample_watching\<lparr>daemon := sample_sys\<rparr> = sample_watching"
    by (simp_all add: sample_watching_def)
  have page: "on_daemon (addresses_page sample_index_env batch_size 0) sample_watching = (Ok [sample_owner], sample_watching)"
    "on_daemon (swaps_page sample_index_env batch_size 0) sample_watching = (Ok [], sample_watching)"
    by (simp_all add: on_daemon_def sys sample_pages)
  have small: "1 < batch_size" by (simp add: batch_size_def)
  have call: "call f sample_watching = (Ok (fst (f ())), sample_watching)" for f :: "unit \<Rightarrow> 'a \<times> unit"
    by (simp add: call_def split: prod.split)
  have a: "register_addresses sample_index_env 1 sample_watching = (Ok (), sample_watching)"
    unfolding register_addresses_def
    by (rule loop_done) (simp add: address_batch_def bnd_def page call_err_def call in_context_def sample_entry small)
  have c: "register_contracts sample_index_env 2 sample_watching = (Ok (), sample_watching)"
    unfolding register_contracts_def by (rule loop_done) (simp add: swap_batch_def bnd_def page)
  have swaps: "named_wallet ''QDAY Atomic Swaps'' [\<lparr>wl_id = 1, wl_name = ''QDAY Custody''\<rparr>] = \<lparr>wl_id = 0, wl_name = []\<rparr>"
    and custody: "named_wallet ''QDAY Custody'' [\<lparr>wl_id = 1, wl_name = ''QDAY Custody''\<rparr>] = \<lparr>wl_id = 1, wl_name = ''QDAY Custody''\<rparr>"
    by (simp_all add: named_wallet_def)
  show ?thesis
    by (simp add: watch_wallets_def bnd_def call_sum_def call failed_def ensure_wallet_def swaps [unfolded One_nat_def] custody [unfolded One_nat_def] a [unfolded One_nat_def] c)
qed

theorem wallets_watched_witness:
  "watched (\<lambda>_. {(1, custody_entry (sample_node_env [] []) sample_owner)}) 1 (decode_address sample_index_env)
    (\<lambda>a. Inr (custody_entry sample_index_env a)) sample_watching sample_row"
  using wallets_watched [OF sample_watches sample_indexed] by (simp add: sample_watching_def sample_state)

end
