(* ===== verification/Spec2Isabelle.thy ===== *)
theory Spec2Isabelle
  imports Swap_Examples Derive Selection Address_Facts Custody_Transfer Withdrawal_Facts Deposit_Facts Rebroadcast_Facts Defend_Facts
    Start_Examples
begin

text \<open>
  qday-walletd, a custody wallet daemon for the QDAY network, written in Go: it derives deposit
  addresses from one master seed, journals and sends withdrawals, keeps outputs shielded by DEFEND
  transactions, takes part in atomic swaps, and is driven over a local HTTP API. This development
  models the whole implementation under \<open>src/\<close> (the tests apart) and proves what makes it correct.

  \<^bold>\<open>The program.\<close> \<open>main.go\<close> reads the command line, opens the database (\<open>internal/meta\<close>) and the node
  (\<open>internal/daemon/node.go\<close>), starts the service (\<open>internal/daemon/service.go\<close>, \<open>swap.go\<close>) with its
  background loop and serves the API (\<open>internal/api\<close>). Every payment is written to the journal of the
  database before its transaction leaves the process; the loop brings unconfirmed transactions to the
  tip and sends them again.

  \<^bold>\<open>How the code is modelled.\<close> A method is a computation of theory Prelude: explicit state passing
  with the outcomes \<open>Ok\<close>, \<open>Err\<close>, \<open>Panic\<close> and \<open>Hang\<close>. A \<open>for\<close> loop is \<open>loop\<close> over
  \<open>while_option\<close>, so that a loop without end is the outcome \<open>Hang\<close>; the theorems that a method
  returns say that this outcome is impossible, and no fuel is used. Go strings are sequences of bytes, 64-bit heights and
  indexes are words, currencies are natural numbers below \<open>2 ^ 128\<close> behind the operations of the
  currency package. The database is the record \<open>store\<close> of its five tables with the constraints of the
  schema; every statement may fail. The packages that are not in the repository (the QDAY core, the
  chain, the wallet index, the syncer, the key file, SQLite's faults, files, sockets and the clock)
  are the fields of the record \<open>env\<close>, and \<open>node_env\<close> for what only the start uses, as functions of a
  world that they change; what the proofs rely on is stated as named hypotheses (\<open>currency_laws\<close>,
  \<open>codec_laws\<close>, \<open>slice_laws\<close>, \<open>key_laws\<close>, \<open>watch_laws\<close>), which the instance of theory Sample satisfies.
  What must not be sent is stated for any measure of the outside that the reading calls leave alone
  (\<open>quiet_calls\<close>). The schema of the database file (version rows, tables with their columns, indexes) is
  part of the state of the process; the constraints of the columns are in the operations of the store.
  A panic of the background goroutine ends the process without its deferred closes (\<open>died\<close>), a panic of
  a handler is recovered by the server, and one of the main goroutine runs them.

  \<^bold>\<open>Theories and sources.\<close>
  \<^item> Prelude, Go_Lib, Go_Crypto, Go_Net, Go_Json, Go_Flag: computations and loops; the parts of Go's
    standard library that are used (strings and runes, SHA-2 and HMAC, URLs and IP addresses, JSON,
    command line options). Externals: the record of the outside packages. Sample: its instance.
  \<^item> Derive: \<open>internal/derive/derive.go\<close>.
  \<^item> Store, Swap_Store: \<open>internal/meta/store.go\<close> and \<open>internal/meta/swap.go\<close>; Store_Facts: the contract of
    a table with a primary key as a locale, interpreted on the five tables.
  \<^item> Service, Custody, Withdrawals, Rebroadcast: \<open>internal/daemon/service.go\<close> (lock state, addresses,
    balance, status; transactions; withdrawals and deposits; the background loop). Swaps:
    \<open>internal/daemon/swap.go\<close>.
  \<^item> Api: \<open>internal/api/api.go\<close>.
  \<^item> Boot, Node: \<open>Open\<close> of \<open>internal/meta/store.go\<close>, \<open>internal/daemon/node.go\<close>, and the start and end of the
    service. Cli: \<open>main.go\<close>.

  \<^bold>\<open>What is proved.\<close>
  \<^item> Keys and addresses (Derive, Address_Facts): no two uses of a seed share a message; the address
    table is the list of children; a deposit address is issued once for a reference, and
    a repeated request answers it again.
  \<^item> Transactions (Selection, Custody_Facts, Custody_Transfer): optimal selection, conservation of
    value, every input signed by its owner over the final transaction, the first nonce that works.
  \<^item> Withdrawals and deposits (Withdrawal_Facts, Deposit_Facts): a request identifier pays once and
    what it asked for; the pages of deposits are the history, without gaps.
  \<^item> Background work (Proof_Update, Robust, Rebroadcast_Facts, Defend_Facts): proofs are carried over
    forks in joined requests; a turn always comes back and changes no payment, and sends
    nothing for a payment that is confirmed; DEFEND takes the expiring outputs, the most urgent first.
  \<^item> Swaps (Swap_Facts, Swap_Register, Swap_View_Facts): an identifier is bound to one contract, funded
    once, each output claimed or refunded once by the right branch and keys; the view is what the
    chain tells.
  \<^item> The API (Requests, Json_Facts, Api_Facts): what a request may do, the token, decoding, status codes,
    and what the listings show.
  \<^item> The whole (Moves, Effects, Ledger, Typed_Store, Recover_Facts, Program_Facts): every operation is a
    sequence of labelled moves; the daemon refines an abstract ledger of promises; the store is
    type-safe (a journal row is read back exactly when its transaction has at most 4 MiB); and both survive
    every command of the program.
  \<^item> Start and stop (Boot_Facts, Start_Facts, Watch_Facts): nothing stays open, the database gets the
    tables, columns and indexes it lacks, every stored address is watched, peers and token are what they should be.
  \<^item> The witnesses of the properties are in the theories whose names end in Examples, or beside them.

  \<^bold>\<open>Not modelled.\<close> Logging and metrics; the texts of errors that come from packages outside the repository
  and from the JSON, number and option parsers; the JSON text of responses (the value that is encoded is
  kept); timeouts of the HTTP server, the pause after a wrong passphrase and the ticker of the loop
  (a turn by the timer may happen at any time); the zeroing of secrets in memory. Requests, turns of
  the loop and restarts follow each other as whole steps: the operations that create, lock or unlock
  hold the operation lock of the service, whose trial may fail at any time; a rebroadcast that updates
  a journal row in the middle of such an operation is not modelled.
\<close>

end
